(* ===== verification/Ciel_Prelude.thy ===== *)
theory Ciel_Prelude
  imports Main "HOL-Library.Char_ord" "HOL-Library.List_Lexorder" "HOL-Library.Product_Lexorder"
    "HOL-Library.Monad_Syntax"
begin

text \<open>
  Shared vocabulary of the development.

  A Rust \<open>String\<close> is a HOL \<^typ>\<open>string\<close> whose elements stand for Rust \<open>char\<close>s (the scalar
  values U+0000 to U+00FF; every identifier of the language is ASCII). Operations of the source
  that walk \<open>chars()\<close> walk the list; operations that count bytes (\<open>len()\<close>, byte offsets) go
  through \<open>len_utf8\<close> below. \<open>usize\<close> values are \<^typ>\<open>nat\<close>; the bound of the 64 bit targets is
  written out where the source checks for overflow (\<open>checked_mul\<close>, \<open>checked_add\<close>).
  Collections of simplification rules used by several theories are declared here.
\<close>

named_theorems occurs_simps \<open>one notion of occurrence for all traversals of types\<close>
named_theorems subst_simps \<open>substitution pushed through the constructors of types\<close>
named_theorems same_simps \<open>comparison of types up to hidden state\<close>

section \<open>Machine integers: \<open>usize\<close>\<close>

definition usize_bits :: nat where
  "usize_bits = 64"

definition usize_max :: nat where
  "usize_max = 2 ^ usize_bits - 1"

definition checked_mul :: "nat \<Rightarrow> nat \<Rightarrow> nat option" where
  "checked_mul a b = (if a * b \<le> usize_max then Some (a * b) else None)"

definition checked_add :: "nat \<Rightarrow> nat \<Rightarrow> nat option" where
  "checked_add a b = (if a + b \<le> usize_max then Some (a + b) else None)"

definition div_ceil :: "nat \<Rightarrow> nat \<Rightarrow> nat" where
  "div_ceil a b = a div b + (if a mod b = 0 then 0 else 1)"

lemma checked_mul_eq_Some [simp]:
  "checked_mul a b = Some c \<longleftrightarrow> c = a * b \<and> a * b \<le> usize_max"
  by (auto simp: checked_mul_def)

lemma checked_add_eq_Some [simp]:
  "checked_add a b = Some c \<longleftrightarrow> c = a + b \<and> a + b \<le> usize_max"
  by (auto simp: checked_add_def)

lemma checked_mul_eq_None [simp]: "checked_mul a b = None \<longleftrightarrow> usize_max < a * b"
  by (auto simp: checked_mul_def)

lemma checked_add_eq_None [simp]: "checked_add a b = None \<longleftrightarrow> usize_max < a + b"
  by (auto simp: checked_add_def)

lemma div_ceil_lower:
  assumes "0 < b"
  shows "a \<le> div_ceil a b * b"
proof -
  define q r where "q = a div b" and "r = a mod b"
  have "a = q * b + r" and "r < b" using assms by (simp_all add: q_def r_def)
  moreover have "div_ceil a b = q + (if r = 0 then 0 else 1)"
    by (simp add: div_ceil_def q_def r_def)
  ultimately show ?thesis by simp
qed

lemma div_ceil_upper:
  assumes "0 < b" and "0 < a"
  shows "(div_ceil a b - 1) * b < a"
proof -
  define q r where "q = a div b" and "r = a mod b"
  have a: "a = q * b + r" using assms by (simp add: q_def r_def)
  have d: "div_ceil a b = q + (if r = 0 then 0 else 1)"
    by (simp add: div_ceil_def q_def r_def)
  show ?thesis
  proof (cases "r = 0")
    case True
    with a assms(2) have "0 < q" by (cases q) auto
    with True a d assms(1) show ?thesis by (simp add: diff_mult_distrib)
  next
    case False
    with a d show ?thesis by simp
  qed
qed

section \<open>Characters and strings\<close>

text \<open>The number of bytes of one \<open>char\<close> in UTF-8, for scalar values up to U+00FF.\<close>

definition len_utf8 :: "char \<Rightarrow> nat" where
  "len_utf8 c = (if (of_char c :: nat) < 128 then 1 else 2)"

definition str_len :: "string \<Rightarrow> nat" where
  "str_len s = sum_list (map len_utf8 s)"

definition is_ascii_digit :: "char \<Rightarrow> bool" where
  "is_ascii_digit c \<longleftrightarrow> CHR ''0'' \<le> c \<and> c \<le> CHR ''9''"

definition is_ascii_uppercase :: "char \<Rightarrow> bool" where
  "is_ascii_uppercase c \<longleftrightarrow> CHR ''A'' \<le> c \<and> c \<le> CHR ''Z''"

definition is_ascii_lowercase :: "char \<Rightarrow> bool" where
  "is_ascii_lowercase c \<longleftrightarrow> CHR ''a'' \<le> c \<and> c \<le> CHR ''z''"

definition is_ascii_alphanumeric :: "char \<Rightarrow> bool" where
  "is_ascii_alphanumeric c \<longleftrightarrow> is_ascii_digit c \<or> is_ascii_uppercase c \<or> is_ascii_lowercase c"

definition to_ascii_lowercase :: "char \<Rightarrow> char" where
  "to_ascii_lowercase c =
     (if is_ascii_uppercase c then char_of ((of_char c :: nat) + 32) else c)"

text \<open>\<open>[..].join(sep)\<close>.\<close>

fun join :: "string \<Rightarrow> string list \<Rightarrow> string" where
  "join sep [] = []"
| "join sep [x] = x"
| "join sep (x # y # ys) = x @ sep @ join sep (y # ys)"

text \<open>Decimal rendering of a \<open>usize\<close>, as \<open>Display\<close> writes it.\<close>

fun show_nat :: "nat \<Rightarrow> string" where
  "show_nat n = (if n < 10 then [char_of (48 + n)]
                 else show_nat (n div 10) @ [char_of (48 + n mod 10)])"

declare show_nat.simps [simp del]

lemma len_utf8_pos [simp]: "0 < len_utf8 c"
  by (simp add: len_utf8_def)

lemma show_nat_nonempty [simp]: "show_nat n \<noteq> []"
  by (subst show_nat.simps) simp

definition digit_char :: "nat \<Rightarrow> char" where
  "digit_char d = char_of (48 + d)"

lemma of_char_digit_char:
  assumes "d < 10"
  shows "(of_char (digit_char d) :: nat) = 48 + d"
proof -
  have "(48 + d) mod 256 = 48 + d" using assms by (intro mod_less) simp
  then show ?thesis by (simp only: digit_char_def of_char_of)
qed

lemma digit_char_inj:
  assumes "digit_char a = digit_char b" and "a < 10" and "b < 10"
  shows "a = b"
proof -
  from assms have "48 + a = 48 + b" by (metis of_char_digit_char)
  then show ?thesis by simp
qed

lemma show_nat_small: "n < 10 \<Longrightarrow> show_nat n = [digit_char n]"
  by (simp add: show_nat.simps [of n] digit_char_def)

lemma show_nat_large: "\<not> n < 10 \<Longrightarrow> show_nat n = show_nat (n div 10) @ [digit_char (n mod 10)]"
  by (simp add: show_nat.simps [of n] digit_char_def)

lemma digit_char_digit: "d < 10 \<Longrightarrow> is_ascii_digit (digit_char d)"
  by (simp add: is_ascii_digit_def digit_char_def less_eq_char_def)

lemma show_nat_digits: "c \<in> set (show_nat n) \<Longrightarrow> is_ascii_digit c"
proof (induction n rule: less_induct)
  case (less n)
  show ?case
  proof (cases "n < 10")
    case True
    with less.prems show ?thesis by (auto simp: show_nat_small digit_char_digit)
  next
    case False
    with less.prems have "c \<in> set (show_nat (n div 10)) \<or> c = digit_char (n mod 10)"
      by (auto simp: show_nat_large)
    with False less.IH [of "n div 10"] show ?thesis by (auto simp: digit_char_digit)
  qed
qed

lemma show_nat_inj: "show_nat m = show_nat n \<Longrightarrow> m = n"
proof (induction m arbitrary: n rule: less_induct)
  case (less m)
  consider "m < 10" "n < 10" | "m < 10" "\<not> n < 10" | "\<not> m < 10" "n < 10" | "\<not> m < 10" "\<not> n < 10"
    by blast
  then show ?case
  proof cases
    case 1
    with less.prems have "digit_char m = digit_char n" by (simp add: show_nat_small)
    then show ?thesis using 1 by (rule digit_char_inj)
  next
    case 2
    moreover from less.prems have "length (show_nat m) = length (show_nat n)" by simp
    ultimately show ?thesis by (simp add: show_nat_small show_nat_large)
  next
    case 3
    moreover from less.prems have "length (show_nat m) = length (show_nat n)" by simp
    ultimately show ?thesis by (simp add: show_nat_small show_nat_large)
  next
    case 4
    with less.prems have d: "show_nat (m div 10) = show_nat (n div 10)"
      and c: "digit_char (m mod 10) = digit_char (n mod 10)"
      by (simp_all add: show_nat_large)
    from 4 have "m div 10 < m" by simp
    then have "m div 10 = n div 10" using d by (rule less.IH)
    moreover from c have "m mod 10 = n mod 10" by (rule digit_char_inj) simp_all
    ultimately have "m div 10 * 10 + m mod 10 = n div 10 * 10 + n mod 10" by (simp only:)
    then show ?thesis by (simp only: div_mult_mod_eq)
  qed
qed

section \<open>Lists and iterators\<close>

text \<open>\<open>left.len() == right.len() \<and> left.iter().zip(right).all(p)\<close>.\<close>

abbreviation zip_all :: "('a \<Rightarrow> 'b \<Rightarrow> bool) \<Rightarrow> 'a list \<Rightarrow> 'b list \<Rightarrow> bool" where
  "zip_all p xs ys \<equiv> length xs = length ys \<and> list_all (\<lambda>(x, y). p x y) (zip xs ys)"

lemma zip_all_iff_list_all2: "zip_all p xs ys \<longleftrightarrow> list_all2 p xs ys"
  by (simp add: list_all2_iff list_all_iff)

lemma zip_all_eq_map:
  assumes "\<And>x y. x \<in> set xs \<Longrightarrow> p x y \<longleftrightarrow> f x = f y"
  shows "zip_all p xs ys \<longleftrightarrow> map f xs = map f ys"
  using assms
proof (induction xs arbitrary: ys)
  case Nil
  then show ?case by (cases ys) auto
next
  case (Cons x xs)
  show ?case
  proof (cases ys)
    case (Cons y ys')
    have "zip_all p xs ys' \<longleftrightarrow> map f xs = map f ys'"
      by (rule Cons.IH) (simp add: Cons.prems)
    moreover have "p x y \<longleftrightarrow> f x = f y" using Cons.prems by simp
    ultimately show ?thesis by (auto simp: \<open>ys = y # ys'\<close>)
  qed simp
qed

text \<open>
  \<open>seen.insert(x)\<close> as the condition of a \<open>filter\<close> or \<open>retain\<close>: keep the first occurrence of
  every element, in order. \<open>seen\<close> is the set before the first element.
\<close>

fun retain_first :: "('a \<Rightarrow> 'k) \<Rightarrow> 'k set \<Rightarrow> 'a list \<Rightarrow> 'a list" where
  "retain_first key seen [] = []"
| "retain_first key seen (x # xs) =
     (if key x \<in> seen then retain_first key seen xs
      else x # retain_first key (insert (key x) seen) xs)"

lemma set_retain_first_key: "key ` set (retain_first key seen xs) = key ` set xs - seen"
  by (induction xs arbitrary: seen) auto

lemma set_retain_first_subset: "set (retain_first key seen xs) \<subseteq> set xs"
  by (induction xs arbitrary: seen) auto

lemma distinct_retain_first: "distinct (map key (retain_first key seen xs))"
proof -
  have "distinct (map key (retain_first key seen xs)) \<and>
        key ` set (retain_first key seen xs) \<inter> seen = {}"
    by (induction xs arbitrary: seen) auto
  then show ?thesis by simp
qed

lemma retain_first_id:
  "distinct (map key xs) \<Longrightarrow> key ` set xs \<inter> seen = {} \<Longrightarrow> retain_first key seen xs = xs"
  by (induction xs arbitrary: seen) auto

end
