(* ===== verification/Ciel_Source.thy ===== *)
theory Ciel_Source
  imports Ciel_Prelude
begin

text \<open>
  Spans, the source map and diagnostics: \<open>src/span.rs\<close>, \<open>src/source.rs\<close>,
  \<open>src/diagnostic.rs\<close>. The source map hands out file identifiers and turns byte offsets into
  line and column numbers; diagnostics are rendered through it.
\<close>

section \<open>Definitions\<close>

type_synonym file_id = nat

record span =
  span_file :: file_id
  span_start :: nat
  span_end :: nat

definition span_new :: "file_id \<Rightarrow> nat \<Rightarrow> nat \<Rightarrow> span" where
  "span_new file from to = \<lparr>span_file = file, span_start = from, span_end = to\<rparr>"

text \<open>
  \<open>Span::merge\<close>. The \<open>debug_assert_eq!\<close> on the two files is not part of a release build; lemmas
  about \<open>span_merge\<close> state it as a hypothesis where they need it.
\<close>

definition span_merge :: "span \<Rightarrow> span \<Rightarrow> span" where
  "span_merge self other =
     \<lparr>span_file = span_file self,
      span_start = min (span_start self) (span_start other),
      span_end = max (span_end self) (span_end other)\<rparr>"

record source_file =
  file_id :: file_id
  file_path :: string
  file_text :: string

type_synonym source_map = "source_file list"

definition source_map_add :: "source_map \<Rightarrow> string \<Rightarrow> string \<Rightarrow> file_id \<times> source_map" where
  "source_map_add files path text =
     (let fid = length files
      in (fid, files @ [\<lparr>file_id = fid, file_path = path, file_text = text\<rparr>]))"

text \<open>\<open>&self.files[id.0]\<close>; the index panics out of range, which is \<^const>\<open>None\<close>.\<close>

definition source_map_get :: "source_map \<Rightarrow> file_id \<Rightarrow> source_file option" where
  "source_map_get files fid = (if fid < length files then Some (files ! fid) else None)"

definition source_map_file_path :: "source_map \<Rightarrow> file_id \<Rightarrow> string option" where
  "source_map_file_path files fid = map_option file_path (source_map_get files fid)"

fun line_col_loop :: "string \<Rightarrow> nat \<Rightarrow> nat \<Rightarrow> nat \<Rightarrow> nat \<Rightarrow> nat \<times> nat" where
  "line_col_loop [] idx byte line col = (line, col)"
| "line_col_loop (ch # rest) idx byte line col =
     (if idx \<ge> byte then (line, col)
      else if ch = CHR 0x0A then line_col_loop rest (idx + len_utf8 ch) byte (line + 1) 1
      else line_col_loop rest (idx + len_utf8 ch) byte line (col + 1))"

definition line_col :: "source_map \<Rightarrow> file_id \<Rightarrow> nat \<Rightarrow> (nat \<times> nat) option" where
  "line_col files fid byte =
     (case source_map_get files fid of
        None \<Rightarrow> None
      | Some file \<Rightarrow> Some (line_col_loop (file_text file) 0 byte 1 1))"

datatype diagnostic_phase = Phase_Lex | Phase_Parse | Phase_Recovery | Phase_Resolve | Phase_TypeCheck

record diagnostic =
  diag_span :: "span option"
  diag_message :: string
  diag_notes :: "string list"
  diag_phase :: "diagnostic_phase option"

definition diagnostic_new :: "span option \<Rightarrow> string \<Rightarrow> diagnostic" where
  "diagnostic_new sp message =
     \<lparr>diag_span = sp, diag_message = message, diag_notes = [], diag_phase = None\<rparr>"

definition diagnostic_note :: "diagnostic \<Rightarrow> string \<Rightarrow> diagnostic" where
  "diagnostic_note d note = d\<lparr>diag_notes := diag_notes d @ [note]\<rparr>"

definition diagnostic_with_phase :: "diagnostic \<Rightarrow> diagnostic_phase \<Rightarrow> diagnostic" where
  "diagnostic_with_phase d phase = d\<lparr>diag_phase := Some phase\<rparr>"

type_synonym 'a diag_result = "diagnostic list + 'a"

definition diag_fail :: "diagnostic \<Rightarrow> 'a diag_result" where
  "diag_fail d = Inl [d]"

definition newline :: string where
  "newline = [CHR 0x0A]"

text \<open>The line of one diagnostic; \<^const>\<open>None\<close> is the panic of a span with an unknown file.\<close>

definition render_head :: "source_map \<Rightarrow> diagnostic \<Rightarrow> string option" where
  "render_head files d =
     (case diag_span d of
        Some sp \<Rightarrow>
          do { path \<leftarrow> source_map_file_path files (span_file sp);
               (line, col) \<leftarrow> line_col files (span_file sp) (span_start sp);
               Some (path @ '':'' @ show_nat line @ '':'' @ show_nat col @ '': error: ''
                     @ diag_message d @ newline) }
      | None \<Rightarrow> Some (''error: '' @ diag_message d @ newline))"

definition render_notes :: "diagnostic \<Rightarrow> string" where
  "render_notes d = concat (map (\<lambda>note. ''  note: '' @ note @ newline) (diag_notes d))"

fun render_diagnostics :: "source_map \<Rightarrow> diagnostic list \<Rightarrow> string option" where
  "render_diagnostics files [] = Some []"
| "render_diagnostics files (d # ds) =
     do { head \<leftarrow> render_head files d;
          rest \<leftarrow> render_diagnostics files ds;
          Some (head @ render_notes d @ rest) }"

section \<open>Append-only stores\<close>

text \<open>
  What every client of the source map relies on: an identifier handed out once keeps naming the
  same entry, whatever is added later. \<open>run_add\<close> is a client that adds a whole list.
\<close>

fun run_add :: "('s \<Rightarrow> 'a \<Rightarrow> nat \<times> 's) \<Rightarrow> 's \<Rightarrow> 'a list \<Rightarrow> nat list \<times> 's" where
  "run_add add s [] = ([], s)"
| "run_add add s (x # xs) =
     (let (i, s1) = add s x; (is, s2) = run_add add s1 xs in (i # is, s2))"

locale append_store =
  fixes add :: "'s \<Rightarrow> 'a \<Rightarrow> nat \<times> 's"
    and get :: "'s \<Rightarrow> nat \<Rightarrow> 'b option"
    and entry :: "nat \<Rightarrow> 'a \<Rightarrow> 'b"
  assumes get_added: "add s x = (i, s') \<Longrightarrow> get s' i = Some (entry i x)"
    and get_kept: "add s x = (i, s') \<Longrightarrow> get s j = Some y \<Longrightarrow> get s' j = Some y"
    and fresh: "add s x = (i, s') \<Longrightarrow> get s i = None"
begin

lemma run_kept: "get s j = Some y \<Longrightarrow> get (snd (run_add add s xs)) j = Some y"
proof (induction xs arbitrary: s)
  case (Cons x xs)
  obtain i s1 where add: "add s x = (i, s1)" by (cases "add s x")
  from add Cons.prems have "get s1 j = Some y" by (rule get_kept)
  then have "get (snd (run_add add s1 xs)) j = Some y" by (rule Cons.IH)
  with add show ?case by (auto split: prod.splits)
qed simp

lemma run_Cons:
  assumes "add s x = (i, s1)"
  shows "fst (run_add add s (x # xs)) = i # fst (run_add add s1 xs)"
    and "snd (run_add add s (x # xs)) = snd (run_add add s1 xs)"
  using assms by (auto split: prod.splits)

lemma run_lookup:
  "list_all2 (\<lambda>i x. get (snd (run_add add s xs)) i = Some (entry i x)) (fst (run_add add s xs)) xs"
proof (induction xs arbitrary: s)
  case Nil
  then show ?case by simp
next
  case (Cons x xs)
  obtain i s1 where add: "add s x = (i, s1)" by (cases "add s x")
  have "get s1 i = Some (entry i x)" using add by (rule get_added)
  then have "get (snd (run_add add s1 xs)) i = Some (entry i x)" by (rule run_kept)
  with Cons [of s1] show ?case unfolding run_Cons [OF add] by simp
qed

lemma run_fresh: "i \<in> set (fst (run_add add s xs)) \<Longrightarrow> get s i = None"
proof (induction xs arbitrary: s)
  case Nil
  then show ?case by simp
next
  case (Cons x xs)
  obtain k s1 where add: "add s x = (k, s1)" by (cases "add s x")
  from Cons.prems have "i = k \<or> i \<in> set (fst (run_add add s1 xs))"
    unfolding run_Cons [OF add] by simp
  then show ?case
  proof
    assume "i = k"
    then show ?thesis using fresh [OF add] by simp
  next
    assume "i \<in> set (fst (run_add add s1 xs))"
    then have "get s1 i = None" by (rule Cons.IH)
    then show ?thesis using get_kept [OF add] by (cases "get s i") auto
  qed
qed

lemma run_distinct: "distinct (fst (run_add add s xs))"
proof (induction xs arbitrary: s)
  case Nil
  then show ?case by simp
next
  case (Cons x xs)
  obtain k s1 where add: "add s x = (k, s1)" by (cases "add s x")
  have "get s1 k \<noteq> None" using get_added [OF add] by simp
  then have "k \<notin> set (fst (run_add add s1 xs))" using run_fresh [of k s1 xs] by auto
  with Cons [of s1] show ?case unfolding run_Cons [OF add] by simp
qed

end

definition source_add :: "source_map \<Rightarrow> string \<times> string \<Rightarrow> file_id \<times> source_map" where
  "source_add files = (\<lambda>(path, text). source_map_add files path text)"

definition source_entry :: "nat \<Rightarrow> string \<times> string \<Rightarrow> source_file" where
  "source_entry fid = (\<lambda>(path, text). \<lparr>file_id = fid, file_path = path, file_text = text\<rparr>)"

interpretation sm: append_store source_add source_map_get source_entry
  by unfold_locales
     (auto simp: source_add_def source_map_add_def source_map_get_def source_entry_def
        nth_append Let_def split: prod.splits if_splits)

section \<open>Positions\<close>

text \<open>
  The reference reading of an offset: the characters that start before it. Their newlines give
  the line, the characters after the last newline give the column.
\<close>

fun chars_before :: "string \<Rightarrow> nat \<Rightarrow> string" where
  "chars_before [] byte = []"
| "chars_before (ch # rest) byte =
     (if byte = 0 then [] else ch # chars_before rest (byte - len_utf8 ch))"

definition position_after :: "string \<Rightarrow> nat \<times> nat" where
  "position_after before =
     (Suc (length (filter (\<lambda>ch. ch = CHR 0x0A) before)),
      Suc (length (takeWhile (\<lambda>ch. ch \<noteq> CHR 0x0A) (rev before))))"

definition advance :: "nat \<times> nat \<Rightarrow> char \<Rightarrow> nat \<times> nat" where
  "advance pos ch = (if ch = CHR 0x0A then (fst pos + 1, 1) else (fst pos, snd pos + 1))"

lemma position_after_snoc: "position_after (before @ [ch]) = advance (position_after before) ch"
  by (simp add: position_after_def advance_def)

lemma position_after_fold: "position_after (pre @ before) = foldl advance (position_after pre) before"
  by (induction before rule: rev_induct)
     (simp_all add: position_after_snoc flip: append_assoc)

lemma position_after_Nil [simp]: "position_after [] = (1, 1)"
  by (simp add: position_after_def)

lemma line_col_loop_foldl:
  "line_col_loop src idx byte line col = foldl advance (line, col) (chars_before src (byte - idx))"
proof (induction src idx byte line col rule: line_col_loop.induct)
  case (2 ch rest idx byte line col)
  then show ?case by (simp add: advance_def)
qed simp

lemma line_col_loop_position:
  "line_col_loop src 0 byte 1 1 = position_after (chars_before src byte)"
  using position_after_fold [of "[]" "chars_before src byte"]
  by (simp add: line_col_loop_foldl)

lemma advance_less: "pos < advance pos ch"
  by (cases pos) (simp add: advance_def)

lemma foldl_advance_le: "pos \<le> foldl advance pos chs"
proof (induction chs arbitrary: pos)
  case (Cons ch chs)
  have "pos \<le> advance pos ch" using advance_less by (rule less_imp_le)
  also have "\<dots> \<le> foldl advance (advance pos ch) chs" by (rule Cons.IH)
  finally show ?case by simp
qed simp

lemma foldl_advance_less: "chs \<noteq> [] \<Longrightarrow> pos < foldl advance pos chs"
  by (cases chs) (auto intro: less_le_trans [OF advance_less foldl_advance_le])

lemma chars_before_mono: "b \<le> b' \<Longrightarrow> \<exists>more. chars_before src b' = chars_before src b @ more"
proof (induction src b arbitrary: b' rule: chars_before.induct)
  case (2 ch rest b)
  show ?case
  proof (cases "b = 0")
    case False
    then obtain more where
      more: "chars_before rest (b' - len_utf8 ch) = chars_before rest (b - len_utf8 ch) @ more"
      using "2.IH" [of "b' - len_utf8 ch"] diff_le_mono [OF "2.prems"] by blast
    from False "2.prems" have "b' \<noteq> 0" by simp
    with False more have "chars_before (ch # rest) b' = chars_before (ch # rest) b @ more" by simp
    then show ?thesis ..
  qed simp
qed simp

lemma position_after_mono:
  assumes "b \<le> b'"
  shows "position_after (chars_before src b) \<le> position_after (chars_before src b')"
proof -
  obtain more where "chars_before src b' = chars_before src b @ more"
    using chars_before_mono [OF assms] by blast
  then show ?thesis by (simp add: position_after_fold foldl_advance_le)
qed

lemma position_after_strict:
  assumes "b \<le> b'" and "chars_before src b \<noteq> chars_before src b'"
  shows "position_after (chars_before src b) < position_after (chars_before src b')"
proof -
  obtain more where more: "chars_before src b' = chars_before src b @ more"
    using chars_before_mono [OF assms(1)] by blast
  with assms(2) have "more \<noteq> []" by auto
  with more show ?thesis by (simp add: position_after_fold foldl_advance_less)
qed

section \<open>Properties\<close>

text \<open>
  C32: \<^const>\<open>line_col\<close> reports the position after the characters that start before the offset: the
  line counts their newlines, the column the characters since the last one, also for multi-byte
  characters and offsets inside or beyond the text.
\<close>

theorem line_col_position:
  "line_col files fid byte =
     map_option (\<lambda>file. position_after (chars_before (file_text file) byte)) (source_map_get files fid)"
  by (simp add: line_col_def line_col_loop_position [simplified] split: option.splits)

text \<open>
  file identifiers are stable: after adding any list of files to any source map, the
  identifiers handed out are distinct and each still names the file it was returned for.
\<close>

theorem source_map_stable:
  "distinct (fst (run_add source_add files entries)) \<and>
   list_all2 (\<lambda>fid entry. source_map_get (snd (run_add source_add files entries)) fid =
       Some (source_entry fid entry))
     (fst (run_add source_add files entries)) entries"
  using sm.run_distinct sm.run_lookup by blast

end
