(* ===== verification/Ciel_Ty.thy ===== *)
theory Ciel_Ty
  imports Ciel_Source
begin

text \<open>
  The type language of the checker: the \<open>Ty\<close> enum of \<open>src/types.rs\<close> with its constraint
  references and bounds, the type syntax of \<open>src/ast.rs\<close> it is read from, and the classifiers of
  single types.
\<close>

section \<open>Identifiers and type syntax\<close>

type_synonym def_id = nat
type_synonym local_id = nat
type_synonym closure_origin_id = nat

datatype view_mutability = ReadOnly | Writable

definition view_is_writable :: "view_mutability \<Rightarrow> bool" where
  "view_is_writable v = (case v of Writable \<Rightarrow> True | ReadOnly \<Rightarrow> False)"

definition view_is_read_only :: "view_mutability \<Rightarrow> bool" where
  "view_is_read_only v = (case v of ReadOnly \<Rightarrow> True | Writable \<Rightarrow> False)"

record ident =
  ident_name :: string
  ident_span :: span

datatype primitive_type =
    Prim_Bool | Prim_Char | Prim_I8 | Prim_I16 | Prim_I32 | Prim_I64
  | Prim_U8 | Prim_U16 | Prim_U32 | Prim_U64 | Prim_Usize | Prim_F32 | Prim_F64

datatype ast_type = AstType span type_kind
and type_kind =
    TK_Error
  | TK_Hole
  | TK_Never
  | TK_Void
  | TK_Primitive primitive_type
  | TK_Named "ident list" "ast_type list"
  | TK_Pointer bool view_mutability ast_type
  | TK_Array nat ast_type
  | TK_Slice view_mutability ast_type
  | TK_Function bool "string option" ast_type "ast_type list"
  | TK_Closure ast_type "ast_type list" "ast_constraint_expr option"
and ast_constraint_expr = AstConstraintExpr "ast_constraint_term list"
and ast_constraint_term = AstConstraintTerm bool bool "ident list" "ast_constraint_arg list"
and ast_constraint_arg =
    CA_Type ast_type
  | CA_Binding ident "ast_constraint_expr option" span

section \<open>Types\<close>

datatype closure_owner_id =
    Owner_Function def_id
  | Owner_GenericInstance def_id nat

record closure_instance_id =
  closure_owner :: closure_owner_id
  closure_origin :: closure_origin_id

datatype ty =
    Ty_Hole nat
  | Ty_Never
  | Ty_Void
  | Ty_Bool
  | Ty_Char
  | Ty_I8
  | Ty_I16
  | Ty_I32
  | Ty_I64
  | Ty_U8
  | Ty_U16
  | Ty_U32
  | Ty_U64
  | Ty_Usize
  | Ty_F32
  | Ty_F64
  | Ty_CSpelling def_id string string
  | Ty_Pointer bool view_mutability ty
  | Ty_Array nat ty
  | Ty_Slice view_mutability ty
  | Ty_Named "def_id option" string "ty list"
  | Ty_GeneratedFuture string ty bool bool bool "(string \<times> ty) list"
  | Ty_OpaqueState ty "(string \<times> ty) list"
  | Ty_Generic string
  | Ty_DynamicInterface def_id string "ty list"
  | Ty_OpaqueReturn opaque_return_key constraint_bounds
  | Ty_Function bool "string option" ty "ty list"
  | Ty_Closure ty "ty list" constraint_bounds
  | Ty_ClosureInstance closure_instance_id ty "ty list" "ty list"
  | Ty_Unknown
and constraint_ref =
    ConstraintRef (cref_def_id: def_id) (cref_name: string) (cref_args: "ty list")
and constraint_bounds =
    ConstraintBounds (positive: "constraint_ref list") (negative: "constraint_ref list")
and opaque_return_key =
    OpaqueReturnKey (key_def_id: def_id) (key_args: "ty list")

text \<open>\<open>HashMap<String, Ty>\<close>, the substitutions of generics.\<close>

type_synonym ty_subst = "string \<rightharpoonup> ty"

definition empty_bounds :: constraint_bounds where
  "empty_bounds = ConstraintBounds [] []"

definition bounds_is_empty :: "constraint_bounds \<Rightarrow> bool" where
  "bounds_is_empty b \<longleftrightarrow> positive b = [] \<and> negative b = []"

definition proves_all :: "constraint_bounds \<Rightarrow> constraint_bounds \<Rightarrow> bool" where
  "proves_all self required \<longleftrightarrow>
     list_all (\<lambda>capability. capability \<in> set (positive self)) (positive required) \<and>
     list_all (\<lambda>capability. capability \<in> set (negative self)) (negative required)"

definition named_ty :: "def_id option \<Rightarrow> string \<Rightarrow> ty list \<Rightarrow> ty" where
  "named_ty def_id name args = Ty_Named def_id name args"

fun named_ty_identity_eq :: "def_id option \<Rightarrow> string \<Rightarrow> def_id option \<Rightarrow> string \<Rightarrow> bool" where
  "named_ty_identity_eq (Some left) _ (Some right) _ = (left = right)"
| "named_ty_identity_eq None left_name None right_name = (left_name = right_name)"
| "named_ty_identity_eq _ _ _ _ = False"

fun ty_from_primitive :: "primitive_type \<Rightarrow> ty" where
  "ty_from_primitive Prim_Bool = Ty_Bool"
| "ty_from_primitive Prim_Char = Ty_Char"
| "ty_from_primitive Prim_I8 = Ty_I8"
| "ty_from_primitive Prim_I16 = Ty_I16"
| "ty_from_primitive Prim_I32 = Ty_I32"
| "ty_from_primitive Prim_I64 = Ty_I64"
| "ty_from_primitive Prim_U8 = Ty_U8"
| "ty_from_primitive Prim_U16 = Ty_U16"
| "ty_from_primitive Prim_U32 = Ty_U32"
| "ty_from_primitive Prim_U64 = Ty_U64"
| "ty_from_primitive Prim_Usize = Ty_Usize"
| "ty_from_primitive Prim_F32 = Ty_F32"
| "ty_from_primitive Prim_F64 = Ty_F64"

text \<open>
  \<open>Ty::from_ast\<close>. The primitive arms repeat \<open>ty_from_primitive\<close> in the source; an empty path
  has the default name, the empty string.
\<close>

fun ty_from_ast :: "ast_type \<Rightarrow> ty" and ty_from_kind :: "type_kind \<Rightarrow> ty" where
  "ty_from_ast (AstType sp kind) = ty_from_kind kind"
| "ty_from_kind TK_Error = Ty_Unknown"
| "ty_from_kind TK_Never = Ty_Never"
| "ty_from_kind TK_Hole = Ty_Unknown"
| "ty_from_kind TK_Void = Ty_Void"
| "ty_from_kind (TK_Primitive primitive) = ty_from_primitive primitive"
| "ty_from_kind (TK_Named path args) =
     named_ty None (if path = [] then [] else ident_name (last path)) (map ty_from_ast args)"
| "ty_from_kind (TK_Pointer nullable mutability inner) =
     Ty_Pointer nullable mutability (ty_from_ast inner)"
| "ty_from_kind (TK_Array len elem) = Ty_Array len (ty_from_ast elem)"
| "ty_from_kind (TK_Slice mutability elem) = Ty_Slice mutability (ty_from_ast elem)"
| "ty_from_kind (TK_Function is_unsafe abi ret params) =
     Ty_Function is_unsafe abi (ty_from_ast ret) (map ty_from_ast params)"
| "ty_from_kind (TK_Closure ret params _) =
     Ty_Closure (ty_from_ast ret) (map ty_from_ast params) empty_bounds"

section \<open>Classifiers\<close>

definition is_integer :: "ty \<Rightarrow> bool" where
  "is_integer t \<longleftrightarrow> t \<in> {Ty_I8, Ty_I16, Ty_I32, Ty_I64, Ty_U8, Ty_U16, Ty_U32, Ty_U64, Ty_Usize}"

definition is_signed_integer :: "ty \<Rightarrow> bool" where
  "is_signed_integer t \<longleftrightarrow> t \<in> {Ty_I8, Ty_I16, Ty_I32, Ty_I64}"

fun integer_bit_width :: "ty \<Rightarrow> nat option" where
  "integer_bit_width Ty_I8 = Some 8"
| "integer_bit_width Ty_U8 = Some 8"
| "integer_bit_width Ty_I16 = Some 16"
| "integer_bit_width Ty_U16 = Some 16"
| "integer_bit_width Ty_I32 = Some 32"
| "integer_bit_width Ty_U32 = Some 32"
| "integer_bit_width Ty_I64 = Some 64"
| "integer_bit_width Ty_U64 = Some 64"
| "integer_bit_width Ty_Usize = Some usize_bits"
| "integer_bit_width _ = None"

definition is_numeric :: "ty \<Rightarrow> bool" where
  "is_numeric t \<longleftrightarrow> is_integer t \<or> t \<in> {Ty_F32, Ty_F64}"

definition is_void :: "ty \<Rightarrow> bool" where
  "is_void t \<longleftrightarrow> t = Ty_Void"

fun is_erased_value :: "ty \<Rightarrow> bool" where
  "is_erased_value Ty_Void = True"
| "is_erased_value (Ty_Array _ elem) = is_erased_value elem"
| "is_erased_value (Ty_OpaqueState base _) = is_erased_value base"
| "is_erased_value _ = False"

definition is_never :: "ty \<Rightarrow> bool" where
  "is_never t \<longleftrightarrow> t = Ty_Never"

definition pointer_to :: "ty \<Rightarrow> ty" where
  "pointer_to inner = Ty_Pointer False Writable inner"

definition const_pointer_to :: "ty \<Rightarrow> ty" where
  "const_pointer_to inner = Ty_Pointer False ReadOnly inner"

definition nullable_pointer_to :: "ty \<Rightarrow> ty" where
  "nullable_pointer_to inner = Ty_Pointer True Writable inner"

definition nullable_const_pointer_to :: "ty \<Rightarrow> ty" where
  "nullable_const_pointer_to inner = Ty_Pointer True ReadOnly inner"

definition pointer_view_can_weaken :: "view_mutability \<Rightarrow> view_mutability \<Rightarrow> bool" where
  "pointer_view_can_weaken expected actual \<longleftrightarrow>
     expected = actual \<or> (expected = ReadOnly \<and> actual = Writable)"

fun callable_ret_params_ty :: "ty \<Rightarrow> (ty \<times> ty list) option" where
  "callable_ret_params_ty (Ty_Function _ _ ret params) = Some (ret, params)"
| "callable_ret_params_ty (Ty_Closure ret params _) = Some (ret, params)"
| "callable_ret_params_ty (Ty_ClosureInstance _ ret params _) = Some (ret, params)"
| "callable_ret_params_ty _ = None"

fun receiver_ty_from_value_ty :: "ty \<Rightarrow> ty" where
  "receiver_ty_from_value_ty (Ty_Pointer _ _ inner) = inner"
| "receiver_ty_from_value_ty other = other"

section \<open>Hidden state\<close>

text \<open>\<open>opaque_state_ty\<close>: an empty state is dropped and nested states are merged.\<close>

fun opaque_state_ty :: "ty \<Rightarrow> (string \<times> ty) list \<Rightarrow> ty" where
  "opaque_state_ty base [] = base"
| "opaque_state_ty (Ty_OpaqueState base existing) state = Ty_OpaqueState base (existing @ state)"
| "opaque_state_ty other state = Ty_OpaqueState other state"

fun ty_has_hidden_state :: "ty \<Rightarrow> bool" where
  "ty_has_hidden_state (Ty_GeneratedFuture _ _ _ _ _ state) = (state \<noteq> [])"
| "ty_has_hidden_state (Ty_OpaqueState _ state) = (state \<noteq> [])"
| "ty_has_hidden_state _ = False"

fun generated_future_output_ty :: "ty \<Rightarrow> ty option" where
  "generated_future_output_ty (Ty_OpaqueState base _) = generated_future_output_ty base"
| "generated_future_output_ty (Ty_GeneratedFuture _ output _ _ _ _) = Some output"
| "generated_future_output_ty _ = None"

definition generated_future_ty_with_state ::
  "string \<Rightarrow> ty \<Rightarrow> bool \<Rightarrow> bool \<Rightarrow> bool \<Rightarrow> (string \<times> ty) list \<Rightarrow> ty" where
  "generated_future_ty_with_state name output cancel_safe abortable affine_state state =
     Ty_GeneratedFuture name output cancel_safe abortable affine_state state"

definition generated_future_ty_with_affine_state ::
  "string \<Rightarrow> ty \<Rightarrow> bool \<Rightarrow> bool \<Rightarrow> bool \<Rightarrow> ty" where
  "generated_future_ty_with_affine_state name output cancel_safe abortable affine_state =
     generated_future_ty_with_state name output cancel_safe abortable affine_state []"

definition generated_future_ty :: "string \<Rightarrow> ty \<Rightarrow> bool \<Rightarrow> bool \<Rightarrow> ty" where
  "generated_future_ty name output cancel_safe abortable =
     generated_future_ty_with_affine_state name output cancel_safe abortable False"

definition OPAQUE_FUTURE_STATE_MARKER_NAME :: string where
  "OPAQUE_FUTURE_STATE_MARKER_NAME = ''<opaque future state>''"

definition opaque_future_state_marker_ty :: ty where
  "opaque_future_state_marker_ty = named_ty None OPAQUE_FUTURE_STATE_MARKER_NAME []"

fun is_opaque_future_state_marker_ty :: "ty \<Rightarrow> bool" where
  "is_opaque_future_state_marker_ty (Ty_Named _ name args) =
     (name = OPAQUE_FUTURE_STATE_MARKER_NAME \<and> args = [])"
| "is_opaque_future_state_marker_ty _ = False"

text \<open>\<open>if let Ty::OpaqueState { base, .. } = ty\<close> as a test and a projection.\<close>

fun is_opaque_state :: "ty \<Rightarrow> bool" where
  "is_opaque_state (Ty_OpaqueState _ _) = True"
| "is_opaque_state _ = False"

fun opaque_base :: "ty \<Rightarrow> ty" where
  "opaque_base (Ty_OpaqueState base _) = base"
| "opaque_base t = t"

lemma size_opaque_base [termination_simp]: "is_opaque_state t \<Longrightarrow> size (opaque_base t) < size t"
  by (cases t) auto

end
