(* ===== verification/Ciel_Ast.thy ===== *)
theory Ciel_Ast
  imports Ciel_Ty
begin

text \<open>
  The syntax tree of a source file (\<open>src/ast.rs\<close>): operators, literals and patterns, statements and
  expressions, and the items of a file. Types and constraints are in \<open>Ciel_Ty\<close>. A struct that takes
  part in the recursion of statements and expressions is a datatype with one constructor; the ones
  that only wrap statements or expressions take their type as a parameter.
\<close>

section \<open>Operators, literals and patterns\<close>

datatype binding_mutability = Immutable | Mutable

definition binding_is_mutable :: "binding_mutability \<Rightarrow> bool" where
  "binding_is_mutable m = (case m of Mutable \<Rightarrow> True | Immutable \<Rightarrow> False)"

datatype literal =
    Lit_Integer string
  | Lit_Float string
  | Lit_Char string
  | Lit_String string
  | Lit_Bool bool
  | Lit_Null

datatype unary_op = Op_Not | Op_Neg | Op_BitNot | Op_Addr | Op_Deref

datatype binary_op =
    Op_Or | Op_And | Op_Eq | Op_Ne | Op_Lt | Op_Le | Op_Gt | Op_Ge | Op_BitOr | Op_BitXor | Op_BitAnd
  | Op_Shl | Op_Shr | Op_Add | Op_Sub | Op_Mul | Op_Div | Op_Rem

definition is_equality :: "binary_op \<Rightarrow> bool" where
  "is_equality op \<longleftrightarrow> op \<in> {Op_Eq, Op_Ne}"

definition is_bitwise :: "binary_op \<Rightarrow> bool" where
  "is_bitwise op \<longleftrightarrow> op \<in> {Op_BitOr, Op_BitXor, Op_BitAnd}"

definition is_shift :: "binary_op \<Rightarrow> bool" where
  "is_shift op \<longleftrightarrow> op \<in> {Op_Shl, Op_Shr}"

datatype pattern =
    Pat_Variant "ident list" "pattern list"
  | Pat_Binding ident binding_mutability
  | Pat_Wildcard span
  | Pat_Error span

record closure_param =
  clp_ty :: "ast_type option"
  clp_name :: ident
  clp_mutability :: binding_mutability

section \<open>Statements and expressions\<close>

datatype (plugins only: size) 's block_of = Block (block_span: span) (block_statements: "'s list")

datatype (plugins only: size) ('s, 'e) expr_block_of =
  ExprBlock (eb_span: span) (eb_statements: "'s list") (eb_value: "'e option")

datatype (plugins only: size) 'e for_init_of =
    FI_VarDecl ast_type ident binding_mutability "'e option"
  | FI_Assign 'e 'e
  | FI_Expr 'e

datatype (plugins only: size) 's case_clause_of =
  CaseClause (cc_pattern: pattern) (cc_statements: "'s list")

datatype (plugins only: size) 'e select_arm_of =
  SelectArm (sa_binding: ident) (sa_future: 'e) (sa_body: 'e)

datatype (plugins only: size) 'e field_init_of = FieldInit (fi_name: ident) (fi_expr: 'e)

datatype (plugins only: size) ('s, 'e) closure_body_of =
    CB_Expr 'e
  | CB_Block "'s block_of"

datatype (plugins only: size) stmt = Stmt (stmt_span: span) (stmt_kind: stmt_kind)
and stmt_kind =
    SK_Block "stmt block_of"
  | SK_Error
  | SK_VarDecl ast_type ident binding_mutability "expr option"
  | SK_Assign expr expr
  | SK_If expr "stmt block_of" "stmt option"
  | SK_While expr "stmt block_of"
  | SK_For "expr for_init_of option" "expr option" "expr for_init_of option" "stmt block_of"
  | SK_Switch expr "stmt case_clause_of list" bool "stmt list"
  | SK_Defer expr
  | SK_Return "expr option"
  | SK_Break
  | SK_Continue
  | SK_Expr expr
and expr = Expr (expr_span: span) (expr_kind: expr_kind)
and expr_kind =
    EK_Error
  | EK_Name "ident list"
  | EK_Literal literal
  | EK_StructLiteral "expr field_init_of list"
  | EK_ArrayLiteral "expr list"
  | EK_ArrayRepeat expr "nat option"
  | EK_Closure bool "closure_param list" "(stmt, expr) closure_body_of"
  | EK_Unary unary_op expr
  | EK_Binary binary_op expr expr
  | EK_Cast expr ast_type
  | EK_UnsafeBlock "(stmt, expr) expr_block_of"
  | EK_Call expr "ast_type list" "expr list"
  | EK_GenericValue expr "ast_type list"
  | EK_Field expr ident
  | EK_ReceiverSelector expr "ident list"
  | EK_Arrow expr ident
  | EK_Index expr expr
  | EK_Slice expr "expr option" "expr option"
  | EK_Try expr
  | EK_Await expr
  | EK_Select bool "expr select_arm_of list"

type_synonym block = "stmt block_of"
type_synonym expr_block = "(stmt, expr) expr_block_of"
type_synonym for_init = "expr for_init_of"
type_synonym case_clause = "stmt case_clause_of"
type_synonym select_arm = "expr select_arm_of"
type_synonym field_init = "expr field_init_of"
type_synonym closure_body = "(stmt, expr) closure_body_of"

section \<open>Items\<close>

record module_path =
  mp_absolute :: bool
  mp_raw :: string

record import_decl =
  imp_path :: module_path
  imp_alias :: "ident option"

record generic_param =
  gp_is_resource :: bool
  gp_name :: ident
  gp_constraint :: "ast_constraint_expr option"

record param =
  param_ty :: ast_type
  param_name :: ident
  param_mutability :: binding_mutability

datatype type_alias_target =
    TAT_Type ast_type
  | TAT_CSpelling string string

record type_alias_decl =
  tad_name :: ident
  tad_generics :: "generic_param list"
  tad_target :: type_alias_target

record field_decl =
  fd_ty :: ast_type
  fd_name :: ident

record struct_decl =
  sd_is_resource :: bool
  sd_is_unsafe :: bool
  sd_name :: ident
  sd_generics :: "generic_param list"
  sd_fields :: "field_decl list"

record variant_decl =
  vd_name :: ident
  vd_payload :: "ast_type list"

record enum_decl =
  ed_name :: ident
  ed_generics :: "generic_param list"
  ed_variants :: "variant_decl list"

record receiver_selector =
  rsel_receiver_param :: "ident option"
  rsel_name :: ident
  rsel_span :: span

datatype function_return_type =
    FRT_Type ast_type
  | FRT_OpaqueConstraint span ast_constraint_expr

record function_signature =
  fsig_ret :: function_return_type
  fsig_name :: ident
  fsig_generics :: "generic_param list"
  fsig_params :: "param list"
  fsig_receiver_selector :: "receiver_selector option"

text \<open>\<open>terms.last().and_then(|term| term.name.last()).map(..).unwrap_or(..)\<close>.\<close>

fun last_opt :: "'a list \<Rightarrow> 'a option" where
  "last_opt [] = None"
| "last_opt (x # xs) = Some (last (x # xs))"

fun ast_type_span :: "ast_type \<Rightarrow> span" where
  "ast_type_span (AstType sp _) = sp"

fun constraint_term_name :: "ast_constraint_term \<Rightarrow> ident list" where
  "constraint_term_name (AstConstraintTerm _ _ name _) = name"

fun function_return_span :: "function_return_type \<Rightarrow> span" where
  "function_return_span (FRT_Type t) = ast_type_span t"
| "function_return_span (FRT_OpaqueConstraint marker_span (AstConstraintExpr terms)) =
     (case Option.bind (last_opt terms) (last_opt \<circ> constraint_term_name) of
        Some name \<Rightarrow> span_merge marker_span (ident_span name)
      | None \<Rightarrow> marker_span)"

record interface_decl =
  idl_is_unsafe :: bool
  idl_generics :: "generic_param list"
  idl_determined_start :: "nat option"
  idl_signature :: function_signature

datatype interface_op = IO_Add | IO_Sub

record interface_term =
  it_negated :: bool
  it_name :: "ident list"
  it_args :: "ast_type list"

record interface_expr =
  ie_first :: interface_term
  ie_rest :: "(interface_op \<times> interface_term) list"

record interface_alias_decl =
  iad_name :: ident
  iad_generics :: "generic_param list"
  iad_expr :: interface_expr

record impl_decl =
  impl_is_unsafe :: bool
  impl_generics :: "generic_param list"
  impl_name :: "ident list"
  impl_args :: "ast_type list"
  impl_params :: "param list"
  impl_body :: block

record derivable_impl_decl =
  did_requires_unsafe :: bool
  did_impl_decl :: impl_decl

record derive_decl =
  drv_is_unsafe :: bool
  drv_generics :: "generic_param list"
  drv_name :: "ident list"
  drv_args :: "ast_type list"

record function_decl =
  fdl_is_unsafe :: bool
  fdl_is_async :: bool
  fdl_abi :: "string option"
  fdl_signature :: function_signature
  fdl_body :: "block option"

datatype extern_item =
    EI_OpaqueStruct ident
  | EI_Function bool function_signature
  | EI_TypeAlias type_alias_decl

record extern_block =
  eb_is_unsafe :: bool
  eb_abi :: string
  eb_items :: "extern_item list"

datatype item_kind =
    IK_Import import_decl
  | IK_CInclude string
  | IK_TypeAlias type_alias_decl
  | IK_Struct struct_decl
  | IK_Enum enum_decl
  | IK_Interface interface_decl
  | IK_InterfaceAlias interface_alias_decl
  | IK_Impl impl_decl
  | IK_DerivableImpl derivable_impl_decl
  | IK_Derive derive_decl
  | IK_Function function_decl
  | IK_ExternBlock extern_block
  | IK_Error

record item =
  item_export :: bool
  item_span :: span
  item_kind :: item_kind

record ast_file =
  af_items :: "item list"

end
