(* ===== verification/Ciel_Dfs.thy ===== *)
theory Ciel_Dfs
  imports Main
begin

text \<open>
  Depth-first traversal of a finite graph with a shared set of visited nodes, the scheme of the export
  traversals of name resolution. What a node does is a list of events: it emits a value or descends
  into another node. Nodes are indices below \<open>n\<close>; an index out of range, or a node whose events cannot
  be computed, makes the traversal fail.
\<close>

datatype 'a event = Emit 'a | Descend nat

definition event_order :: "((nat \<times> (nat \<Rightarrow> 'a event list option) \<times> 'a event list \<times> nat set \<times> 'a list) \<times>
    (nat \<times> (nat \<Rightarrow> 'a event list option) \<times> 'a event list \<times> nat set \<times> 'a list)) set" where
  "event_order = measures [\<lambda>(n, ev, es, visited, out). card ({..<n} - visited),
     \<lambda>(n, ev, es, visited, out). length es]"

lemma event_order_grow:
  assumes "m \<notin> visited" and "m < n" and "insert m visited \<subseteq> visited'"
  shows "((n, ev, es, visited', out'), (n, ev, es', visited, out)) \<in> event_order"
proof -
  have "{..<n} - visited' \<subset> {..<n} - visited" using assms by auto
  then have "card ({..<n} - visited') < card ({..<n} - visited)" by (intro psubset_card_mono) auto
  then show ?thesis by (simp add: event_order_def)
qed

function run_events ::
    "nat \<Rightarrow> (nat \<Rightarrow> 'a event list option) \<Rightarrow> 'a event list \<Rightarrow> nat set \<Rightarrow> 'a list \<Rightarrow> (nat set \<times> 'a list) option"
  where
  "run_events n ev [] visited out = Some (visited, out)"
| "run_events n ev (Emit x # es) visited out = run_events n ev es visited (out @ [x])"
| "run_events n ev (Descend m # es) visited out =
     (if m \<in> visited then run_events n ev es visited out
      else if n \<le> m then None
      else case ev m of
          None \<Rightarrow> None
        | Some body \<Rightarrow>
            (case run_events n ev body (insert m visited) out of
               None \<Rightarrow> None
             | Some (visited', out') \<Rightarrow> run_events n ev es visited' out'))"
  by pat_completeness auto

termination
proof (relation event_order)
  show "wf event_order" by (simp add: event_order_def)
next
  fix n and ev :: "nat \<Rightarrow> 'a event list option" and m es visited out body p visited' out'
  assume "m \<notin> visited" and "\<not> n \<le> m" and "ev m = Some body"
    and run: "run_events n ev body (insert m visited) out = Some p" "(visited', out') = p"
    and dom: "run_events_dom (n, ev, body, insert m visited, out)"
  have grows: "run_events_dom (n, ev, es, visited, out) \<Longrightarrow>
      run_events n ev es visited out = Some (visited', out') \<Longrightarrow> visited \<subseteq> visited'"
    for n and ev :: "nat \<Rightarrow> 'a event list option" and es visited out visited' out'
  proof (induction n ev es visited out arbitrary: visited' out' rule: run_events.pinduct)
    case (3 n ev m es visited out)
    show ?case
    proof (cases "m \<in> visited")
      case True
      then show ?thesis using 3(2) [OF True] 3(1,5) by (simp add: run_events.psimps)
    next
      case False
      then obtain body v1 o1 where m: "\<not> n \<le> m" and body: "ev m = Some body"
        and run1: "run_events n ev body (insert m visited) out = Some (v1, o1)"
        and run2: "run_events n ev es v1 o1 = Some (visited', out')"
        using 3(1,5) by (auto simp: run_events.psimps split: if_splits option.splits)
      show ?thesis
        using 3(3) [OF False m body run1] 3(4) [OF False m body run1 refl run2] by auto
    qed
  qed (simp_all add: run_events.psimps)
  have "insert m visited \<subseteq> visited'" by (rule grows [OF dom, of visited' out']) (simp add: run)
  then show "((n, ev, es, visited', out'), (n, ev, Descend m # es, visited, out)) \<in> event_order"
    using \<open>m \<notin> visited\<close> \<open>\<not> n \<le> m\<close> by (simp add: event_order_grow)
qed (simp_all add: event_order_grow, simp_all add: event_order_def)

lemma run_events_grows:
  "run_events n ev es visited out = Some (visited', out') \<Longrightarrow> visited \<subseteq> visited'"
proof (induction n ev es visited out arbitrary: visited' out' rule: run_events.induct)
  case (3 n ev m es visited out)
  show ?case
  proof (cases "m \<in> visited")
    case True
    then show ?thesis using 3(1) [OF True] 3(4) by simp
  next
    case False
    then obtain body v1 o1 where m: "\<not> n \<le> m" and body: "ev m = Some body"
      and run1: "run_events n ev body (insert m visited) out = Some (v1, o1)"
      and run2: "run_events n ev es v1 o1 = Some (visited', out')"
      using 3(4) by (auto split: if_splits option.splits)
    show ?thesis
      using 3(2) [OF False m body run1] 3(3) [OF False m body run1 refl run2] by auto
  qed
qed simp_all

section \<open>What is visited and emitted\<close>

definition event_edges :: "(nat \<Rightarrow> 'a event list option) \<Rightarrow> (nat \<times> nat) set" where
  "event_edges ev = {(m, k). \<exists>body. ev m = Some body \<and> Descend k \<in> set body}"

definition emitted :: "(nat \<Rightarrow> 'a event list option) \<Rightarrow> nat set \<Rightarrow> 'a set" where
  "emitted ev N = {x. \<exists>m \<in> N. \<exists>body. ev m = Some body \<and> Emit x \<in> set body}"

definition starts :: "'a event list \<Rightarrow> nat set" where
  "starts es = {m. Descend m \<in> set es}"

definition emits :: "'a event list \<Rightarrow> 'a set" where
  "emits es = {x. Emit x \<in> set es}"

lemma starts_emits_simps [simp]:
  "starts [] = {}" "starts (Emit x # es) = starts es" "starts (Descend m # es) = insert m (starts es)"
  "emits [] = {}" "emits (Emit x # es) = insert x (emits es)" "emits (Descend m # es) = emits es"
  by (auto simp: starts_def emits_def)

text \<open>
  A run visits the starting nodes, is closed under descending from the newly visited nodes, visits
  nothing unreachable, and emits what the new nodes and the list itself emit.
\<close>

definition visits :: "(nat \<Rightarrow> 'a event list option) \<Rightarrow> 'a event list \<Rightarrow> nat set \<Rightarrow> 'a list \<Rightarrow> nat set \<Rightarrow> 'a list \<Rightarrow> bool" where
  "visits ev es visited out visited' out' \<longleftrightarrow>
    starts es \<subseteq> visited' \<and> event_edges ev `` (visited' - visited) \<subseteq> visited' \<and>
    visited' \<subseteq> visited \<union> (event_edges ev)\<^sup>* `` starts es \<and>
    set out' = set out \<union> emits es \<union> emitted ev (visited' - visited)"

lemma edges_of_node: "ev m = Some body \<Longrightarrow> event_edges ev `` {m} = starts body"
  by (auto simp: event_edges_def starts_def)

lemma emitted_of_node: "ev m = Some body \<Longrightarrow> emitted ev {m} = emits body"
  by (auto simp: emitted_def emits_def)

lemma emitted_Un: "emitted ev (A \<union> B) = emitted ev A \<union> emitted ev B"
  by (auto simp: emitted_def)

lemma reach_of_node:
  assumes "ev m = Some body"
  shows "(event_edges ev)\<^sup>* `` starts body \<subseteq> (event_edges ev)\<^sup>* `` {m}"
proof
  fix k assume "k \<in> (event_edges ev)\<^sup>* `` starts body"
  then obtain j where "j \<in> event_edges ev `` {m}" "(j, k) \<in> (event_edges ev)\<^sup>*"
    using edges_of_node [of ev m, OF assms] by blast
  then show "k \<in> (event_edges ev)\<^sup>* `` {m}" by (blast intro: converse_rtrancl_into_rtrancl)
qed

lemma visits_nil: "visits ev [] visited out visited out"
  by (simp add: visits_def emitted_def)

lemma visits_emit:
  "visits ev es visited (out @ [x]) visited' out' \<Longrightarrow> visits ev (Emit x # es) visited out visited' out'"
  by (simp add: visits_def)

lemma visits_skip:
  assumes "visits ev es visited out visited' out'" and "m \<in> visited" and "visited \<subseteq> visited'"
  shows "visits ev (Descend m # es) visited out visited' out'"
proof -
  have "(event_edges ev)\<^sup>* `` starts es \<subseteq> (event_edges ev)\<^sup>* `` insert m (starts es)" by blast
  then show ?thesis using assms unfolding visits_def starts_emits_simps by blast
qed

lemma visits_descend:
  assumes new: "m \<notin> visited" and body: "ev m = Some body"
    and a: "visits ev body (insert m visited) out v1 o1" and b: "visits ev es v1 o1 visited' out'"
    and g1: "insert m visited \<subseteq> v1" and g2: "v1 \<subseteq> visited'"
  shows "visits ev (Descend m # es) visited out visited' out'"
proof -
  note a = a [unfolded visits_def] and b = b [unfolded visits_def]
  have parts: "visited' - visited = (visited' - v1) \<union> (v1 - insert m visited) \<union> {m}"
    using g1 g2 new by blast
  have "insert m (starts es) \<subseteq> visited'" using conjunct1 [OF b] g1 g2 by (simp add: subset_iff)
  moreover have "event_edges ev `` (visited' - visited) \<subseteq> visited'"
  proof -
    have "event_edges ev `` (visited' - v1) \<subseteq> visited'" "event_edges ev `` (v1 - insert m visited) \<subseteq> visited'"
      "starts body \<subseteq> visited'"
      using b order_trans [OF a [THEN conjunct1] g2] order_trans [OF a [THEN conjunct2, THEN conjunct1] g2] by simp_all
    then show ?thesis by (simp only: parts Image_Un edges_of_node [of ev m, OF body] Un_subset_iff simp_thms)
  qed
  moreover have "visited' \<subseteq> visited \<union> (event_edges ev)\<^sup>* `` insert m (starts es)"
  proof
    fix k assume "k \<in> visited'"
    then consider "k \<in> (event_edges ev)\<^sup>* `` starts es" | "k \<in> v1"
      using b [THEN conjunct2, THEN conjunct2, THEN conjunct1] by (auto simp only: subset_iff Un_iff)
    then show "k \<in> visited \<union> (event_edges ev)\<^sup>* `` insert m (starts es)"
    proof cases
      case 1
      then show ?thesis by (auto simp only: Image_iff Un_iff insert_iff)
    next
      case 2
      then have "k \<in> visited \<or> k = m \<or> k \<in> (event_edges ev)\<^sup>* `` starts body"
        using a [THEN conjunct2, THEN conjunct2, THEN conjunct1] by (auto simp only: subset_iff Un_iff insert_iff)
      then have "k \<in> visited \<or> k \<in> (event_edges ev)\<^sup>* `` {m}"
        using subsetD [OF reach_of_node [of ev m, OF body]] by (auto simp only: Image_singleton_iff rtrancl.rtrancl_refl)
      then show ?thesis by (auto simp only: Image_iff Un_iff insert_iff singleton_iff)
    qed
  qed
  moreover have "set out' = set out \<union> emits es \<union> emitted ev (visited' - visited)"
  proof -
    have o1: "set o1 = set out \<union> emits body \<union> emitted ev (v1 - insert m visited)" using a by (elim conjE)
    have o2: "set out' = set o1 \<union> emits es \<union> emitted ev (visited' - v1)" using b by (elim conjE)
    show ?thesis by (simp only: o2 o1 parts emitted_Un emitted_of_node [of ev m, OF body] Un_ac)
  qed
  ultimately show ?thesis by (simp only: visits_def starts_emits_simps simp_thms)
qed

lemma run_events_visits:
  "run_events n ev es visited out = Some (visited', out') \<Longrightarrow> visits ev es visited out visited' out'"
proof (induction n ev es visited out arbitrary: visited' out' rule: run_events.induct)
  case (1 n ev visited out)
  then show ?case by (simp add: visits_nil)
next
  case (2 n ev x es visited out)
  then show ?case by (simp add: visits_emit)
next
  case (3 n ev m es visited out)
  show ?case
  proof (cases "m \<in> visited")
    case True
    then have run: "run_events n ev es visited out = Some (visited', out')" using 3(4) by simp
    show ?thesis by (rule visits_skip [OF 3(1) [OF True run] True run_events_grows [OF run]])
  next
    case False
    then obtain body v1 o1 where m: "\<not> n \<le> m" and body: "ev m = Some body"
      and run1: "run_events n ev body (insert m visited) out = Some (v1, o1)"
      and run2: "run_events n ev es v1 o1 = Some (visited', out')"
      using 3(4) by (auto split: if_splits option.splits)
    show ?thesis
      by (rule visits_descend [OF False body 3(2) [OF False m body run1]
            3(3) [OF False m body run1 refl run2] run_events_grows [OF run1] run_events_grows [OF run2]])
  qed
qed

theorem run_events_reachable:
  assumes "run_events n ev es {} out = Some (visited', out')"
  shows "visited' = (event_edges ev)\<^sup>* `` starts es"
    and "set out' = set out \<union> emits es \<union> emitted ev ((event_edges ev)\<^sup>* `` starts es)"
proof -
  note v = run_events_visits [OF assms, unfolded visits_def]
  have "(event_edges ev)\<^sup>* `` starts es \<subseteq> (event_edges ev)\<^sup>* `` visited'"
    by (rule Image_mono [OF subset_refl v [THEN conjunct1]])
  also have "\<dots> = visited'"
    by (rule Image_closed_trancl) (use v in simp)
  finally have "(event_edges ev)\<^sup>* `` starts es \<subseteq> visited'" .
  moreover have "visited' \<subseteq> (event_edges ev)\<^sup>* `` starts es" using v by simp
  ultimately show r: "visited' = (event_edges ev)\<^sup>* `` starts es" by (rule equalityI [rotated])
  show "set out' = set out \<union> emits es \<union> emitted ev ((event_edges ev)\<^sup>* `` starts es)"
    using v unfolding r by simp
qed

text \<open>A traversal of a well-formed graph does not fail.\<close>

lemma run_events_returns:
  assumes "\<And>m. m < n \<Longrightarrow> \<exists>body. ev m = Some body \<and> starts body \<subseteq> {..<n}" and "starts es \<subseteq> {..<n}"
  shows "\<exists>r. run_events n ev es visited out = Some r"
  using assms
proof (induction n ev es visited out rule: run_events.induct)
  case (3 n ev m es visited out)
  show ?case
  proof (cases "m \<in> visited")
    case True
    have "starts es \<subseteq> {..<n}" using 3(5) by simp
    then show ?thesis using 3(1) [OF True 3(4)] True by simp
  next
    case False
    have m: "\<not> n \<le> m" using 3(5) by auto
    then obtain body where body: "ev m = Some body" "starts body \<subseteq> {..<n}" using 3(4) [of m] by auto
    obtain v1 o1 where run: "run_events n ev body (insert m visited) out = Some (v1, o1)"
      using 3(2) [OF False m body(1) 3(4) body(2)] by force
    have "starts es \<subseteq> {..<n}" using 3(5) by simp
    then obtain r where "run_events n ev es v1 o1 = Some r"
      using 3(3) [OF False m body(1) run refl 3(4)] by blast
    then show ?thesis using False m body(1) run by simp
  qed
qed auto

lemma run_events_append:
  "run_events n ev (es @ fs) visited out =
     (case run_events n ev es visited out of
        None \<Rightarrow> None
      | Some (visited', out') \<Rightarrow> run_events n ev fs visited' out')"
proof (induction n ev es visited out rule: run_events.induct)
  case (3 n ev m es visited out)
  show ?case
  proof (cases "m \<in> visited")
    case True
    then show ?thesis using 3(1) by simp
  next
    case False
    then show ?thesis using 3(3) [OF False] by (auto split: option.split)
  qed
qed simp_all

end
