(* ===== verification/Ciel_Resolve.thy ===== *)
theory Ciel_Resolve
  imports Ciel_Ast Ciel_Dfs
begin

text \<open>
  Name resolution (\<open>src/resolve.rs\<close>): the table of definitions built from the parsed modules, and the
  lookups of bare, qualified and variant names through imports and re-exports. An index out of range
  panics in the source; here the lookup is \<^const>\<open>None\<close>. A recursive method that walks exported imports
  with a set of visited modules is a run of \<^const>\<open>run_events\<close>: the events of a module are what one
  activation of the method pushes and the modules it recurses into, in this order.
\<close>

section \<open>Data\<close>

type_synonym module_id = nat

text \<open>
  A \<open>PathBuf\<close> is its text. Two paths are equal when their components are: repeated separators and
  \<open>.\<close> components (but a leading one) do not count.
\<close>

type_synonym path_buf = string

fun split_on :: "char \<Rightarrow> string \<Rightarrow> string list" where
  "split_on sep [] = [[]]"
| "split_on sep (c # cs) =
     (if c = sep then [] # split_on sep cs
      else case split_on sep cs of [] \<Rightarrow> [[c]] | part # parts \<Rightarrow> (c # part) # parts)"

definition path_components :: "path_buf \<Rightarrow> string list" where
  "path_components path =
     (let parts = split_on (CHR ''/'') path
      in (if take 1 path = ''/'' then [''/''] else if hd parts = ''.'' then [''.''] else []) @
         filter (\<lambda>part. part \<noteq> [] \<and> part \<noteq> ''.'') parts)"

record parsed_module =
  pm_id :: module_id
  pm_path :: path_buf
  pm_std_export :: "string option"
  pm_import_paths :: "path_buf list"
  pm_ast :: ast_file

record resolved_import =
  ri_path :: string
  ri_resolved_path :: path_buf
  ri_alias :: "string option"
  ri_exported :: bool
  ri_target :: "module_id option"

record resolved_module =
  rm_id :: module_id
  rm_path :: path_buf
  rm_std_export :: "string option"
  rm_ast :: ast_file
  rm_defs :: "def_id list"
  rm_imports :: "resolved_import list"

datatype def_kind =
    DK_TypeAlias | DK_Struct | DK_Enum | DK_EnumVariant | DK_Interface | DK_InterfaceAlias | DK_Function
  | DK_ExternFunction | DK_OpaqueStruct

record definition_record =
  df_id :: def_id
  df_module :: module_id
  df_name :: string
  df_kind :: def_kind
  df_parent :: "def_id option"
  df_exported :: bool
  df_span :: span

record impl_record =
  ir_module :: module_id
  ir_interface_name :: string
  ir_span :: span

record resolved_program =
  rp_modules :: "resolved_module list"
  rp_defs :: "definition_record list"
  rp_impls :: "impl_record list"

datatype lookup_error =
    LE_Ambiguous string "def_id list"
  | LE_UnknownAlias string
  | LE_NotExported string
  | LE_UnresolvedImport string
  | LE_TooManySegments nat

section \<open>Definitions and items\<close>

text \<open>\<open>xs[i]\<close>, with the panic of an index out of range, and \<open>xs.get(i)\<close>.\<close>

definition index :: "'a list \<Rightarrow> nat \<Rightarrow> 'a option" where
  "index xs i = (if i < length xs then Some (xs ! i) else None)"

definition program_def :: "resolved_program \<Rightarrow> def_id \<Rightarrow> definition_record option" where
  "program_def p i = index (rp_defs p) i"

definition program_module :: "resolved_program \<Rightarrow> module_id \<Rightarrow> resolved_module option" where
  "program_module p m = index (rp_modules p) m"

definition kind_matches :: "def_kind \<Rightarrow> def_kind list \<Rightarrow> bool" where
  "kind_matches kind kinds = list_ex (\<lambda>candidate. candidate = kind) kinds"

definition all_def_kinds :: "def_kind list" where
  "all_def_kinds = [DK_TypeAlias, DK_Struct, DK_Enum, DK_EnumVariant, DK_Interface, DK_InterfaceAlias,
     DK_Function, DK_ExternFunction, DK_OpaqueStruct]"

fun extern_item_name :: "extern_item \<Rightarrow> string" where
  "extern_item_name (EI_OpaqueStruct name) = ident_name name"
| "extern_item_name (EI_Function _ signature) = ident_name (fsig_name signature)"
| "extern_item_name (EI_TypeAlias decl) = ident_name (tad_name decl)"

fun kind_declared_names :: "item_kind \<Rightarrow> string list" where
  "kind_declared_names (IK_TypeAlias decl) = [ident_name (tad_name decl)]"
| "kind_declared_names (IK_Struct decl) = [ident_name (sd_name decl)]"
| "kind_declared_names (IK_Enum decl) = [ident_name (ed_name decl)]"
| "kind_declared_names (IK_Interface decl) = [ident_name (fsig_name (idl_signature decl))]"
| "kind_declared_names (IK_InterfaceAlias decl) = [ident_name (iad_name decl)]"
| "kind_declared_names (IK_Function decl) = [ident_name (fsig_name (fdl_signature decl))]"
| "kind_declared_names (IK_ExternBlock eblock) = map extern_item_name (eb_items eblock)"
| "kind_declared_names _ = []"

definition item_declared_names :: "item \<Rightarrow> string list" where
  "item_declared_names it = kind_declared_names (item_kind it)"

fun item_kind_defines :: "string \<Rightarrow> item_kind \<Rightarrow> bool" where
  "item_kind_defines name (IK_TypeAlias decl) = (ident_name (tad_name decl) = name)"
| "item_kind_defines name (IK_Struct decl) = (ident_name (sd_name decl) = name)"
| "item_kind_defines name (IK_Enum decl) = (ident_name (ed_name decl) = name)"
| "item_kind_defines name (IK_Interface decl) = (ident_name (fsig_name (idl_signature decl)) = name)"
| "item_kind_defines name (IK_InterfaceAlias decl) = (ident_name (iad_name decl) = name)"
| "item_kind_defines name (IK_Function decl) = (ident_name (fsig_name (fdl_signature decl)) = name)"
| "item_kind_defines name (IK_ExternBlock eblock) =
     list_ex (\<lambda>it. case it of
         EI_OpaqueStruct n \<Rightarrow> ident_name n = name
       | EI_Function _ signature \<Rightarrow> ident_name (fsig_name signature) = name
       | EI_TypeAlias decl \<Rightarrow> ident_name (tad_name decl) = name) (eb_items eblock)"
| "item_kind_defines name _ = False"

definition item_for_def :: "resolved_program \<Rightarrow> def_id \<Rightarrow> item option option" where
  "item_for_def p i =
     do { d \<leftarrow> program_def p i;
          m \<leftarrow> program_module p (df_module d);
          Some (find (\<lambda>it. item_kind_defines (df_name d) (item_kind it)) (af_items (rm_ast m))) }"

text \<open>\<open>find\<close> and \<open>filter\<close> over identifiers of definitions, which look each definition up.\<close>

fun find_def :: "resolved_program \<Rightarrow> (definition_record \<Rightarrow> bool) \<Rightarrow> def_id list \<Rightarrow> def_id option option" where
  "find_def p P [] = Some None"
| "find_def p P (i # is) =
     (case program_def p i of
        None \<Rightarrow> None
      | Some d \<Rightarrow> if P d then Some (Some i) else find_def p P is)"

fun filter_defs :: "resolved_program \<Rightarrow> (definition_record \<Rightarrow> bool) \<Rightarrow> def_id list \<Rightarrow> def_id list option" where
  "filter_defs p P [] = Some []"
| "filter_defs p P (i # is) =
     (case program_def p i of
        None \<Rightarrow> None
      | Some d \<Rightarrow> map_option (\<lambda>rest. if P d then i # rest else rest) (filter_defs p P is))"

definition local_def :: "resolved_program \<Rightarrow> module_id \<Rightarrow> string \<Rightarrow> def_kind list \<Rightarrow> def_id option option" where
  "local_def p m name kinds =
     do { md \<leftarrow> program_module p m;
          find_def p (\<lambda>d. df_name d = name \<and> kind_matches (df_kind d) kinds) (rm_defs md) }"

definition local_enum_variant_def ::
    "resolved_program \<Rightarrow> module_id \<Rightarrow> def_id \<Rightarrow> string \<Rightarrow> def_id option option" where
  "local_enum_variant_def p m enum_def name =
     do { md \<leftarrow> program_module p m;
          find_def p (\<lambda>d. df_kind d = DK_EnumVariant \<and> df_parent d = Some enum_def \<and> df_name d = name)
            (rm_defs md) }"

definition enum_variant_def :: "resolved_program \<Rightarrow> def_id \<Rightarrow> string \<Rightarrow> def_id option option" where
  "enum_variant_def p enum_def name =
     do { d \<leftarrow> program_def p enum_def;
          local_enum_variant_def p (df_module d) enum_def name }"

definition enum_variant_defs :: "resolved_program \<Rightarrow> def_id \<Rightarrow> def_id list option" where
  "enum_variant_defs p enum_def =
     do { d \<leftarrow> program_def p enum_def;
          md \<leftarrow> program_module p (df_module d);
          filter_defs p (\<lambda>d. df_kind d = DK_EnumVariant \<and> df_parent d = Some enum_def) (rm_defs md) }"

text \<open>
  \<open>find_map\<close> over the declared names; the closure ignores the name found and looks the wanted one up,
  and its \<open>?\<close> turns a failed comparison into \<open>None\<close>.
\<close>

fun lexical_find :: "resolved_program \<Rightarrow> module_id \<Rightarrow> string \<Rightarrow> string list \<Rightarrow> def_id option option" where
  "lexical_find p m name [] = Some None"
| "lexical_find p m name (def_name # names) =
     (if def_name = name
      then case local_def p m name all_def_kinds of
          None \<Rightarrow> None
        | Some (Some i) \<Rightarrow> Some (Some i)
        | Some None \<Rightarrow> lexical_find p m name names
      else lexical_find p m name names)"

definition lexical_def_before :: "resolved_program \<Rightarrow> module_id \<Rightarrow> string \<Rightarrow> nat \<Rightarrow> def_id option option" where
  "lexical_def_before p m name before_index =
     do { md \<leftarrow> program_module p m;
          lexical_find p (rm_id md) name
            (concat (map item_declared_names (take before_index (af_items (rm_ast md))))) }"

fun find_map :: "('a \<Rightarrow> 'b option) \<Rightarrow> 'a list \<Rightarrow> 'b option" where
  "find_map f [] = None"
| "find_map f (x # xs) = (case f x of None \<Rightarrow> find_map f xs | Some y \<Rightarrow> Some y)"

definition struct_fields :: "resolved_program \<Rightarrow> string \<Rightarrow> field_decl list option" where
  "struct_fields p name =
     find_map (\<lambda>md. find_map (\<lambda>it. case item_kind it of
         IK_Struct decl \<Rightarrow> if ident_name (sd_name decl) = name then Some (sd_fields decl) else None
       | _ \<Rightarrow> None) (af_items (rm_ast md))) (rp_modules p)"

section \<open>Walks over exported imports\<close>

text \<open>The imports a module re-exports without an alias, as descents into their targets.\<close>

fun reexports :: "resolved_import list \<Rightarrow> 'a event list" where
  "reexports [] = []"
| "reexports (im # ims) =
     (if \<not> ri_exported im \<or> ri_alias im \<noteq> None then reexports ims
      else case ri_target im of None \<Rightarrow> reexports ims | Some target \<Rightarrow> Descend target # reexports ims)"

definition exported_defs_events ::
    "resolved_program \<Rightarrow> def_kind list \<Rightarrow> module_id \<Rightarrow> def_id event list option" where
  "exported_defs_events p kinds m =
     do { md \<leftarrow> program_module p m;
          own \<leftarrow> filter_defs p (\<lambda>d. df_exported d \<and> kind_matches (df_kind d) kinds) (rm_defs md);
          Some (map Emit own @ reexports (rm_imports md)) }"

definition exported_variant_defs_events :: "resolved_program \<Rightarrow> module_id \<Rightarrow> def_id event list option" where
  "exported_variant_defs_events p m =
     do { md \<leftarrow> program_module p m;
          own \<leftarrow> filter_defs p (\<lambda>d. df_exported d \<and> df_kind d = DK_EnumVariant) (rm_defs md);
          Some (map Emit own @ reexports (rm_imports md)) }"

text \<open>The walks for one name do not look behind a module that exports the name itself.\<close>

definition exported_bare_defs_events ::
    "resolved_program \<Rightarrow> string \<Rightarrow> def_kind list \<Rightarrow> module_id \<Rightarrow> def_id event list option" where
  "exported_bare_defs_events p name kinds m =
     do { md \<leftarrow> program_module p m;
          own \<leftarrow> filter_defs p (\<lambda>d. df_exported d \<and> df_name d = name \<and> kind_matches (df_kind d) kinds)
            (rm_defs md);
          Some (if own \<noteq> [] then map Emit own else reexports (rm_imports md)) }"

definition exported_bare_variant_defs_events ::
    "resolved_program \<Rightarrow> string \<Rightarrow> module_id \<Rightarrow> def_id event list option" where
  "exported_bare_variant_defs_events p name m =
     do { md \<leftarrow> program_module p m;
          own \<leftarrow> filter_defs p (\<lambda>d. df_exported d \<and> df_kind d = DK_EnumVariant \<and> df_name d = name)
            (rm_defs md);
          Some (if own \<noteq> [] then map Emit own else reexports (rm_imports md)) }"

fun alias_events :: "resolved_import list \<Rightarrow> string event list" where
  "alias_events [] = []"
| "alias_events (im # ims) =
     (if \<not> ri_exported im then alias_events ims
      else case ri_alias im of
          Some alias \<Rightarrow> Emit alias # alias_events ims
        | None \<Rightarrow>
            (case ri_target im of
               Some target \<Rightarrow> Descend target # alias_events ims
             | None \<Rightarrow> alias_events ims))"

fun alias_target_events :: "string \<Rightarrow> resolved_import list \<Rightarrow> module_id event list" where
  "alias_target_events alias [] = []"
| "alias_target_events alias (im # ims) =
     (if \<not> ri_exported im then alias_target_events alias ims
      else if ri_alias im = Some alias then
        (case ri_target im of
           Some target \<Rightarrow> Emit target # alias_target_events alias ims
         | None \<Rightarrow> alias_target_events alias ims)
      else case (ri_alias im, ri_target im) of
          (None, Some target) \<Rightarrow> Descend target # alias_target_events alias ims
        | _ \<Rightarrow> alias_target_events alias ims)"

text \<open>A walk from one module, with the set of visited modules and the output threaded through.\<close>

type_synonym 'a walk = "module_id \<Rightarrow> module_id set \<Rightarrow> 'a list \<Rightarrow> (module_id set \<times> 'a list) option"

definition walk :: "resolved_program \<Rightarrow> (module_id \<Rightarrow> 'a event list option) \<Rightarrow> 'a walk" where
  "walk p ev m visited out = run_events (length (rp_modules p)) ev [Descend m] visited out"

definition exported_defs :: "resolved_program \<Rightarrow> def_kind list \<Rightarrow> def_id walk" where
  "exported_defs p kinds = walk p (exported_defs_events p kinds)"

definition exported_variant_defs :: "resolved_program \<Rightarrow> def_id walk" where
  "exported_variant_defs p = walk p (exported_variant_defs_events p)"

definition exported_aliases :: "resolved_program \<Rightarrow> string walk" where
  "exported_aliases p = walk p (\<lambda>m. map_option (\<lambda>md. alias_events (rm_imports md)) (program_module p m))"

definition exported_bare_defs :: "resolved_program \<Rightarrow> string \<Rightarrow> def_kind list \<Rightarrow> def_id walk" where
  "exported_bare_defs p name kinds = walk p (exported_bare_defs_events p name kinds)"

definition exported_bare_variant_defs :: "resolved_program \<Rightarrow> string \<Rightarrow> def_id walk" where
  "exported_bare_variant_defs p name = walk p (exported_bare_variant_defs_events p name)"

definition exported_alias_targets :: "resolved_program \<Rightarrow> string \<Rightarrow> module_id walk" where
  "exported_alias_targets p alias =
     walk p (\<lambda>m. map_option (\<lambda>md. alias_target_events alias (rm_imports md)) (program_module p m))"

section \<open>Lookups\<close>

definition dedup_defs :: "def_id list \<Rightarrow> def_id list" where
  "dedup_defs ids = retain_first (\<lambda>i. i) {} ids"

definition dedup_modules :: "module_id list \<Rightarrow> module_id list" where
  "dedup_modules ids = retain_first (\<lambda>i. i) {} ids"

text \<open>
  The loop of the lookups over the imports without an alias: an import without a target ends the lookup
  with an error, or is skipped by the queries that list what is visible.
\<close>

fun each_bare_import ::
    "'a walk \<Rightarrow> resolved_import list \<Rightarrow> module_id set \<Rightarrow> 'a list \<Rightarrow> (lookup_error + 'a list) option" where
  "each_bare_import w [] visited out = Some (Inr out)"
| "each_bare_import w (im # ims) visited out =
     (if ri_alias im \<noteq> None then each_bare_import w ims visited out
      else case ri_target im of
          None \<Rightarrow> Some (Inl (LE_UnresolvedImport (ri_path im)))
        | Some target \<Rightarrow>
            (case w target visited out of
               None \<Rightarrow> None
             | Some (visited', out') \<Rightarrow> each_bare_import w ims visited' out'))"

fun each_visible_import ::
    "'a walk \<Rightarrow> resolved_import list \<Rightarrow> module_id set \<Rightarrow> 'a list \<Rightarrow> 'a list option" where
  "each_visible_import w [] visited out = Some out"
| "each_visible_import w (im # ims) visited out =
     (if ri_alias im \<noteq> None then each_visible_import w ims visited out
      else case ri_target im of
          None \<Rightarrow> each_visible_import w ims visited out
        | Some target \<Rightarrow>
            (case w target visited out of
               None \<Rightarrow> None
             | Some (visited', out') \<Rightarrow> each_visible_import w ims visited' out'))"

text \<open>\<open>match candidates.len()\<close>: nothing, the only candidate, or an ambiguity.\<close>

fun only_candidate :: "string \<Rightarrow> def_id list \<Rightarrow> lookup_error + def_id option" where
  "only_candidate name [] = Inr None"
| "only_candidate name [i] = Inr (Some i)"
| "only_candidate name candidates = Inl (LE_Ambiguous name candidates)"

definition lookup_imported_bare ::
    "resolved_program \<Rightarrow> module_id \<Rightarrow> string \<Rightarrow> def_kind list \<Rightarrow> (lookup_error + def_id option) option" where
  "lookup_imported_bare p m name kinds =
     do { md \<leftarrow> program_module p m;
          r \<leftarrow> each_bare_import (exported_bare_defs p name kinds) (rm_imports md) {} [];
          Some (case r of
              Inl e \<Rightarrow> Inl e
            | Inr candidates \<Rightarrow> only_candidate name (dedup_defs candidates)) }"

definition lookup_bare ::
    "resolved_program \<Rightarrow> module_id \<Rightarrow> string \<Rightarrow> def_kind list \<Rightarrow> (lookup_error + def_id option) option" where
  "lookup_bare p m name kinds =
     do { found \<leftarrow> local_def p m name kinds;
          case found of
            Some local \<Rightarrow> Some (Inr (Some local))
          | None \<Rightarrow>
              do { md \<leftarrow> program_module p m;
                   r \<leftarrow> each_bare_import (exported_bare_defs p name kinds) (rm_imports md) {} [];
                   Some (case r of
                       Inl e \<Rightarrow> Inl e
                     | Inr candidates \<Rightarrow> only_candidate name (dedup_defs candidates)) } }"

definition visible_imported_bare_defs :: "resolved_program \<Rightarrow> module_id \<Rightarrow> def_kind list \<Rightarrow> def_id list option" where
  "visible_imported_bare_defs p m kinds =
     do { md \<leftarrow> program_module p m;
          candidates \<leftarrow> each_visible_import (exported_defs p kinds) (rm_imports md) {} [];
          Some (dedup_defs candidates) }"

definition lookup_imported_bare_variants ::
    "resolved_program \<Rightarrow> module_id \<Rightarrow> string \<Rightarrow> (lookup_error + def_id list) option" where
  "lookup_imported_bare_variants p m name =
     do { md \<leftarrow> program_module p m;
          r \<leftarrow> each_bare_import (exported_bare_variant_defs p name) (rm_imports md) {} [];
          Some (map_sum (\<lambda>e. e) dedup_defs r) }"

text \<open>\<open>self.modules.get(m)\<close>: no definitions when the module does not exist.\<close>

definition local_variants :: "resolved_program \<Rightarrow> module_id \<Rightarrow> string \<Rightarrow> def_id list option" where
  "local_variants p m name =
     (case program_module p m of
        None \<Rightarrow> Some []
      | Some md \<Rightarrow> filter_defs p (\<lambda>d. df_kind d = DK_EnumVariant \<and> df_name d = name) (rm_defs md))"

definition lookup_bare_variants ::
    "resolved_program \<Rightarrow> module_id \<Rightarrow> string \<Rightarrow> (lookup_error + def_id list) option" where
  "lookup_bare_variants p m name =
     do { local \<leftarrow> local_variants p m name;
          if local \<noteq> [] then Some (Inr local) else lookup_imported_bare_variants p m name }"

definition visible_imported_bare_variants :: "resolved_program \<Rightarrow> module_id \<Rightarrow> def_id list option" where
  "visible_imported_bare_variants p m =
     do { md \<leftarrow> program_module p m;
          candidates \<leftarrow> each_visible_import (exported_variant_defs p) (rm_imports md) {} [];
          Some (dedup_defs candidates) }"

definition visible_import_aliases :: "resolved_program \<Rightarrow> module_id \<Rightarrow> string list option" where
  "visible_import_aliases p m =
     do { md \<leftarrow> program_module p m;
          aliases \<leftarrow> each_visible_import (exported_aliases p) (rm_imports md) {}
            (concat (map (\<lambda>im. case ri_alias im of Some alias \<Rightarrow> [alias] | None \<Rightarrow> []) (rm_imports md)));
          Some (remdups_adj (sort aliases)) }"

text \<open>The targets of the imports of the module itself that carry the alias.\<close>

fun own_alias_targets :: "string \<Rightarrow> resolved_import list \<Rightarrow> lookup_error + module_id list" where
  "own_alias_targets alias [] = Inr []"
| "own_alias_targets alias (im # ims) =
     (if ri_alias im \<noteq> Some alias then own_alias_targets alias ims
      else case ri_target im of
          None \<Rightarrow> Inl (LE_UnresolvedImport (ri_path im))
        | Some target \<Rightarrow> map_sum (\<lambda>e. e) (\<lambda>targets. target # targets) (own_alias_targets alias ims))"

definition visible_alias_targets ::
    "resolved_program \<Rightarrow> module_id \<Rightarrow> string \<Rightarrow> (lookup_error + module_id list) option" where
  "visible_alias_targets p m alias =
     do { md \<leftarrow> program_module p m;
          case own_alias_targets alias (rm_imports md) of
            Inl e \<Rightarrow> Some (Inl e)
          | Inr own \<Rightarrow>
              do { r \<leftarrow> each_bare_import (exported_alias_targets p alias) (rm_imports md) {} own;
                   Some (case r of
                       Inl e \<Rightarrow> Inl e
                     | Inr targets \<Rightarrow>
                         (if dedup_modules targets = [] then Inl (LE_UnknownAlias alias)
                          else Inr (dedup_modules targets))) } }"

text \<open>One walk per target, each with its own set of visited modules.\<close>

fun each_target :: "'a walk \<Rightarrow> module_id list \<Rightarrow> 'a list \<Rightarrow> 'a list option" where
  "each_target w [] out = Some out"
| "each_target w (target # targets) out =
     (case w target {} out of
        None \<Rightarrow> None
      | Some (_, out') \<Rightarrow> each_target w targets out')"

text \<open>Whether a module imported under the alias has a matching definition it does not export.\<close>

fun hidden_behind :: "(module_id \<Rightarrow> bool option) \<Rightarrow> string \<Rightarrow> resolved_import list \<Rightarrow> bool option" where
  "hidden_behind has alias [] = Some False"
| "hidden_behind has alias (im # ims) =
     (if ri_alias im = Some alias
      then case ri_target im of
          None \<Rightarrow> hidden_behind has alias ims
        | Some target \<Rightarrow>
            do { h \<leftarrow> has target;
                 if h then Some True else hidden_behind has alias ims }
      else hidden_behind has alias ims)"

text \<open>
  \<open>lookup_qualified\<close> and \<open>lookup_qualified_variants\<close> open with the code of \<open>visible_alias_targets\<close>,
  which the source repeats in them.
\<close>

definition lookup_qualified ::
    "resolved_program \<Rightarrow> module_id \<Rightarrow> string \<Rightarrow> string \<Rightarrow> def_kind list \<Rightarrow>
       (lookup_error + def_id option) option" where
  "lookup_qualified p m alias name kinds =
     do { md \<leftarrow> program_module p m;
          r \<leftarrow> visible_alias_targets p m alias;
          case r of
            Inl e \<Rightarrow> Some (Inl e)
          | Inr targets \<Rightarrow>
              do { found \<leftarrow> each_target (exported_bare_defs p name kinds) targets [];
                   hidden \<leftarrow> (if dedup_defs found = []
                     then hidden_behind (\<lambda>t. map_option (\<lambda>l. l \<noteq> None) (local_def p t name kinds)) alias
                       (rm_imports md)
                     else Some False);
                   Some (if hidden then Inl (LE_NotExported (alias @ ''::'' @ name))
                         else only_candidate (alias @ ''::'' @ name) (dedup_defs found)) } }"

definition has_local_variant :: "resolved_program \<Rightarrow> string \<Rightarrow> module_id \<Rightarrow> bool option" where
  "has_local_variant p name m =
     (case program_module p m of
        None \<Rightarrow> Some False
      | Some md \<Rightarrow> map_option (\<lambda>l. l \<noteq> None)
          (find_def p (\<lambda>d. df_kind d = DK_EnumVariant \<and> df_name d = name) (rm_defs md)))"

definition lookup_qualified_variants ::
    "resolved_program \<Rightarrow> module_id \<Rightarrow> string \<Rightarrow> string \<Rightarrow> (lookup_error + def_id list) option" where
  "lookup_qualified_variants p m alias name =
     do { md \<leftarrow> program_module p m;
          r \<leftarrow> visible_alias_targets p m alias;
          case r of
            Inl e \<Rightarrow> Some (Inl e)
          | Inr targets \<Rightarrow>
              do { found \<leftarrow> each_target (exported_bare_variant_defs p name) targets [];
                   hidden \<leftarrow> (if dedup_defs found = []
                     then hidden_behind (has_local_variant p name) alias (rm_imports md)
                     else Some False);
                   Some (if hidden then Inl (LE_NotExported (alias @ ''::'' @ name))
                         else Inr (dedup_defs found)) } }"

definition visible_qualified_defs ::
    "resolved_program \<Rightarrow> module_id \<Rightarrow> string \<Rightarrow> def_kind list \<Rightarrow> (lookup_error + def_id list) option" where
  "visible_qualified_defs p m alias kinds =
     do { r \<leftarrow> visible_alias_targets p m alias;
          case r of
            Inl e \<Rightarrow> Some (Inl e)
          | Inr targets \<Rightarrow>
              do { found \<leftarrow> each_target (exported_defs p kinds) targets [];
                   Some (Inr (dedup_defs found)) } }"

definition visible_qualified_variants ::
    "resolved_program \<Rightarrow> module_id \<Rightarrow> string \<Rightarrow> (lookup_error + def_id list) option" where
  "visible_qualified_variants p m alias =
     do { r \<leftarrow> visible_alias_targets p m alias;
          case r of
            Inl e \<Rightarrow> Some (Inl e)
          | Inr targets \<Rightarrow>
              do { found \<leftarrow> each_target (exported_variant_defs p) targets [];
                   Some (Inr (dedup_defs found)) } }"

fun lookup_path ::
    "resolved_program \<Rightarrow> module_id \<Rightarrow> ident list \<Rightarrow> def_kind list \<Rightarrow> (lookup_error + def_id option) option" where
  "lookup_path p m [name] kinds = lookup_bare p m (ident_name name) kinds"
| "lookup_path p m [alias, name] kinds = lookup_qualified p m (ident_name alias) (ident_name name) kinds"
| "lookup_path p m path kinds = Some (Inl (LE_TooManySegments (length path)))"

section \<open>Building the table\<close>

text \<open>
  What the loop over the modules threads through: the diagnostics, definitions and implementations of
  all modules, and the definitions, imports, names and remaining import paths of the current one.
\<close>

record resolve_state =
  rs_diagnostics :: "diagnostic list"
  rs_defs :: "definition_record list"
  rs_impls :: "impl_record list"
  rs_module_defs :: "def_id list"
  rs_imports :: "resolved_import list"
  rs_local_names :: "string set"
  rs_import_paths :: "path_buf list"

definition push_def ::
    "resolve_state \<Rightarrow> module_id \<Rightarrow> string \<Rightarrow> def_kind \<Rightarrow> def_id option \<Rightarrow> bool \<Rightarrow> span \<Rightarrow> def_id \<times> resolve_state" where
  "push_def st m name kind parent exported sp =
     (let i = length (rs_defs st)
      in (i, st\<lparr>rs_defs := rs_defs st @ [\<lparr>df_id = i, df_module = m, df_name = name, df_kind = kind,
                 df_parent = parent, df_exported = exported, df_span = sp\<rparr>],
               rs_module_defs := rs_module_defs st @ [i]\<rparr>))"

definition push_diagnostic :: "resolve_state \<Rightarrow> diagnostic \<Rightarrow> resolve_state" where
  "push_diagnostic st d = st\<lparr>rs_diagnostics := rs_diagnostics st @ [d]\<rparr>"

definition add_def ::
    "resolve_state \<Rightarrow> module_id \<Rightarrow> string \<Rightarrow> def_kind \<Rightarrow> bool \<Rightarrow> span \<Rightarrow> def_id option \<times> resolve_state" where
  "add_def st m name kind exported sp =
     (if name \<in> rs_local_names st
      then (None, push_diagnostic st
              (diagnostic_note (diagnostic_new (Some sp) (''duplicate declaration `'' @ name @ ''` in module''))
                (''this module already contains a declaration named `'' @ name @ ''`'')))
      else (case push_def (st\<lparr>rs_local_names := insert name (rs_local_names st)\<rparr>) m name kind None exported sp of
              (i, st') \<Rightarrow> (Some i, st')))"

definition add_variant_def ::
    "resolve_state \<Rightarrow> module_id \<Rightarrow> def_id \<Rightarrow> string \<Rightarrow> bool \<Rightarrow> span \<Rightarrow> def_id \<times> resolve_state" where
  "add_variant_def st m enum_def_id name exported sp =
     push_def st m name DK_EnumVariant (Some enum_def_id) exported sp"

fun resolve_variants ::
    "module_id \<Rightarrow> bool \<Rightarrow> def_id \<Rightarrow> string \<Rightarrow> variant_decl list \<Rightarrow> string set \<Rightarrow> resolve_state \<Rightarrow> resolve_state" where
  "resolve_variants m exported enum_def_id enum_name [] variant_names st = st"
| "resolve_variants m exported enum_def_id enum_name (v # vs) variant_names st =
     (if ident_name (vd_name v) \<in> variant_names
      then resolve_variants m exported enum_def_id enum_name vs variant_names (push_diagnostic st
        (diagnostic_note (diagnostic_new (Some (ident_span (vd_name v)))
            (''duplicate variant `'' @ ident_name (vd_name v) @ ''` in enum `'' @ enum_name @ ''`''))
          (''enum `'' @ enum_name @ ''` already has a variant named `'' @ ident_name (vd_name v) @ ''`'')))
      else resolve_variants m exported enum_def_id enum_name vs (insert (ident_name (vd_name v)) variant_names)
        (snd (add_variant_def st m enum_def_id (ident_name (vd_name v)) exported (ident_span (vd_name v)))))"

definition push_impl :: "module_id \<Rightarrow> item \<Rightarrow> ident list \<Rightarrow> resolve_state \<Rightarrow> resolve_state" where
  "push_impl m it name st =
     (case last_opt name of
        Some n \<Rightarrow> st\<lparr>rs_impls := rs_impls st @
          [\<lparr>ir_module = m, ir_interface_name = ident_name n, ir_span = item_span it\<rparr>]\<rparr>
      | None \<Rightarrow> st)"

fun resolve_extern_item :: "module_id \<Rightarrow> bool \<Rightarrow> extern_item \<Rightarrow> resolve_state \<Rightarrow> resolve_state" where
  "resolve_extern_item m exported (EI_OpaqueStruct name) st =
     snd (add_def st m (ident_name name) DK_OpaqueStruct exported (ident_span name))"
| "resolve_extern_item m exported (EI_Function _ signature) st =
     snd (add_def st m (ident_name (fsig_name signature)) DK_ExternFunction exported
       (ident_span (fsig_name signature)))"
| "resolve_extern_item m exported (EI_TypeAlias decl) st =
     snd (add_def st m (ident_name (tad_name decl)) DK_TypeAlias exported (ident_span (tad_name decl)))"

fun resolve_kind :: "module_id \<Rightarrow> item \<Rightarrow> item_kind \<Rightarrow> resolve_state \<Rightarrow> resolve_state" where
  "resolve_kind m it (IK_Import import_decl) st =
     (let (resolved_path, rest) =
        (case rs_import_paths st of [] \<Rightarrow> ([], []) | path # paths \<Rightarrow> (path, paths))
      in st\<lparr>rs_imports := rs_imports st @
              [\<lparr>ri_path = mp_raw (imp_path import_decl), ri_resolved_path = resolved_path,
                ri_alias = map_option ident_name (imp_alias import_decl), ri_exported = item_export it,
                ri_target = None\<rparr>],
            rs_import_paths := rest\<rparr>)"
| "resolve_kind m it (IK_TypeAlias decl) st =
     snd (add_def st m (ident_name (tad_name decl)) DK_TypeAlias (item_export it) (ident_span (tad_name decl)))"
| "resolve_kind m it (IK_Struct decl) st =
     snd (add_def st m (ident_name (sd_name decl)) DK_Struct (item_export it) (ident_span (sd_name decl)))"
| "resolve_kind m it (IK_Enum decl) st =
     (case add_def st m (ident_name (ed_name decl)) DK_Enum (item_export it) (ident_span (ed_name decl)) of
        (None, st') \<Rightarrow> st'
      | (Some enum_def_id, st') \<Rightarrow>
          resolve_variants m (item_export it) enum_def_id (ident_name (ed_name decl)) (ed_variants decl) {} st')"
| "resolve_kind m it (IK_Interface decl) st =
     snd (add_def st m (ident_name (fsig_name (idl_signature decl))) DK_Interface (item_export it)
       (ident_span (fsig_name (idl_signature decl))))"
| "resolve_kind m it (IK_InterfaceAlias decl) st =
     snd (add_def st m (ident_name (iad_name decl)) DK_InterfaceAlias (item_export it) (ident_span (iad_name decl)))"
| "resolve_kind m it (IK_Impl decl) st = push_impl m it (impl_name decl) st"
| "resolve_kind m it (IK_DerivableImpl decl) st = push_impl m it (impl_name (did_impl_decl decl)) st"
| "resolve_kind m it (IK_Derive _) st = st"
| "resolve_kind m it (IK_Function decl) st =
     snd (add_def st m (ident_name (fsig_name (fdl_signature decl)))
       (if fdl_abi decl = Some ''C'' \<and> fdl_body decl = None then DK_ExternFunction else DK_Function)
       (item_export it) (ident_span (fsig_name (fdl_signature decl))))"
| "resolve_kind m it (IK_ExternBlock eblock) st =
     fold (resolve_extern_item m (item_export it)) (eb_items eblock) st"
| "resolve_kind m it (IK_CInclude _) st = st"
| "resolve_kind m it IK_Error st = st"

definition resolve_item :: "module_id \<Rightarrow> item \<Rightarrow> resolve_state \<Rightarrow> resolve_state" where
  "resolve_item m it st = resolve_kind m it (item_kind it) st"

definition resolve_module :: "parsed_module \<Rightarrow> resolve_state \<Rightarrow> resolved_module \<times> resolve_state" where
  "resolve_module md st =
     (let st' = fold (resolve_item (pm_id md)) (af_items (pm_ast md))
            (st\<lparr>rs_module_defs := [], rs_imports := [], rs_local_names := {},
                rs_import_paths := pm_import_paths md\<rparr>)
      in (\<lparr>rm_id = pm_id md, rm_path = pm_path md, rm_std_export = pm_std_export md, rm_ast = pm_ast md,
           rm_defs = rs_module_defs st', rm_imports = rs_imports st'\<rparr>, st'))"

fun resolve_each :: "parsed_module list \<Rightarrow> resolve_state \<Rightarrow> resolved_module list \<times> resolve_state" where
  "resolve_each [] st = ([], st)"
| "resolve_each (md # mds) st =
     (let (rm, st1) = resolve_module md st; (rms, st2) = resolve_each mds st1 in (rm # rms, st2))"

text \<open>\<open>collect::<HashMap<_, _>>()\<close>: the last module with a path wins.\<close>

definition path_to_id :: "resolved_module list \<Rightarrow> path_buf \<Rightarrow> module_id option" where
  "path_to_id mds path =
     map_of (rev (map (\<lambda>md. (path_components (rm_path md), rm_id md)) mds)) (path_components path)"

definition resolve_target :: "(path_buf \<Rightarrow> module_id option) \<Rightarrow> resolved_import \<Rightarrow> resolved_import" where
  "resolve_target ids im = im\<lparr>ri_target := ids (ri_resolved_path im)\<rparr>"

definition unresolved_import :: "(path_buf \<Rightarrow> module_id option) \<Rightarrow> resolved_import \<Rightarrow> diagnostic list" where
  "unresolved_import ids im =
     (if ids (ri_resolved_path im) = None
      then [diagnostic_note (diagnostic_new None (''unresolved import `'' @ ri_path im @ ''`''))
              (''resolved filesystem path `'' @ ri_resolved_path im @ ''` was not loaded'')]
      else [])"

definition resolve_import_targets ::
    "diagnostic list \<Rightarrow> resolved_module list \<Rightarrow> diagnostic list \<times> resolved_module list" where
  "resolve_import_targets diagnostics mds =
     (let ids = path_to_id mds
      in (diagnostics @ concat (map (\<lambda>md. concat (map (unresolved_import ids) (rm_imports md))) mds),
          map (\<lambda>md. md\<lparr>rm_imports := map (resolve_target ids) (rm_imports md)\<rparr>) mds))"

definition default_phase :: "diagnostic_phase \<Rightarrow> diagnostic \<Rightarrow> diagnostic" where
  "default_phase phase d = (if diag_phase d = None then d\<lparr>diag_phase := Some phase\<rparr> else d)"

definition empty_resolve_state :: resolve_state where
  "empty_resolve_state = \<lparr>rs_diagnostics = [], rs_defs = [], rs_impls = [], rs_module_defs = [],
     rs_imports = [], rs_local_names = {}, rs_import_paths = []\<rparr>"

definition resolve_modules_lossy :: "parsed_module list \<Rightarrow> resolved_program \<times> diagnostic list" where
  "resolve_modules_lossy mds =
     (let (rms, st) = resolve_each mds empty_resolve_state;
          (diagnostics, rms') = resolve_import_targets (rs_diagnostics st) rms
      in (\<lparr>rp_modules = rms', rp_defs = rs_defs st, rp_impls = rs_impls st\<rparr>,
          map (default_phase Phase_Resolve) diagnostics))"

definition resolve_modules :: "parsed_module list \<Rightarrow> resolved_program diag_result" where
  "resolve_modules mds =
     (case resolve_modules_lossy mds of
        (p, diagnostics) \<Rightarrow> if diagnostics = [] then Inr p else Inl diagnostics)"

end
