(* ===== verification/Ciel_Resolve_Facts.thy ===== *)
theory Ciel_Resolve_Facts
  imports Ciel_Resolve
begin

text \<open>
  What name resolution guarantees. The table built from the modules is well formed; with a well-formed
  table no lookup panics; a lookup finds exactly the definitions that reach the module through
  re-exports; and the strict entry point accepts exactly the modules without duplicates and with
  loaded imports.
\<close>

section \<open>Lookups in range\<close>

definition table_in_range :: "resolved_program \<Rightarrow> bool" where
  "table_in_range p \<longleftrightarrow>
     (\<forall>md \<in> set (rp_modules p).
        (\<forall>i \<in> set (rm_defs md). i < length (rp_defs p)) \<and>
        (\<forall>im \<in> set (rm_imports md). \<forall>t. ri_target im = Some t \<longrightarrow> t < length (rp_modules p)))"

lemma find_def_in_range:
  "\<forall>i \<in> set is. i < length (rp_defs p) \<Longrightarrow> find_def p P is = Some (find (\<lambda>i. P (rp_defs p ! i)) is)"
  by (induction "is") (auto simp: program_def_def index_def)

lemma filter_defs_in_range:
  "\<forall>i \<in> set is. i < length (rp_defs p) \<Longrightarrow> filter_defs p P is = Some (filter (\<lambda>i. P (rp_defs p ! i)) is)"
  by (induction "is") (auto simp: program_def_def index_def)

lemma program_module_in_range [simp]:
  "m < length (rp_modules p) \<Longrightarrow> program_module p m = Some (rp_modules p ! m)"
  by (simp add: program_module_def index_def)

lemma table_in_range_defs:
  "table_in_range p \<Longrightarrow> m < length (rp_modules p) \<Longrightarrow> i \<in> set (rm_defs (rp_modules p ! m)) \<Longrightarrow>
     i < length (rp_defs p)"
  unfolding table_in_range_def using nth_mem by blast

lemma table_in_range_target:
  "table_in_range p \<Longrightarrow> m < length (rp_modules p) \<Longrightarrow> im \<in> set (rm_imports (rp_modules p ! m)) \<Longrightarrow>
     ri_target im = Some t \<Longrightarrow> t < length (rp_modules p)"
  unfolding table_in_range_def using nth_mem by blast

lemma local_def_in_range:
  assumes "table_in_range p" and "m < length (rp_modules p)"
  shows "local_def p m name kinds =
    Some (find (\<lambda>i. df_name (rp_defs p ! i) = name \<and> kind_matches (df_kind (rp_defs p ! i)) kinds)
      (rm_defs (rp_modules p ! m)))"
  using assms find_def_in_range [of "rm_defs (rp_modules p ! m)" p] table_in_range_defs [OF assms]
  by (simp add: local_def_def)

section \<open>What a walk collects\<close>

text \<open>The targets of the imports without an alias, and of those that are also exported.\<close>

definition bare_targets :: "resolved_import list \<Rightarrow> module_id list" where
  "bare_targets ims = map (the \<circ> ri_target) (filter (\<lambda>im. ri_alias im = None \<and> ri_target im \<noteq> None) ims)"

lemma bare_targets_simps [simp]:
  "bare_targets [] = []"
  "bare_targets (im # ims) =
     (if ri_alias im = None \<and> ri_target im \<noteq> None then the (ri_target im) # bare_targets ims else bare_targets ims)"
  by (simp_all add: bare_targets_def)

lemma starts_emits_append [simp]:
  "starts (es @ fs) = starts es \<union> starts fs" "emits (es @ fs) = emits es \<union> emits fs"
  by (auto simp: starts_def emits_def)

lemma starts_emits_map [simp]:
  "starts (map Emit xs) = {}" "emits (map Emit xs) = set xs"
  "starts (map Descend ms) = set ms" "emits (map Descend ms) = {}"
  by (auto simp: starts_def emits_def)

lemma emits_reexports [simp]: "emits (reexports ims) = {}"
  by (induction ims) (auto split: option.split)

lemma starts_reexports:
  "starts (reexports ims) = {t. \<exists>im \<in> set ims. ri_exported im \<and> ri_alias im = None \<and> ri_target im = Some t}"
  by (induction ims) (auto split: option.split)

definition walk_ok :: "resolved_program \<Rightarrow> (module_id \<Rightarrow> 'a event list option) \<Rightarrow> bool" where
  "walk_ok p ev \<longleftrightarrow> (\<forall>m < length (rp_modules p). \<exists>body. ev m = Some body \<and> starts body \<subseteq> {..<length (rp_modules p)})"

lemma walk_returns:
  assumes "walk_ok p ev" and "set ms \<subseteq> {..<length (rp_modules p)}"
  shows "\<exists>r. run_events (length (rp_modules p)) ev (map Descend ms) visited out = Some r"
  using assms by (intro run_events_returns) (auto simp: walk_ok_def)

lemma run_descend_Cons:
  "run_events (length (rp_modules p)) ev (map Descend (m # ms)) visited out =
     (case walk p ev m visited out of
        None \<Rightarrow> None
      | Some (visited', out') \<Rightarrow> run_events (length (rp_modules p)) ev (map Descend ms) visited' out')"
  unfolding walk_def
  using run_events_append [of "length (rp_modules p)" ev "[Descend m]" "map Descend ms"] by simp

lemma each_visible_import_run:
  "each_visible_import (walk p ev) ims visited out =
     map_option snd (run_events (length (rp_modules p)) ev (map Descend (bare_targets ims)) visited out)"
proof (induction ims arbitrary: visited out)
  case (Cons im ims)
  show ?case
  proof (cases "ri_alias im = None \<and> ri_target im \<noteq> None")
    case True
    then obtain t where t: "ri_alias im = None" "ri_target im = Some t" by auto
    then have "bare_targets (im # ims) = t # bare_targets ims" by simp
    then show ?thesis using t Cons.IH
      by (simp only: run_descend_Cons each_visible_import.simps) (auto split: option.split)
  next
    case False
    then show ?thesis using Cons.IH by (auto split: option.split)
  qed
qed simp

lemma each_bare_import_run:
  assumes "\<forall>im \<in> set ims. ri_alias im = None \<longrightarrow> ri_target im \<noteq> None"
  shows "each_bare_import (walk p ev) ims visited out =
     map_option Inr (each_visible_import (walk p ev) ims visited out)"
  using assms by (induction ims arbitrary: visited out) (auto split: option.split)

lemma each_visible_import_set:
  assumes "walk_ok p ev" and "set (bare_targets ims) \<subseteq> {..<length (rp_modules p)}"
  shows "\<exists>found. each_visible_import (walk p ev) ims {} out = Some found \<and>
    set found = set out \<union> emitted ev ((event_edges ev)\<^sup>* `` set (bare_targets ims))"
proof -
  obtain v found where run: "run_events (length (rp_modules p)) ev (map Descend (bare_targets ims)) {} out =
      Some (v, found)"
    using walk_returns [OF assms] by fastforce
  have "set found = set out \<union> emitted ev ((event_edges ev)\<^sup>* `` set (bare_targets ims))"
    using run_events_reachable(2) [OF run] by simp
  then show ?thesis using run by (simp add: each_visible_import_run)
qed

lemma each_target_set:
  assumes "walk_ok p ev" and "set ms \<subseteq> {..<length (rp_modules p)}"
  shows "\<exists>found. each_target (walk p ev) ms out = Some found \<and>
    set found = set out \<union> emitted ev ((event_edges ev)\<^sup>* `` set ms)"
  using assms(2)
proof (induction ms arbitrary: out)
  case Nil
  then show ?case by (simp add: emitted_def)
next
  case (Cons m ms)
  have "set [m] \<subseteq> {..<length (rp_modules p)}" using Cons.prems by simp
  from walk_returns [OF assms(1) this, of "{}" out]
  obtain v o1 where run: "run_events (length (rp_modules p)) ev [Descend m] {} out = Some (v, o1)" by auto
  have o1: "set o1 = set out \<union> emitted ev ((event_edges ev)\<^sup>* `` {m})"
    using run_events_reachable(2) [OF run] by simp
  obtain found where found: "each_target (walk p ev) ms o1 = Some found"
      "set found = set o1 \<union> emitted ev ((event_edges ev)\<^sup>* `` set ms)"
    using Cons.IH [of o1] Cons.prems by auto
  have "(event_edges ev)\<^sup>* `` set (m # ms) = (event_edges ev)\<^sup>* `` {m} \<union> (event_edges ev)\<^sup>* `` set ms" by auto
  then have "set found = set out \<union> emitted ev ((event_edges ev)\<^sup>* `` set (m # ms))"
    by (simp only: found(2) o1 emitted_Un Un_assoc)
  moreover have "walk p ev m {} out = Some (v, o1)" unfolding walk_def by (rule run)
  then have "each_target (walk p ev) (m # ms) out = Some found" by (simp add: found(1))
  ultimately show ?case by blast
qed

section \<open>Exported definitions\<close>

text \<open>
  The definitions a module exports under a name: its own, or, when it has none, what the modules it
  re-exports without an alias export.
\<close>

definition exports_itself :: "resolved_program \<Rightarrow> (definition_record \<Rightarrow> bool) \<Rightarrow> module_id \<Rightarrow> def_id \<Rightarrow> bool" where
  "exports_itself p P m i \<longleftrightarrow> m < length (rp_modules p) \<and> i \<in> set (rm_defs (rp_modules p ! m)) \<and>
     df_exported (rp_defs p ! i) \<and> P (rp_defs p ! i)"

definition reexports_module :: "resolved_program \<Rightarrow> module_id \<Rightarrow> module_id \<Rightarrow> bool" where
  "reexports_module p m t \<longleftrightarrow> m < length (rp_modules p) \<and>
     (\<exists>im \<in> set (rm_imports (rp_modules p ! m)). ri_exported im \<and> ri_alias im = None \<and> ri_target im = Some t)"

inductive exports :: "resolved_program \<Rightarrow> (definition_record \<Rightarrow> bool) \<Rightarrow> module_id \<Rightarrow> def_id \<Rightarrow> bool" for p P where
  exports_own: "exports_itself p P m i \<Longrightarrow> exports p P m i"
| exports_via: "(\<And>j. \<not> exports_itself p P m j) \<Longrightarrow> reexports_module p m t \<Longrightarrow> exports p P t i \<Longrightarrow> exports p P m i"

definition named :: "string \<Rightarrow> def_kind list \<Rightarrow> definition_record \<Rightarrow> bool" where
  "named name kinds d \<longleftrightarrow> df_name d = name \<and> kind_matches (df_kind d) kinds"

definition variant_named :: "string \<Rightarrow> definition_record \<Rightarrow> bool" where
  "variant_named name d \<longleftrightarrow> df_kind d = DK_EnumVariant \<and> df_name d = name"

text \<open>Both walks for one name have the same shape.\<close>

definition stops_at_own ::
    "resolved_program \<Rightarrow> (definition_record \<Rightarrow> bool) \<Rightarrow> (module_id \<Rightarrow> def_id event list option) \<Rightarrow> bool" where
  "stops_at_own p P ev \<longleftrightarrow> (\<forall>m < length (rp_modules p).
     ev m = Some (if \<exists>i. exports_itself p P m i
       then map Emit (filter (\<lambda>i. df_exported (rp_defs p ! i) \<and> P (rp_defs p ! i)) (rm_defs (rp_modules p ! m)))
       else reexports (rm_imports (rp_modules p ! m)))) \<and>
     (\<forall>m \<ge> length (rp_modules p). ev m = None)"

lemma exported_bare_defs_stops:
  assumes "table_in_range p"
  shows "stops_at_own p (named name kinds) (exported_bare_defs_events p name kinds)"
  unfolding stops_at_own_def
proof (intro conjI allI impI)
  fix m assume m: "m < length (rp_modules p)"
  have "\<forall>i \<in> set (rm_defs (rp_modules p ! m)). i < length (rp_defs p)" using table_in_range_defs [OF assms m] by blast
  then show "exported_bare_defs_events p name kinds m = Some (if \<exists>i. exports_itself p (named name kinds) m i
       then map Emit (filter (\<lambda>i. df_exported (rp_defs p ! i) \<and> named name kinds (rp_defs p ! i))
         (rm_defs (rp_modules p ! m)))
       else reexports (rm_imports (rp_modules p ! m)))"
    using m by (auto simp: exported_bare_defs_events_def filter_defs_in_range exports_itself_def named_def
        filter_empty_conv)
qed (simp add: exported_bare_defs_events_def program_module_def index_def)

lemma exported_bare_variant_defs_stops:
  assumes "table_in_range p"
  shows "stops_at_own p (variant_named name) (exported_bare_variant_defs_events p name)"
  unfolding stops_at_own_def
proof (intro conjI allI impI)
  fix m assume m: "m < length (rp_modules p)"
  have "\<forall>i \<in> set (rm_defs (rp_modules p ! m)). i < length (rp_defs p)" using table_in_range_defs [OF assms m] by blast
  then show "exported_bare_variant_defs_events p name m = Some (if \<exists>i. exports_itself p (variant_named name) m i
       then map Emit (filter (\<lambda>i. df_exported (rp_defs p ! i) \<and> variant_named name (rp_defs p ! i))
         (rm_defs (rp_modules p ! m)))
       else reexports (rm_imports (rp_modules p ! m)))"
    using m by (auto simp: exported_bare_variant_defs_events_def filter_defs_in_range exports_itself_def
        variant_named_def filter_empty_conv)
qed (simp add: exported_bare_variant_defs_events_def program_module_def index_def)

lemma reexports_in_range:
  "table_in_range p \<Longrightarrow> m < length (rp_modules p) \<Longrightarrow>
     starts (reexports (rm_imports (rp_modules p ! m))) \<subseteq> {..<length (rp_modules p)}"
  using table_in_range_target by (fastforce simp: starts_reexports)

lemma stops_at_own_walk_ok:
  assumes "table_in_range p" and "stops_at_own p P ev"
  shows "walk_ok p ev"
  using assms(2) unfolding walk_ok_def stops_at_own_def by (simp add: reexports_in_range [OF assms(1)])

lemma stops_at_own_edges:
  assumes "stops_at_own p P ev"
  shows "(m, t) \<in> event_edges ev \<longleftrightarrow> (\<forall>i. \<not> exports_itself p P m i) \<and> reexports_module p m t"
proof (cases "m < length (rp_modules p)")
  case True
  have "(m, t) \<in> event_edges ev \<longleftrightarrow> (\<exists>body. ev m = Some body \<and> t \<in> starts body)"
    by (auto simp: event_edges_def starts_def)
  then show ?thesis using assms True
    by (auto simp: stops_at_own_def reexports_module_def starts_reexports)
next
  case False
  then show ?thesis using assms by (auto simp: stops_at_own_def event_edges_def reexports_module_def)
qed

lemma stops_at_own_emitted:
  assumes "stops_at_own p P ev"
  shows "emitted ev {m} = {i. exports_itself p P m i}"
proof (cases "m < length (rp_modules p)")
  case True
  have "emitted ev {m} = {i. \<exists>body. ev m = Some body \<and> i \<in> emits body}"
    by (auto simp: emitted_def emits_def)
  then show ?thesis using assms True by (auto simp: stops_at_own_def exports_itself_def)
next
  case False
  then show ?thesis using assms by (auto simp: stops_at_own_def emitted_def exports_itself_def)
qed

lemma exports_iff_emitted:
  assumes ev: "stops_at_own p P ev"
  shows "{i. exports p P m i} = emitted ev ((event_edges ev)\<^sup>* `` {m})"
proof (intro subset_antisym subsetI)
  fix i assume "i \<in> {i. exports p P m i}"
  then have "exports p P m i" by simp
  then have "\<exists>k. (m, k) \<in> (event_edges ev)\<^sup>* \<and> exports_itself p P k i"
  proof induction
    case (exports_via m t i)
    then have "(m, t) \<in> event_edges ev" by (simp add: stops_at_own_edges [OF ev])
    then show ?case using exports_via.IH by (blast intro: converse_rtrancl_into_rtrancl)
  qed blast
  then obtain k where "(m, k) \<in> (event_edges ev)\<^sup>*" "i \<in> emitted ev {k}"
    by (auto simp: stops_at_own_emitted [OF ev])
  then show "i \<in> emitted ev ((event_edges ev)\<^sup>* `` {m})" by (auto simp: emitted_def)
next
  fix i assume "i \<in> emitted ev ((event_edges ev)\<^sup>* `` {m})"
  then obtain k where "(m, k) \<in> (event_edges ev)\<^sup>*" "i \<in> emitted ev {k}" by (auto simp: emitted_def)
  then have "exports p P m i"
  proof (induction rule: converse_rtrancl_induct)
    case base
    then show ?case by (simp add: stops_at_own_emitted [OF ev] exports_own)
  next
    case (step m k')
    from step.hyps(1) have "\<forall>i. \<not> exports_itself p P m i" "reexports_module p m k'"
      by (simp_all add: stops_at_own_edges [OF ev])
    then show ?case using step.IH step.prems exports_via by metis
  qed
  then show "i \<in> {i. exports p P m i}" by simp
qed

lemma exports_of_modules:
  assumes "stops_at_own p P ev"
  shows "emitted ev ((event_edges ev)\<^sup>* `` M) = {i. \<exists>t \<in> M. exports p P t i}"
proof -
  have "emitted ev ((event_edges ev)\<^sup>* `` M) = (\<Union>t \<in> M. emitted ev ((event_edges ev)\<^sup>* `` {t}))"
    by (auto simp: emitted_def)
  also have "\<dots> = (\<Union>t \<in> M. {i. exports p P t i})" by (simp only: exports_iff_emitted [OF assms])
  finally show ?thesis by auto
qed


section \<open>Bare and qualified names\<close>

lemma set_dedup [simp]: "set (dedup_defs ids) = set ids" "set (dedup_modules ids) = set ids"
  using set_retain_first_key [of "\<lambda>i. i" "{}" ids] by (simp_all add: dedup_defs_def dedup_modules_def)

lemma distinct_dedup [simp]: "distinct (dedup_defs ids)"
  using distinct_retain_first [of "\<lambda>i. i" "{}" ids] by (simp add: dedup_defs_def)

lemma only_candidate_cases:
  assumes "distinct c"
  shows "only_candidate name c = Inr (Some i) \<longleftrightarrow> set c = {i}"
    and "only_candidate name c = Inr None \<longleftrightarrow> set c = {}"
    and "only_candidate name c = Inl (LE_Ambiguous name c) \<longleftrightarrow> 2 \<le> card (set c)"
  using assms by (cases c; cases "tl c"; auto simp: card_insert_if)+

definition imports_resolved :: "resolved_program \<Rightarrow> module_id \<Rightarrow> bool" where
  "imports_resolved p m \<longleftrightarrow> (\<forall>im \<in> set (rm_imports (rp_modules p ! m)). ri_target im \<noteq> None)"

text \<open>The modules imported without an alias and under a given one.\<close>

definition bare_imports :: "resolved_program \<Rightarrow> module_id \<Rightarrow> module_id set" where
  "bare_imports p m = {t. \<exists>im \<in> set (rm_imports (rp_modules p ! m)). ri_alias im = None \<and> ri_target im = Some t}"

lemma set_bare_targets: "set (bare_targets (rm_imports (rp_modules p ! m))) = bare_imports p m"
  by (force simp: bare_targets_def bare_imports_def)

lemma bare_imports_in_range:
  "table_in_range p \<Longrightarrow> m < length (rp_modules p) \<Longrightarrow> bare_imports p m \<subseteq> {..<length (rp_modules p)}"
  using table_in_range_target by (fastforce simp: bare_imports_def)

lemma each_visible_import_imports:
  assumes "table_in_range p" and "m < length (rp_modules p)" and "walk_ok p ev"
  shows "\<exists>found. each_visible_import (walk p ev) (rm_imports (rp_modules p ! m)) {} out = Some found \<and>
    set found = set out \<union> emitted ev ((event_edges ev)\<^sup>* `` bare_imports p m)"
  using each_visible_import_set [OF assms(3), of "rm_imports (rp_modules p ! m)" out]
    bare_imports_in_range [OF assms(1,2)] by (simp only: set_bare_targets)

lemma each_bare_import_imports:
  assumes "table_in_range p" and "m < length (rp_modules p)" and "walk_ok p ev" and "imports_resolved p m"
  shows "\<exists>found. each_bare_import (walk p ev) (rm_imports (rp_modules p ! m)) {} out = Some (Inr found) \<and>
    set found = set out \<union> emitted ev ((event_edges ev)\<^sup>* `` bare_imports p m)"
proof -
  have "\<forall>im \<in> set (rm_imports (rp_modules p ! m)). ri_alias im = None \<longrightarrow> ri_target im \<noteq> None"
    using assms(4) by (simp add: imports_resolved_def)
  from each_bare_import_run [OF this, of p ev "{}" out] show ?thesis
    using each_visible_import_imports [OF assms(1,2,3), of out] by auto
qed

text \<open>
  What a bare name can mean in a module: the first local definition, or what the modules imported
  without an alias export under this name.
\<close>

definition local_matches :: "resolved_program \<Rightarrow> module_id \<Rightarrow> string \<Rightarrow> def_kind list \<Rightarrow> def_id list" where
  "local_matches p m name kinds = filter (\<lambda>i. named name kinds (rp_defs p ! i)) (rm_defs (rp_modules p ! m))"

definition bare_meanings :: "resolved_program \<Rightarrow> module_id \<Rightarrow> string \<Rightarrow> def_kind list \<Rightarrow> def_id set" where
  "bare_meanings p m name kinds =
     (case local_matches p m name kinds of
        i # _ \<Rightarrow> {i}
      | [] \<Rightarrow> {i. \<exists>t \<in> bare_imports p m. exports p (named name kinds) t i})"

lemma local_def_first:
  assumes "table_in_range p" and "m < length (rp_modules p)"
  shows "local_def p m name kinds =
    Some (case local_matches p m name kinds of i # _ \<Rightarrow> Some i | [] \<Rightarrow> None)"
proof -
  have "find P xs = (case filter P xs of i # _ \<Rightarrow> Some i | [] \<Rightarrow> None)" for P and xs :: "def_id list"
    by (induction xs) auto
  then show ?thesis by (simp add: local_def_in_range [OF assms] local_matches_def named_def)
qed

lemma lookup_bare_candidates:
  assumes "table_in_range p" and "m < length (rp_modules p)" and "imports_resolved p m"
  shows "\<exists>c. distinct c \<and> set c = bare_meanings p m name kinds \<and>
    lookup_bare p m name kinds = Some (only_candidate name c)"
proof (cases "local_matches p m name kinds")
  case Nil
  have stops: "stops_at_own p (named name kinds) (exported_bare_defs_events p name kinds)"
    by (rule exported_bare_defs_stops [OF assms(1)])
  obtain found where found:
    "each_bare_import (exported_bare_defs p name kinds) (rm_imports (rp_modules p ! m)) {} [] = Some (Inr found)"
    "set found = {i. \<exists>t \<in> bare_imports p m. exports p (named name kinds) t i}"
    using each_bare_import_imports [OF assms(1,2) stops_at_own_walk_ok [OF assms(1) stops] assms(3), of "[]"]
    by (auto simp: exports_of_modules [OF stops] exported_bare_defs_def)
  have "set (dedup_defs found) = bare_meanings p m name kinds"
    using Nil by (simp add: found(2) bare_meanings_def)
  moreover have "lookup_bare p m name kinds = Some (only_candidate name (dedup_defs found))"
    using Nil found(1) assms(2) by (simp add: lookup_bare_def local_def_first [OF assms(1,2)])
  ultimately show ?thesis by (intro exI [of _ "dedup_defs found"]) simp
next
  case (Cons i rest)
  then show ?thesis
    by (intro exI [of _ "[i]"]) (simp add: lookup_bare_def local_def_first [OF assms(1,2)] bare_meanings_def)
qed

text \<open>
  The modules an alias can stand for: the targets of the imports of the module with this alias, and of the
  exported ones of the modules reached through bare imports and re-exports.
\<close>

definition aliases :: "resolved_program \<Rightarrow> string \<Rightarrow> module_id \<Rightarrow> module_id set" where
  "aliases p alias m =
     {t. \<exists>im \<in> set (rm_imports (rp_modules p ! m)). ri_alias im = Some alias \<and> ri_target im = Some t}"

definition exported_alias :: "resolved_program \<Rightarrow> string \<Rightarrow> module_id \<Rightarrow> module_id \<Rightarrow> bool" where
  "exported_alias p alias m t \<longleftrightarrow> m < length (rp_modules p) \<and>
     (\<exists>im \<in> set (rm_imports (rp_modules p ! m)).
        ri_exported im \<and> ri_alias im = Some alias \<and> ri_target im = Some t)"

definition alias_meanings :: "resolved_program \<Rightarrow> module_id \<Rightarrow> string \<Rightarrow> module_id set" where
  "alias_meanings p m alias = aliases p alias m \<union>
     {t. \<exists>b \<in> bare_imports p m. \<exists>k. (reexports_module p)\<^sup>*\<^sup>* b k \<and> exported_alias p alias k t}"

definition alias_target_walk :: "resolved_program \<Rightarrow> string \<Rightarrow> module_id \<Rightarrow> module_id event list option" where
  "alias_target_walk p alias m =
     map_option (\<lambda>md. alias_target_events alias (rm_imports md)) (program_module p m)"

lemma alias_target_events_sets:
  "starts (alias_target_events alias ims) = starts (reexports ims :: module_id event list)"
  "emits (alias_target_events alias ims) =
     {t. \<exists>im \<in> set ims. ri_exported im \<and> ri_alias im = Some alias \<and> ri_target im = Some t}"
  by (induction ims) (auto split: option.split)

lemma alias_target_walk_ok: "table_in_range p \<Longrightarrow> walk_ok p (alias_target_walk p alias)"
  unfolding walk_ok_def alias_target_walk_def
  by (simp add: alias_target_events_sets reexports_in_range)

lemma alias_target_walk_edges: "event_edges (alias_target_walk p alias) = {(m, t). reexports_module p m t}"
proof -
  have "(m, t) \<in> event_edges (alias_target_walk p alias) \<longleftrightarrow>
      (\<exists>body. alias_target_walk p alias m = Some body \<and> t \<in> starts body)" for m t
    by (auto simp: event_edges_def starts_def)
  moreover have "(\<exists>body. alias_target_walk p alias m = Some body \<and> t \<in> starts body) \<longleftrightarrow> reexports_module p m t" for m t
    by (auto simp: alias_target_walk_def program_module_def index_def alias_target_events_sets starts_reexports
        reexports_module_def)
  ultimately show ?thesis by auto
qed

lemma alias_target_walk_emitted:
  "emitted (alias_target_walk p alias) M = {t. \<exists>k \<in> M. exported_alias p alias k t}"
proof -
  have "emitted (alias_target_walk p alias) M =
      {t. \<exists>k \<in> M. \<exists>body. alias_target_walk p alias k = Some body \<and> t \<in> emits body}"
    by (auto simp: emitted_def emits_def)
  moreover have "(\<exists>body. alias_target_walk p alias k = Some body \<and> t \<in> emits body) \<longleftrightarrow> exported_alias p alias k t"
    for k t
    by (auto simp: alias_target_walk_def program_module_def index_def alias_target_events_sets exported_alias_def)
  ultimately show ?thesis by simp
qed

lemma own_alias_targets_resolved:
  "\<forall>im \<in> set ims. ri_target im \<noteq> None \<Longrightarrow> \<exists>own. own_alias_targets alias ims = Inr own \<and>
     set own = {t. \<exists>im \<in> set ims. ri_alias im = Some alias \<and> ri_target im = Some t}"
  by (induction ims) (auto split: option.split)

lemma visible_alias_targets_meanings:
  assumes "table_in_range p" and "m < length (rp_modules p)" and "imports_resolved p m"
  shows "if alias_meanings p m alias = {} then visible_alias_targets p m alias = Some (Inl (LE_UnknownAlias alias))
    else \<exists>ts. visible_alias_targets p m alias = Some (Inr ts) \<and> set ts = alias_meanings p m alias"
proof -
  obtain own where own: "own_alias_targets alias (rm_imports (rp_modules p ! m)) = Inr own"
      "set own = aliases p alias m"
    using own_alias_targets_resolved [of "rm_imports (rp_modules p ! m)" "alias"] assms(3)
    by (auto simp: imports_resolved_def aliases_def)
  have "exported_alias_targets p alias = walk p (alias_target_walk p alias)"
    by (simp add: exported_alias_targets_def alias_target_walk_def [abs_def])
  then obtain ts where ts:
    "each_bare_import (exported_alias_targets p alias) (rm_imports (rp_modules p ! m)) {} own = Some (Inr ts)"
    "set ts = set own \<union> emitted (alias_target_walk p alias)
       ((event_edges (alias_target_walk p alias))\<^sup>* `` bare_imports p m)"
    using each_bare_import_imports [OF assms(1,2) alias_target_walk_ok [OF assms(1)] assms(3), of "alias" own]
    by auto
  have "set ts = alias_meanings p m alias"
    unfolding ts(2) own(2) alias_target_walk_emitted alias_target_walk_edges alias_meanings_def
    by (auto simp: rtranclp_rtrancl_eq Image_iff)
  then have "set (dedup_modules ts) = alias_meanings p m alias" by simp
  moreover have "visible_alias_targets p m alias =
      Some (if dedup_modules ts = [] then Inl (LE_UnknownAlias alias) else Inr (dedup_modules ts))"
    using own(1) ts(1) assms(2) by (simp add: visible_alias_targets_def)
  ultimately show ?thesis by (metis set_empty)
qed

lemma alias_meanings_in_range:
  assumes "table_in_range p" and "m < length (rp_modules p)"
  shows "alias_meanings p m alias \<subseteq> {..<length (rp_modules p)}"
proof
  fix t assume "t \<in> alias_meanings p m alias"
  then obtain k im where "k < length (rp_modules p)" "im \<in> set (rm_imports (rp_modules p ! k))" "ri_target im = Some t"
    using assms(2) unfolding alias_meanings_def aliases_def exported_alias_def by blast
  then show "t \<in> {..<length (rp_modules p)}" using table_in_range_target [OF assms(1)] by simp
qed

lemma hidden_behind_iff:
  assumes "\<And>im t. im \<in> set ims \<Longrightarrow> ri_target im = Some t \<Longrightarrow> has t = Some (H t)"
  shows "hidden_behind has alias ims =
    Some (\<exists>im \<in> set ims. \<exists>t. ri_alias im = Some alias \<and> ri_target im = Some t \<and> H t)"
  using assms
proof (induction ims)
  case (Cons im ims)
  have "has t = Some (H t)" if "ri_target im = Some t" for t using Cons.prems [of im t] that by simp
  then show ?case using Cons by (auto split: option.split)
qed simp

lemma hidden_behind_local:
  assumes "table_in_range p" and "m < length (rp_modules p)"
  shows "hidden_behind (\<lambda>t. map_option (\<lambda>l. l \<noteq> None) (local_def p t name kinds)) alias
      (rm_imports (rp_modules p ! m)) = Some (\<exists>t \<in> aliases p alias m. local_matches p t name kinds \<noteq> [])"
proof -
  have "map_option (\<lambda>l. l \<noteq> None) (local_def p t name kinds) = Some (local_matches p t name kinds \<noteq> [])"
    if "im \<in> set (rm_imports (rp_modules p ! m))" "ri_target im = Some t" for im t
    using local_def_first [OF assms(1) table_in_range_target [OF assms that]] by (simp split: list.split)
  from hidden_behind_iff [of "rm_imports (rp_modules p ! m)", OF this] show ?thesis
    by (simp add: aliases_def) blast
qed

lemma lookup_qualified_candidates:
  assumes "table_in_range p" and "m < length (rp_modules p)" and "imports_resolved p m"
  shows "\<exists>c. distinct c \<and> set c = {i. \<exists>t \<in> alias_meanings p m alias. exports p (named name kinds) t i} \<and>
    lookup_qualified p m alias name kinds = Some
      (if alias_meanings p m alias = {} then Inl (LE_UnknownAlias alias)
       else if c = [] \<and> (\<exists>t \<in> aliases p alias m. local_matches p t name kinds \<noteq> [])
         then Inl (LE_NotExported (alias @ ''::'' @ name))
       else only_candidate (alias @ ''::'' @ name) c)"
proof (cases "alias_meanings p m alias = {}")
  case True
  then show ?thesis using visible_alias_targets_meanings [OF assms, of "alias"] assms(2)
    by (simp add: lookup_qualified_def)
next
  case False
  then obtain ts where ts: "visible_alias_targets p m alias = Some (Inr ts)" "set ts = alias_meanings p m alias"
    using visible_alias_targets_meanings [OF assms, of "alias"] by auto
  have stops: "stops_at_own p (named name kinds) (exported_bare_defs_events p name kinds)"
    by (rule exported_bare_defs_stops [OF assms(1)])
  have "set ts \<subseteq> {..<length (rp_modules p)}" using alias_meanings_in_range [OF assms(1,2)] ts(2) by simp
  from each_target_set [OF stops_at_own_walk_ok [OF assms(1) stops] this, of Nil]
  obtain found where found: "each_target (exported_bare_defs p name kinds) ts [] = Some found"
    "set found = {i. \<exists>t \<in> alias_meanings p m alias. exports p (named name kinds) t i}"
    by (auto simp: exports_of_modules [OF stops] exported_bare_defs_def ts(2))
  have "lookup_qualified p m alias name kinds = Some
      (if dedup_defs found = [] \<and> (\<exists>t \<in> aliases p alias m. local_matches p t name kinds \<noteq> [])
       then Inl (LE_NotExported (alias @ ''::'' @ name))
       else only_candidate (alias @ ''::'' @ name) (dedup_defs found))"
    using ts(1) found(1) hidden_behind_local [OF assms(1,2)] assms(2) by (simp add: lookup_qualified_def)
  then show ?thesis using False found(2) by (intro exI [of _ "dedup_defs found"]) simp
qed

section \<open>The table of a program\<close>

text \<open>
  While a module is resolved, its definitions are the segment \<open>ds\<close> at the end of the table. Identifiers
  are positions, exactly the variants have a parent, a parent is an enum of the same module, and no two
  definitions with the same parent share a name.
\<close>

definition segment_ok :: "module_id \<Rightarrow> nat \<Rightarrow> definition_record list \<Rightarrow> bool" where
  "segment_ok m base ds \<longleftrightarrow>
     map df_id ds = [base..<base + length ds] \<and>
     (\<forall>d \<in> set ds. df_module d = m \<and> (df_kind d = DK_EnumVariant \<longleftrightarrow> df_parent d \<noteq> None) \<and>
        (\<forall>e. df_parent d = Some e \<longrightarrow> (\<exists>d' \<in> set ds. df_id d' = e \<and> df_kind d' = DK_Enum))) \<and>
     distinct (map (\<lambda>d. (df_parent d, df_name d)) ds)"

definition children :: "def_id option \<Rightarrow> definition_record list \<Rightarrow> string set" where
  "children parent ds = df_name ` {d \<in> set ds. df_parent d = parent}"

definition resolving :: "module_id \<Rightarrow> definition_record list \<Rightarrow> resolve_state \<Rightarrow> definition_record list \<Rightarrow> bool" where
  "resolving m before st ds \<longleftrightarrow>
     rs_defs st = before @ ds \<and> rs_module_defs st = [length before..<length before + length ds] \<and>
     rs_local_names st = children None ds \<and> segment_ok m (length before) ds"

lemma segment_ok_snoc:
  assumes ds: "segment_ok m base ds" and fresh: "name \<notin> children parent ds"
    and parent: "kind = DK_EnumVariant \<longleftrightarrow> parent \<noteq> None"
      "\<And>e. parent = Some e \<Longrightarrow> \<exists>d \<in> set ds. df_id d = e \<and> df_kind d = DK_Enum"
  shows "segment_ok m base (ds @ [\<lparr>df_id = base + length ds, df_module = m, df_name = name, df_kind = kind,
    df_parent = parent, df_exported = exported, df_span = sp\<rparr>])"
proof -
  have "(parent, name) \<notin> (\<lambda>d. (df_parent d, df_name d)) ` set ds"
    using fresh by (auto simp: children_def)
  then show ?thesis using ds parent unfolding segment_ok_def by auto
qed

lemma children_snoc: "children parent (ds @ [d]) =
    (if df_parent d = parent then insert (df_name d) (children parent ds) else children parent ds)"
  by (auto simp: children_def)

lemma push_def_resolving:
  assumes st: "resolving m before (st\<lparr>rs_local_names := children None ds\<rparr>) ds"
    and names: "rs_local_names st = (if parent = None then insert name (children None ds) else children None ds)"
    and fresh: "name \<notin> children parent ds" and parent: "kind = DK_EnumVariant \<longleftrightarrow> parent \<noteq> None"
      "\<And>e. parent = Some e \<Longrightarrow> \<exists>d \<in> set ds. df_id d = e \<and> df_kind d = DK_Enum"
  shows "\<exists>d. fst (push_def st m name kind parent exported sp) = df_id d \<and> df_name d = name \<and> df_kind d = kind \<and>
    df_parent d = parent \<and> resolving m before (snd (push_def st m name kind parent exported sp)) (ds @ [d])"
proof -
  let ?d = "\<lparr>df_id = length before + length ds, df_module = m, df_name = name, df_kind = kind,
    df_parent = parent, df_exported = exported, df_span = sp\<rparr>"
  have "segment_ok m (length before) (ds @ [?d])"
    using st by (intro segment_ok_snoc [OF _ fresh parent]) (simp_all add: resolving_def)
  then have "resolving m before (snd (push_def st m name kind parent exported sp)) (ds @ [?d])"
    using st names by (simp add: resolving_def push_def_def Let_def children_snoc)
  moreover have "fst (push_def st m name kind parent exported sp) = df_id ?d"
    using st by (simp add: resolving_def push_def_def Let_def)
  ultimately show ?thesis by (intro exI [of _ ?d]) simp
qed

lemma push_diagnostic_resolving [simp]: "resolving m before (push_diagnostic st d) ds = resolving m before st ds"
  by (simp add: resolving_def push_diagnostic_def)

lemma add_def_resolving:
  assumes st: "resolving m before st ds" and kind: "kind \<noteq> DK_EnumVariant"
    and r: "add_def st m name kind exported sp = (r, st')"
  shows "\<exists>ds'. resolving m before st' ds' \<and>
    (\<forall>i. r = Some i \<longrightarrow> (\<exists>d \<in> set ds'. df_id d = i \<and> df_kind d = kind) \<and> children (Some i) ds' = {})"
proof (cases "name \<in> rs_local_names st")
  case True
  then show ?thesis using st r by (intro exI [of _ ds]) (auto simp: add_def_def)
next
  case False
  let ?st = "st\<lparr>rs_local_names := insert name (rs_local_names st)\<rparr>"
  have names: "rs_local_names st = children None ds" and seg: "segment_ok m (length before) ds"
    using st by (simp_all add: resolving_def)
  have "resolving m before (?st\<lparr>rs_local_names := children None ds\<rparr>) ds" using st by (simp add: resolving_def)
  from push_def_resolving [OF this, of None name kind exported sp] False kind names
  obtain d where d: "fst (push_def ?st m name kind None exported sp) = df_id d" "df_kind d = kind" "df_parent d = None"
    "resolving m before (snd (push_def ?st m name kind None exported sp)) (ds @ [d])" by auto
  have new: "r = Some (df_id d)" "st' = snd (push_def ?st m name kind None exported sp)"
    using False r d(1) by (auto simp: add_def_def split: prod.splits)
  have "df_id d = length before + length ds" using d(4) by (auto simp: resolving_def segment_ok_def)
  moreover have "df_id d' < length before + length ds" if "d' \<in> set ds" for d'
  proof -
    have "df_id d' \<in> set (map df_id ds)" using that by simp
    then show ?thesis using seg by (simp add: segment_ok_def del: set_map)
  qed
  ultimately have "df_parent d' \<noteq> Some (df_id d)" if "d' \<in> set ds" for d'
    using seg that unfolding segment_ok_def by (metis less_irrefl)
  then have "children (Some (df_id d)) (ds @ [d]) = {}" using d(3) by (auto simp: children_def)
  then show ?thesis using d new by (intro exI [of _ "ds @ [d]"]) auto
qed

lemma resolve_variants_resolving:
  assumes "resolving m before st ds" and "\<exists>d \<in> set ds. df_id d = e \<and> df_kind d = DK_Enum"
    and "children (Some e) ds \<subseteq> seen"
  shows "\<exists>ds'. resolving m before (resolve_variants m exported e enum_name vs seen st) ds'"
  using assms
proof (induction vs arbitrary: seen st ds)
  case (Cons v vs)
  let ?name = "ident_name (vd_name v)"
  show ?case
  proof (cases "?name \<in> seen")
    case True
    then show ?thesis using Cons.IH [of _ ds seen] Cons.prems by simp
  next
    case False
    have "resolving m before (st\<lparr>rs_local_names := children None ds\<rparr>) ds" and "rs_local_names st = children None ds"
      using Cons.prems(1) by (simp_all add: resolving_def)
    from push_def_resolving [OF this(1), of "Some e" ?name DK_EnumVariant exported "ident_span (vd_name v)"] this(2)
    obtain d where d: "df_name d = ?name" "df_parent d = Some e"
      "resolving m before (snd (add_variant_def st m e ?name exported (ident_span (vd_name v)))) (ds @ [d])"
      using False Cons.prems(2,3) by (auto simp: add_variant_def_def)
    have "children (Some e) (ds @ [d]) \<subseteq> insert ?name seen" using Cons.prems(3) d(1) by (auto simp: children_snoc)
    then show ?thesis using Cons.IH [OF d(3)] Cons.prems(2) False by simp
  qed
qed auto

lemma add_def_keeps_resolving:
  "resolving m before st ds \<Longrightarrow> kind \<noteq> DK_EnumVariant \<Longrightarrow>
     \<exists>ds'. resolving m before (snd (add_def st m name kind exported sp)) ds'"
  using add_def_resolving [of m before st ds kind name exported sp] by (metis prod.collapse)

lemma resolve_extern_item_resolving:
  "resolving m before st ds \<Longrightarrow> \<exists>ds'. resolving m before (resolve_extern_item m exported it st) ds'"
  by (cases it) (simp_all add: add_def_keeps_resolving)

lemma fold_resolving:
  assumes "\<And>x st ds. resolving m before st ds \<Longrightarrow> \<exists>ds'. resolving m before (f x st) ds'"
    and "resolving m before st ds"
  shows "\<exists>ds'. resolving m before (fold f xs st) ds'"
  using assms(2)
proof (induction xs arbitrary: st ds)
  case (Cons x xs)
  obtain ds1 where "resolving m before (f x st) ds1" using assms(1) [OF Cons.prems] by blast
  then show ?case using Cons.IH by simp
qed auto

lemma resolve_item_resolving:
  assumes "resolving m before st ds"
  shows "\<exists>ds'. resolving m before (resolve_item m it st) ds'"
proof (cases "item_kind it")
  case (IK_Enum decl)
  obtain r st1 where add: "add_def st m (ident_name (ed_name decl)) DK_Enum (item_export it)
      (ident_span (ed_name decl)) = (r, st1)" by fastforce
  from add_def_resolving [OF assms _ add] obtain ds1 where ds1: "resolving m before st1 ds1"
    "\<forall>i. r = Some i \<longrightarrow> (\<exists>d \<in> set ds1. df_id d = i \<and> df_kind d = DK_Enum) \<and> children (Some i) ds1 = {}" by auto
  show ?thesis
  proof (cases r)
    case None
    then show ?thesis using IK_Enum add ds1 by (auto simp: resolve_item_def)
  next
    case (Some e)
    then have "\<exists>d \<in> set ds1. df_id d = e \<and> df_kind d = DK_Enum" "children (Some e) ds1 \<subseteq> {}" using ds1(2) by auto
    from resolve_variants_resolving [OF ds1(1) this] show ?thesis
      using IK_Enum add Some by (simp add: resolve_item_def)
  qed
next
  case (IK_ExternBlock eblock)
  then show ?thesis using fold_resolving [OF resolve_extern_item_resolving assms] by (simp add: resolve_item_def)
next
  case (IK_Impl decl)
  then show ?thesis using assms
    by (auto simp: resolve_item_def push_impl_def resolving_def split: option.split)
next
  case (IK_DerivableImpl decl)
  then show ?thesis using assms
    by (auto simp: resolve_item_def push_impl_def resolving_def split: option.split)
next
  case (IK_Import decl)
  then show ?thesis using assms
    by (auto simp: resolve_item_def resolving_def Let_def split: list.split)
qed (use assms in \<open>auto simp: resolve_item_def intro: add_def_keeps_resolving\<close>)

text \<open>One segment per module, in the order of the modules.\<close>

definition module_segment :: "resolved_module \<Rightarrow> definition_record list \<Rightarrow> bool" where
  "module_segment rm ds \<longleftrightarrow> rm_defs rm = map df_id ds \<and> (\<exists>base. segment_ok (rm_id rm) base ds)"

lemma module_segment_imports [simp]: "module_segment (rm\<lparr>rm_imports := ims\<rparr>) ds = module_segment rm ds"
  by (simp add: module_segment_def)

lemma resolve_module_segment:
  assumes "resolve_module md st = (rm, st')"
  shows "rm_id rm = pm_id md \<and> rm_path rm = pm_path md \<and>
    (\<exists>ds. module_segment rm ds \<and> rs_defs st' = rs_defs st @ ds \<and>
      map df_id ds = [length (rs_defs st)..<length (rs_defs st')])"
proof -
  let ?st = "st\<lparr>rs_module_defs := [], rs_imports := [], rs_local_names := {}, rs_import_paths := pm_import_paths md\<rparr>"
  have "resolving (pm_id md) (rs_defs st) ?st []"
    by (simp add: resolving_def children_def segment_ok_def)
  then have "\<exists>ds. resolving (pm_id md) (rs_defs st) (fold (resolve_item (pm_id md)) (af_items (pm_ast md)) ?st) ds"
    by (rule fold_resolving [rotated]) (rule resolve_item_resolving)
  then obtain ds where
    ds: "resolving (pm_id md) (rs_defs st) (fold (resolve_item (pm_id md)) (af_items (pm_ast md)) ?st) ds" by blast
  then show ?thesis using assms
    by (auto simp: resolve_module_def Let_def resolving_def module_segment_def segment_ok_def intro!: exI [of _ ds])
qed

lemma resolve_each_segments:
  "resolve_each mds st = (rms, st') \<Longrightarrow> map rm_id rms = map pm_id mds \<and> map rm_path rms = map pm_path mds \<and>
     (\<exists>dss. list_all2 module_segment rms dss \<and> rs_defs st' = rs_defs st @ concat dss \<and>
       map df_id (concat dss) = [length (rs_defs st)..<length (rs_defs st')])"
proof (induction mds arbitrary: st rms)
  case (Cons md mds)
  obtain rm st1 rms1 where first: "resolve_module md st = (rm, st1)" and rest: "resolve_each mds st1 = (rms1, st')"
    and rms: "rms = rm # rms1"
    using Cons.prems by (auto simp: Let_def split: prod.splits)
  from resolve_module_segment [OF first] obtain ds where ds: "module_segment rm ds" "rs_defs st1 = rs_defs st @ ds"
    "map df_id ds = [length (rs_defs st)..<length (rs_defs st1)]" by blast
  from Cons.IH [OF rest] obtain dss where dss: "list_all2 module_segment rms1 dss"
    "rs_defs st' = rs_defs st1 @ concat dss" "map df_id (concat dss) = [length (rs_defs st1)..<length (rs_defs st')]" by blast
  have "list_all2 module_segment rms (ds # dss)" using ds(1) dss(1) by (simp add: rms)
  moreover have "rs_defs st' = rs_defs st @ concat (ds # dss)" using ds(2) dss(2) by simp
  moreover have "map df_id (concat (ds # dss)) = [length (rs_defs st)..<length (rs_defs st')]"
    using ds(2,3) dss(2,3) upt_add_eq_append [of "length (rs_defs st)" "length (rs_defs st1)" "length (concat dss)"]
    by (simp add: add.assoc)
  moreover have "map rm_id rms = map pm_id (md # mds)" "map rm_path rms = map pm_path (md # mds)"
    using resolve_module_segment [OF first] Cons.IH [OF rest] by (simp_all add: rms)
  ultimately show ?case by blast
qed auto

definition wf_program :: "resolved_program \<Rightarrow> bool" where
  "wf_program p \<longleftrightarrow> table_in_range p \<and>
     (\<forall>m < length (rp_modules p). rm_id (rp_modules p ! m) = m \<and>
        (\<forall>i < length (rp_defs p). i \<in> set (rm_defs (rp_modules p ! m)) \<longleftrightarrow> df_module (rp_defs p ! i) = m)) \<and>
     (\<forall>i < length (rp_defs p). df_id (rp_defs p ! i) = i \<and> df_module (rp_defs p ! i) < length (rp_modules p) \<and>
        (df_kind (rp_defs p ! i) = DK_EnumVariant \<longleftrightarrow> df_parent (rp_defs p ! i) \<noteq> None) \<and>
        (\<forall>e. df_parent (rp_defs p ! i) = Some e \<longrightarrow> e < length (rp_defs p) \<and> df_kind (rp_defs p ! e) = DK_Enum \<and>
           df_module (rp_defs p ! e) = df_module (rp_defs p ! i))) \<and>
     (\<forall>i < length (rp_defs p). \<forall>j < length (rp_defs p). df_module (rp_defs p ! i) = df_module (rp_defs p ! j) \<longrightarrow>
        df_parent (rp_defs p ! i) = df_parent (rp_defs p ! j) \<longrightarrow> df_name (rp_defs p ! i) = df_name (rp_defs p ! j) \<longrightarrow>
        i = j)"

text \<open>What the segments say of a table \<open>defs\<close> whose identifiers are positions.\<close>

lemma segments_nth:
  assumes seg: "list_all2 module_segment rms dss" and ids: "map rm_id rms = [0..<length rms]"
    and defs: "map df_id (concat dss) = [0..<length (concat dss)]" and i: "i < length (concat dss)"
  shows "df_id (concat dss ! i) = i"
    and "df_module (concat dss ! i) < length rms"
    and "concat dss ! i \<in> set (dss ! df_module (concat dss ! i))"
proof -
  have "map df_id (concat dss) ! i = i" using defs i by simp
  then show "df_id (concat dss ! i) = i" using i by simp
  obtain k where k: "k < length dss" "concat dss ! i \<in> set (dss ! k)"
    using nth_mem [OF i] by (metis UN_E in_set_conv_nth set_concat)
  then have "module_segment (rms ! k) (dss ! k)" and "k < length rms"
    using seg by (auto simp: list_all2_conv_all_nth)
  moreover have "rm_id (rms ! k) = k" using ids \<open>k < length rms\<close> by (metis add_0 nth_map nth_upt)
  ultimately have "df_module (concat dss ! i) = k"
    using k(2) by (auto simp: module_segment_def segment_ok_def)
  then show "df_module (concat dss ! i) < length rms" "concat dss ! i \<in> set (dss ! df_module (concat dss ! i))"
    using k(2) \<open>k < length rms\<close> by simp_all
qed

lemma positions_nth:
  assumes "map df_id defs = [0..<length defs]" and "d \<in> set defs"
  shows "df_id d < length defs" and "defs ! df_id d = d"
proof -
  obtain k where k: "k < length defs" "d = defs ! k" using assms(2) by (auto simp: in_set_conv_nth)
  have "map df_id defs ! k = k" using assms(1) k(1) by simp
  then have "df_id d = k" using k by simp
  then show "df_id d < length defs" "defs ! df_id d = d" using k by simp_all
qed

lemma segment_at:
  assumes "list_all2 module_segment rms dss" and "map rm_id rms = [0..<length rms]" and "m < length rms"
  shows "\<exists>base. segment_ok m base (dss ! m)" and "rm_defs (rms ! m) = map df_id (dss ! m)"
    and "set (dss ! m) \<subseteq> set (concat dss)"
proof -
  have "rm_id (rms ! m) = m" using assms(2,3) by (metis add_0 nth_map nth_upt)
  then show "\<exists>base. segment_ok m base (dss ! m)" "rm_defs (rms ! m) = map df_id (dss ! m)"
    using list_all2_nthD [OF assms(1,3)] by (auto simp: module_segment_def)
  have "dss ! m \<in> set dss" using assms(1,3) by (simp add: list_all2_conv_all_nth)
  then show "set (dss ! m) \<subseteq> set (concat dss)" by auto
qed

definition segmented :: "resolved_program \<Rightarrow> definition_record list list \<Rightarrow> bool" where
  "segmented p dss \<longleftrightarrow> list_all2 module_segment (rp_modules p) dss \<and>
     map rm_id (rp_modules p) = [0..<length (rp_modules p)] \<and> rp_defs p = concat dss \<and>
     map df_id (rp_defs p) = [0..<length (rp_defs p)]"

lemma segmented_module:
  assumes "segmented p dss" and "m < length (rp_modules p)"
  shows "\<exists>base. segment_ok m base (dss ! m)" and "rm_defs (rp_modules p ! m) = map df_id (dss ! m)"
    and "rm_id (rp_modules p ! m) = m"
    and "d \<in> set (dss ! m) \<Longrightarrow> df_id d < length (rp_defs p) \<and> rp_defs p ! df_id d = d"
proof -
  have seg: "list_all2 module_segment (rp_modules p) dss"
    and ids: "map rm_id (rp_modules p) = [0..<length (rp_modules p)]"
    and defs: "rp_defs p = concat dss" "map df_id (rp_defs p) = [0..<length (rp_defs p)]"
    using assms(1) unfolding segmented_def by blast+
  show "\<exists>base. segment_ok m base (dss ! m)" "rm_defs (rp_modules p ! m) = map df_id (dss ! m)"
    by (rule segment_at [OF seg ids assms(2)])+
  show "rm_id (rp_modules p ! m) = m" using ids assms(2) by (metis add_0 nth_map nth_upt)
  assume "d \<in> set (dss ! m)"
  then have "d \<in> set (rp_defs p)" using segment_at(3) [OF seg ids assms(2)] defs(1) by auto
  then show "df_id d < length (rp_defs p) \<and> rp_defs p ! df_id d = d" using positions_nth [OF defs(2)] by simp
qed

lemma segmented_def_at:
  assumes "segmented p dss" and "i < length (rp_defs p)"
  shows "df_id (rp_defs p ! i) = i" and "df_module (rp_defs p ! i) < length (rp_modules p)"
    and "rp_defs p ! i \<in> set (dss ! df_module (rp_defs p ! i))"
proof -
  have seg: "list_all2 module_segment (rp_modules p) dss"
    and ids: "map rm_id (rp_modules p) = [0..<length (rp_modules p)]"
    and defs: "rp_defs p = concat dss" "map df_id (rp_defs p) = [0..<length (rp_defs p)]"
    using assms(1) unfolding segmented_def by blast+
  note nth = segments_nth [OF seg ids defs(2) [unfolded defs(1)] assms(2) [unfolded defs(1)], folded defs(1)]
  show "df_id (rp_defs p ! i) = i" "df_module (rp_defs p ! i) < length (rp_modules p)"
    "rp_defs p ! i \<in> set (dss ! df_module (rp_defs p ! i))" by (fact nth)+
qed

lemma segmented_member:
  assumes p: "segmented p dss" and m: "m < length (rp_modules p)" and i: "i < length (rp_defs p)"
  shows "i \<in> set (rm_defs (rp_modules p ! m)) \<longleftrightarrow> df_module (rp_defs p ! i) = m"
proof
  assume "i \<in> set (rm_defs (rp_modules p ! m))"
  then obtain d where d: "d \<in> set (dss ! m)" "i = df_id d" using segmented_module(2) [OF p m] by auto
  then have "rp_defs p ! i = d" using segmented_module(4) [OF p m] by simp
  then show "df_module (rp_defs p ! i) = m" using segmented_module(1) [OF p m] d(1) by (auto simp: segment_ok_def)
next
  assume "df_module (rp_defs p ! i) = m"
  then have "rp_defs p ! i \<in> set (dss ! m)" using segmented_def_at(3) [OF p i] by simp
  then show "i \<in> set (rm_defs (rp_modules p ! m))"
    using segmented_module(2) [OF p m] segmented_def_at(1) [OF p i] by (metis image_eqI set_map)
qed

lemma segmented_parent:
  assumes p: "segmented p dss" and i: "i < length (rp_defs p)"
  shows "df_kind (rp_defs p ! i) = DK_EnumVariant \<longleftrightarrow> df_parent (rp_defs p ! i) \<noteq> None"
    and "df_parent (rp_defs p ! i) = Some e \<Longrightarrow> e < length (rp_defs p) \<and> df_kind (rp_defs p ! e) = DK_Enum \<and>
      df_module (rp_defs p ! e) = df_module (rp_defs p ! i)"
proof -
  note m = segmented_def_at(2) [OF p i]
  obtain base where "segment_ok (df_module (rp_defs p ! i)) base (dss ! df_module (rp_defs p ! i))"
    using segmented_module(1) [OF p m] by blast
  note d = this [unfolded segment_ok_def, THEN conjunct2, THEN conjunct1, rule_format]
  show "df_kind (rp_defs p ! i) = DK_EnumVariant \<longleftrightarrow> df_parent (rp_defs p ! i) \<noteq> None"
    using d [OF segmented_def_at(3) [OF p i]] by (elim conjE)
  assume "df_parent (rp_defs p ! i) = Some e"
  then obtain d' where d': "d' \<in> set (dss ! df_module (rp_defs p ! i))" "df_id d' = e" "df_kind d' = DK_Enum"
    using d [OF segmented_def_at(3) [OF p i]] by blast
  then have "e < length (rp_defs p)" "rp_defs p ! e = d'" using segmented_module(4) [OF p m d'(1)] by simp_all
  then show "e < length (rp_defs p) \<and> df_kind (rp_defs p ! e) = DK_Enum \<and>
      df_module (rp_defs p ! e) = df_module (rp_defs p ! i)"
    using d'(3) d [OF d'(1)] by simp
qed

lemma segmented_unique:
  assumes p: "segmented p dss" and i: "i < length (rp_defs p)" and j: "j < length (rp_defs p)"
    and same: "df_module (rp_defs p ! i) = df_module (rp_defs p ! j)"
      "df_parent (rp_defs p ! i) = df_parent (rp_defs p ! j)" "df_name (rp_defs p ! i) = df_name (rp_defs p ! j)"
  shows "i = j"
proof -
  have "inj_on (\<lambda>d. (df_parent d, df_name d)) (set (dss ! df_module (rp_defs p ! i)))"
    using segmented_module(1) [OF p segmented_def_at(2) [OF p i]] by (auto simp: segment_ok_def distinct_map)
  moreover have "(df_parent (rp_defs p ! i), df_name (rp_defs p ! i)) = (df_parent (rp_defs p ! j), df_name (rp_defs p ! j))"
    by (simp only: same(2,3))
  moreover have "rp_defs p ! j \<in> set (dss ! df_module (rp_defs p ! i))"
    unfolding same(1) by (rule segmented_def_at(3) [OF p j])
  ultimately have "rp_defs p ! i = rp_defs p ! j" by (rule inj_onD [OF _ _ segmented_def_at(3) [OF p i]])
  then have "df_id (rp_defs p ! i) = df_id (rp_defs p ! j)" by (rule arg_cong)
  then show ?thesis by (simp only: segmented_def_at(1) [OF p i] segmented_def_at(1) [OF p j])
qed

lemma segmented_wf:
  assumes p: "segmented p dss"
    and targets: "\<And>md im t. md \<in> set (rp_modules p) \<Longrightarrow> im \<in> set (rm_imports md) \<Longrightarrow> ri_target im = Some t \<Longrightarrow>
      t < length (rp_modules p)"
  shows "wf_program p"
proof -
  have range: "table_in_range p"
    unfolding table_in_range_def
  proof (intro ballI conjI allI impI)
    fix md i assume "md \<in> set (rp_modules p)" and i: "i \<in> set (rm_defs md)"
    then obtain m where m: "m < length (rp_modules p)" "md = rp_modules p ! m" by (metis in_set_conv_nth)
    then obtain d where "d \<in> set (dss ! m)" "i = df_id d" using i segmented_module(2) [OF p m(1)] by auto
    then show "i < length (rp_defs p)" using segmented_module(4) [OF p m(1)] by simp
  qed (rule targets)
  have modules: "\<forall>m < length (rp_modules p). rm_id (rp_modules p ! m) = m \<and>
      (\<forall>i < length (rp_defs p). i \<in> set (rm_defs (rp_modules p ! m)) \<longleftrightarrow> df_module (rp_defs p ! i) = m)"
    by (simp add: segmented_module(3) [OF p] segmented_member [OF p])
  have defs: "df_id (rp_defs p ! i) = i \<and> df_module (rp_defs p ! i) < length (rp_modules p) \<and>
      (df_kind (rp_defs p ! i) = DK_EnumVariant \<longleftrightarrow> df_parent (rp_defs p ! i) \<noteq> None) \<and>
      (\<forall>e. df_parent (rp_defs p ! i) = Some e \<longrightarrow> e < length (rp_defs p) \<and> df_kind (rp_defs p ! e) = DK_Enum \<and>
         df_module (rp_defs p ! e) = df_module (rp_defs p ! i))" if i: "i < length (rp_defs p)" for i
    using segmented_def_at(1,2) [OF p i] segmented_parent [OF p i] by blast
  have unique: "\<forall>i < length (rp_defs p). \<forall>j < length (rp_defs p). df_module (rp_defs p ! i) = df_module (rp_defs p ! j) \<longrightarrow>
      df_parent (rp_defs p ! i) = df_parent (rp_defs p ! j) \<longrightarrow> df_name (rp_defs p ! i) = df_name (rp_defs p ! j) \<longrightarrow>
      i = j"
    by (intro allI impI) (rule segmented_unique [OF p])
  show ?thesis unfolding wf_program_def
    by (rule conjI [OF range conjI [OF modules conjI [OF _ unique]]]) (use defs in blast)
qed

lemma path_to_id_in_range: "path_to_id rms path = Some t \<Longrightarrow> t \<in> rm_id ` set rms"
  unfolding path_to_id_def by (drule map_of_SomeD) auto

lemma resolve_modules_lossy_wf:
  assumes "map pm_id mds = [0..<length mds]"
  shows "wf_program (fst (resolve_modules_lossy mds))" and "length (rp_modules (fst (resolve_modules_lossy mds))) = length mds"
proof -
  obtain rms st where each: "resolve_each mds empty_resolve_state = (rms, st)" by fastforce
  let ?p = "fst (resolve_modules_lossy mds)"
  let ?mds = "map (\<lambda>md. md\<lparr>rm_imports := map (resolve_target (path_to_id rms)) (rm_imports md)\<rparr>) rms"
  have p: "?p = \<lparr>rp_modules = ?mds, rp_defs = rs_defs st, rp_impls = rs_impls st\<rparr>"
    by (simp add: resolve_modules_lossy_def each resolve_import_targets_def Let_def)
  from resolve_each_segments [OF each] obtain dss where ids: "map rm_id rms = map pm_id mds"
    and dss: "list_all2 module_segment rms dss" "rs_defs st = concat dss" "map df_id (rs_defs st) = [0..<length (rs_defs st)]"
    by (auto simp: empty_resolve_state_def)
  have len: "length rms = length mds" using ids by (metis length_map)
  then show "length (rp_modules ?p) = length mds" by (simp add: p)
  show "wf_program ?p"
  proof (rule segmented_wf)
    show "segmented ?p dss"
      unfolding segmented_def using dss ids assms len by (simp add: p list_all2_map1 comp_def)
    fix md im t assume "md \<in> set (rp_modules ?p)" "im \<in> set (rm_imports md)" "ri_target im = Some t"
    then have "t \<in> rm_id ` set rms" using path_to_id_in_range by (fastforce simp: p resolve_target_def)
    then have "t \<in> set (map rm_id rms)" by simp
    then show "t < length (rp_modules ?p)" using ids assms len by (simp add: p del: set_map)
  qed
qed

section \<open>Acceptance\<close>

definition item_variants :: "item \<Rightarrow> string list" where
  "item_variants it = (case item_kind it of IK_Enum decl \<Rightarrow> map (\<lambda>v. ident_name (vd_name v)) (ed_variants decl) | _ \<Rightarrow> [])"

definition quiet :: "resolve_state \<Rightarrow> bool" where
  "quiet st \<longleftrightarrow> rs_diagnostics st = []"

lemma quiet_updates [simp]:
  "quiet (st\<lparr>rs_imports := ims, rs_import_paths := paths\<rparr>) = quiet st"
  "quiet (push_impl m it name st) = quiet st" "rs_local_names (push_impl m it name st) = rs_local_names st"
  by (auto simp: quiet_def push_impl_def split: option.split)

lemma add_def_quiet:
  "quiet (snd (add_def st m name kind exported sp)) \<longleftrightarrow> quiet st \<and> name \<notin> rs_local_names st"
  "rs_local_names (snd (add_def st m name kind exported sp)) = insert name (rs_local_names st)"
  by (auto simp: quiet_def add_def_def push_def_def push_diagnostic_def Let_def)

lemma resolve_variants_quiet:
  "quiet (resolve_variants m exported e enum_name vs seen st) \<longleftrightarrow>
     quiet st \<and> distinct (map (\<lambda>v. ident_name (vd_name v)) vs) \<and> (\<lambda>v. ident_name (vd_name v)) ` set vs \<inter> seen = {}"
  "rs_local_names (resolve_variants m exported e enum_name vs seen st) = rs_local_names st"
  by (induction vs arbitrary: seen st)
    (auto simp: quiet_def push_diagnostic_def add_variant_def_def push_def_def Let_def)

lemma resolve_extern_item_quiet:
  "quiet (resolve_extern_item m exported it st) \<longleftrightarrow> quiet st \<and> extern_item_name it \<notin> rs_local_names st"
  "rs_local_names (resolve_extern_item m exported it st) = insert (extern_item_name it) (rs_local_names st)"
  by (cases it; simp add: add_def_quiet)+

lemma resolve_extern_items_quiet:
  "(quiet (fold (resolve_extern_item m exported) its st) \<longleftrightarrow>
      quiet st \<and> distinct (map extern_item_name its) \<and> extern_item_name ` set its \<inter> rs_local_names st = {}) \<and>
   rs_local_names (fold (resolve_extern_item m exported) its st) = extern_item_name ` set its \<union> rs_local_names st"
  by (induction its arbitrary: st) (auto simp: resolve_extern_item_quiet)

lemma resolve_item_quiet:
  "quiet (resolve_item m it st) \<longleftrightarrow> quiet st \<and> distinct (item_declared_names it) \<and> distinct (item_variants it) \<and>
     set (item_declared_names it) \<inter> rs_local_names st = {}"
  "rs_local_names (resolve_item m it st) = set (item_declared_names it) \<union> rs_local_names st"
proof -
  have "(quiet (resolve_item m it st) \<longleftrightarrow> quiet st \<and> distinct (item_declared_names it) \<and> distinct (item_variants it) \<and>
     set (item_declared_names it) \<inter> rs_local_names st = {}) \<and>
     rs_local_names (resolve_item m it st) = set (item_declared_names it) \<union> rs_local_names st"
  proof (cases "item_kind it")
    case (IK_Enum decl)
    obtain r st1 where add: "add_def st m (ident_name (ed_name decl)) DK_Enum (item_export it)
        (ident_span (ed_name decl)) = (r, st1)" by fastforce
    have "quiet st1 \<longleftrightarrow> quiet st \<and> ident_name (ed_name decl) \<notin> rs_local_names st"
      "rs_local_names st1 = insert (ident_name (ed_name decl)) (rs_local_names st)"
      using add_def_quiet [of st m "ident_name (ed_name decl)" DK_Enum "item_export it" "ident_span (ed_name decl)"]
      by (simp_all add: add)
    moreover have "r = None \<longleftrightarrow> ident_name (ed_name decl) \<in> rs_local_names st"
      using add by (auto simp: add_def_def split: if_splits prod.splits)
    ultimately show ?thesis using IK_Enum add
      by (cases r) (auto simp: resolve_item_def resolve_variants_quiet item_declared_names_def item_variants_def)
  next
    case (IK_ExternBlock eblock)
    then show ?thesis
      by (auto simp: resolve_item_def resolve_extern_items_quiet item_declared_names_def item_variants_def)
  qed (auto simp: resolve_item_def add_def_quiet item_declared_names_def item_variants_def Let_def split: list.split)
  then show "quiet (resolve_item m it st) \<longleftrightarrow> quiet st \<and> distinct (item_declared_names it) \<and> distinct (item_variants it) \<and>
     set (item_declared_names it) \<inter> rs_local_names st = {}"
    "rs_local_names (resolve_item m it st) = set (item_declared_names it) \<union> rs_local_names st" by blast+
qed

lemma resolve_items_quiet:
  "quiet (fold (resolve_item m) its st) \<longleftrightarrow> quiet st \<and> distinct (concat (map item_declared_names its)) \<and>
     (\<forall>it \<in> set its. distinct (item_variants it)) \<and>
     set (concat (map item_declared_names its)) \<inter> rs_local_names st = {}"
  by (induction its arbitrary: st) (auto simp: resolve_item_quiet)

text \<open>The file an import item stands for: the paths are used up in order, and default to the empty path.\<close>

fun is_import :: "item_kind \<Rightarrow> bool" where
  "is_import (IK_Import _) = True"
| "is_import _ = False"

definition import_count :: "item list \<Rightarrow> nat" where
  "import_count its = length (filter (\<lambda>it. is_import (item_kind it)) its)"

fun take_paths :: "nat \<Rightarrow> path_buf list \<Rightarrow> path_buf list" where
  "take_paths 0 paths = []"
| "take_paths (Suc n) [] = [] # take_paths n []"
| "take_paths (Suc n) (path # paths) = path # take_paths n paths"

definition import_files :: "parsed_module \<Rightarrow> path_buf list" where
  "import_files md = take_paths (import_count (af_items (pm_ast md))) (pm_import_paths md)"

lemma add_def_imports:
  "rs_imports (snd (add_def st m name kind exported sp)) = rs_imports st"
  "rs_import_paths (snd (add_def st m name kind exported sp)) = rs_import_paths st"
  by (auto simp: add_def_def push_def_def push_diagnostic_def Let_def)

lemma resolve_variants_imports:
  "rs_imports (resolve_variants m exported e enum_name vs seen st) = rs_imports st \<and>
   rs_import_paths (resolve_variants m exported e enum_name vs seen st) = rs_import_paths st"
  by (induction vs arbitrary: seen st) (simp_all add: push_diagnostic_def add_variant_def_def push_def_def Let_def)

lemma resolve_extern_items_imports:
  "rs_imports (fold (resolve_extern_item m exported) its st) = rs_imports st \<and>
   rs_import_paths (fold (resolve_extern_item m exported) its st) = rs_import_paths st"
proof (induction its arbitrary: st)
  case (Cons it its)
  then show ?case by (cases it) (simp_all add: add_def_imports)
qed simp

lemma resolve_item_imports:
  assumes "\<not> is_import (item_kind it)"
  shows "rs_imports (resolve_item m it st) = rs_imports st \<and> rs_import_paths (resolve_item m it st) = rs_import_paths st"
proof (cases "item_kind it")
  case (IK_Enum decl)
  obtain r st1 where add: "add_def st m (ident_name (ed_name decl)) DK_Enum (item_export it)
      (ident_span (ed_name decl)) = (r, st1)" by fastforce
  have "rs_imports st1 = rs_imports st" "rs_import_paths st1 = rs_import_paths st"
    using add_def_imports [of st m "ident_name (ed_name decl)" DK_Enum "item_export it" "ident_span (ed_name decl)"]
    by (simp_all add: add)
  then show ?thesis using IK_Enum add by (cases r) (simp_all add: resolve_item_def resolve_variants_imports)
qed (use assms in \<open>auto simp: resolve_item_def add_def_imports resolve_extern_items_imports push_impl_def
      split: option.split\<close>)

lemma resolve_items_imports:
  "map ri_resolved_path (rs_imports (fold (resolve_item m) its st)) =
     map ri_resolved_path (rs_imports st) @ take_paths (import_count its) (rs_import_paths st)"
proof (induction its arbitrary: st)
  case (Cons it its)
  note IH = Cons.IH [of "resolve_item m it st"]
  show ?case
  proof (cases "is_import (item_kind it)")
    case True
    then obtain decl where "item_kind it = IK_Import decl" by (cases "item_kind it") auto
    then show ?thesis using IH
      by (cases "rs_import_paths st") (simp_all add: resolve_item_def import_count_def)
  next
    case False
    then show ?thesis using IH resolve_item_imports [OF False, of m st] by (simp add: import_count_def)
  qed
qed (simp add: import_count_def)

lemma resolve_module_imports:
  "map ri_resolved_path (rm_imports (fst (resolve_module md st))) = import_files md"
  by (simp add: resolve_module_def Let_def resolve_items_imports import_files_def)

text \<open>A module without duplicates: of declared names, and of variants within an enum.\<close>

definition no_duplicates :: "parsed_module \<Rightarrow> bool" where
  "no_duplicates md \<longleftrightarrow> distinct (concat (map item_declared_names (af_items (pm_ast md)))) \<and>
     (\<forall>it \<in> set (af_items (pm_ast md)). distinct (item_variants it))"

lemma resolve_module_quiet: "quiet (snd (resolve_module md st)) \<longleftrightarrow> quiet st \<and> no_duplicates md"
proof -
  have "quiet (st\<lparr>rs_module_defs := [], rs_imports := [], rs_local_names := {}, rs_import_paths := paths\<rparr>) = quiet st"
    for paths by (simp add: quiet_def)
  then show ?thesis by (simp add: resolve_module_def Let_def resolve_items_quiet no_duplicates_def)
qed

lemma resolve_each_quiet:
  "resolve_each mds st = (rms, st') \<Longrightarrow>
     (quiet st' \<longleftrightarrow> quiet st \<and> (\<forall>md \<in> set mds. no_duplicates md)) \<and>
     map (\<lambda>rm. map ri_resolved_path (rm_imports rm)) rms = map import_files mds"
proof (induction mds arbitrary: st rms)
  case (Cons md mds)
  obtain rm st1 rms1 where first: "resolve_module md st = (rm, st1)" and rest: "resolve_each mds st1 = (rms1, st')"
    and rms: "rms = rm # rms1"
    using Cons.prems by (auto simp: Let_def split: prod.splits)
  show ?case using Cons.IH [OF rest] resolve_module_quiet [of md st] resolve_module_imports [of md st]
    by (simp add: first rms)
qed auto

lemma path_to_id_None:
  "path_to_id rms path = None \<longleftrightarrow> path_components path \<notin> (\<lambda>rm. path_components (rm_path rm)) ` set rms"
  by (simp add: path_to_id_def map_of_eq_None_iff image_image)

definition imports_loaded :: "parsed_module list \<Rightarrow> bool" where
  "imports_loaded mds \<longleftrightarrow> (\<forall>md \<in> set mds. \<forall>path \<in> set (import_files md).
     \<exists>md' \<in> set mds. path_components (pm_path md') = path_components path)"

lemma resolve_modules_lossy_diagnostics:
  assumes "resolve_each mds empty_resolve_state = (rms, st)"
  shows "snd (resolve_modules_lossy mds) = [] \<longleftrightarrow> rs_diagnostics st = [] \<and>
    (\<forall>rm \<in> set rms. \<forall>im \<in> set (rm_imports rm). path_to_id rms (ri_resolved_path im) \<noteq> None)"
proof -
  have "unresolved_import ids im = [] \<longleftrightarrow> ids (ri_resolved_path im) \<noteq> None" for ids im
    by (simp add: unresolved_import_def)
  then show ?thesis
    by (simp only: resolve_modules_lossy_def assms resolve_import_targets_def Let_def prod.case snd_conv
        Nil_is_map_conv map_is_Nil_conv append_is_Nil_conv concat_eq_Nil_conv set_map ball_simps)
qed

lemma path_to_id_loaded:
  assumes "map rm_path rms = map pm_path mds"
  shows "path_to_id rms path \<noteq> None \<longleftrightarrow> (\<exists>md \<in> set mds. path_components (pm_path md) = path_components path)"
proof -
  have "(\<lambda>rm. path_components (rm_path rm)) ` set rms = path_components ` set (map rm_path rms)"
    by (simp add: image_image)
  also have "\<dots> = (\<lambda>md. path_components (pm_path md)) ` set mds" unfolding assms by (simp add: image_image)
  finally have "path_to_id rms path = None \<longleftrightarrow> path_components path \<notin> (\<lambda>md. path_components (pm_path md)) ` set mds"
    by (simp only: path_to_id_None)
  then show ?thesis by (simp only: image_iff eq_commute [of "path_components path"] not_not simp_thms)
qed

lemma resolve_modules_lossy_quiet:
  "snd (resolve_modules_lossy mds) = [] \<longleftrightarrow> (\<forall>md \<in> set mds. no_duplicates md) \<and> imports_loaded mds"
proof -
  obtain rms st where each: "resolve_each mds empty_resolve_state = (rms, st)" by fastforce
  have quiet: "rs_diagnostics st = [] \<longleftrightarrow> (\<forall>md \<in> set mds. no_duplicates md)"
    and files: "map (\<lambda>rm. map ri_resolved_path (rm_imports rm)) rms = map import_files mds"
    using resolve_each_quiet [OF each] by (simp_all add: quiet_def empty_resolve_state_def)
  have paths: "map rm_path rms = map pm_path mds" using resolve_each_segments [OF each] by (elim conjE)
  have "(\<forall>rm \<in> set rms. \<forall>im \<in> set (rm_imports rm). path_to_id rms (ri_resolved_path im) \<noteq> None) \<longleftrightarrow>
      (\<forall>fs \<in> set (map (\<lambda>rm. map ri_resolved_path (rm_imports rm)) rms). \<forall>path \<in> set fs. path_to_id rms path \<noteq> None)"
    by (simp only: set_map ball_simps)
  also have "\<dots> \<longleftrightarrow> imports_loaded mds"
    unfolding files imports_loaded_def path_to_id_loaded [OF paths] by (simp only: set_map ball_simps)
  finally show ?thesis using resolve_modules_lossy_diagnostics [OF each] quiet by blast
qed

section \<open>Properties\<close>

lemma resolve_modules_Inr:
  "resolve_modules mds = Inr p \<longleftrightarrow> p = fst (resolve_modules_lossy mds) \<and> snd (resolve_modules_lossy mds) = []"
  by (auto simp: resolve_modules_def split: prod.split)

lemma resolve_modules_table:
  assumes "map pm_id mds = [0..<length mds]"
  shows "table_in_range (fst (resolve_modules_lossy mds))"
  using resolve_modules_lossy_wf(1) [OF assms] by (simp add: wf_program_def)

lemma resolve_modules_imports_resolved:
  assumes "resolve_modules mds = Inr p" and "m < length (rp_modules p)"
  shows "imports_resolved p m"
proof -
  obtain rms st where each: "resolve_each mds empty_resolve_state = (rms, st)" by fastforce
  have p: "p = fst (resolve_modules_lossy mds)" and quiet: "snd (resolve_modules_lossy mds) = []"
    using assms(1) by (simp_all add: resolve_modules_Inr)
  have mods: "rp_modules p = map (\<lambda>md. md\<lparr>rm_imports := map (resolve_target (path_to_id rms)) (rm_imports md)\<rparr>) rms"
    by (simp add: p resolve_modules_lossy_def each resolve_import_targets_def Let_def)
  have m: "m < length rms" using assms(2) by (simp add: mods)
  have "\<forall>im \<in> set (rm_imports (rms ! m)). path_to_id rms (ri_resolved_path im) \<noteq> None"
    using resolve_modules_lossy_diagnostics [OF each] quiet nth_mem [OF m] by blast
  then show ?thesis using m by (auto simp: imports_resolved_def mods resolve_target_def)
qed

text \<open>Also when some imports are unresolved, every lookup returns: a result or an error.\<close>

lemma each_bare_import_Inr:
  "each_bare_import w ims visited out = Some (Inr found) \<Longrightarrow>
     \<forall>im \<in> set ims. ri_alias im = None \<longrightarrow> ri_target im \<noteq> None"
proof (induction ims arbitrary: visited out)
  case (Cons im ims)
  show ?case
  proof (cases "ri_alias im")
    case (Some a)
    then have "each_bare_import w ims visited out = Some (Inr found)" using Cons.prems by simp
    then show ?thesis using Cons.IH Some by simp
  next
    case None
    then obtain t where t: "ri_target im = Some t" using Cons.prems by (cases "ri_target im") simp_all
    then obtain v o1 where "each_bare_import w ims v o1 = Some (Inr found)"
      using Cons.prems None by (auto split: option.splits)
    then show ?thesis using Cons.IH t by simp
  qed
qed simp

lemma each_bare_import_returns:
  assumes "walk_ok p ev" and "set (bare_targets ims) \<subseteq> {..<length (rp_modules p)}"
  shows "\<exists>r. each_bare_import (walk p ev) ims visited out = Some r"
  using assms(2)
proof (induction ims arbitrary: visited out)
  case (Cons im ims)
  have "set (bare_targets ims) \<subseteq> {..<length (rp_modules p)}" using Cons.prems by (simp split: if_splits)
  note rest = Cons.IH [OF this]
  show ?case
  proof (cases "ri_alias im = None \<and> ri_target im \<noteq> None")
    case True
    then obtain t where t: "ri_target im = Some t" "set [t] \<subseteq> {..<length (rp_modules p)}"
      using Cons.prems by auto
    from walk_returns [OF assms(1) t(2), of visited out] obtain v o1 where run: "walk p ev t visited out = Some (v, o1)"
      unfolding walk_def by auto
    obtain r where "each_bare_import (walk p ev) ims v o1 = Some r" using rest by blast
    then show ?thesis using True t(1) run by simp
  next
    case False
    obtain r where "each_bare_import (walk p ev) ims visited out = Some r" using rest by blast
    then show ?thesis using False by (cases "ri_alias im"; cases "ri_target im") simp_all
  qed
qed simp

lemma own_alias_targets_Inr:
  "own_alias_targets alias ims = Inr own \<Longrightarrow>
     set own = {t. \<exists>im \<in> set ims. ri_alias im = Some alias \<and> ri_target im = Some t}"
proof (induction ims arbitrary: own)
  case (Cons im ims)
  show ?case
  proof (cases "ri_alias im = Some alias")
    case True
    then obtain t where t: "ri_target im = Some t" using Cons.prems by (cases "ri_target im") simp_all
    obtain own' where "own_alias_targets alias ims = Inr own'" "own = t # own'"
      using Cons.prems True t by (cases "own_alias_targets alias ims") simp_all
    then show ?thesis using Cons.IH True t by auto
  next
    case False
    then show ?thesis using Cons by auto
  qed
qed simp

lemma bare_targets_in_range:
  assumes "table_in_range p" and "m < length (rp_modules p)"
  shows "set (bare_targets (rm_imports (rp_modules p ! m))) \<subseteq> {..<length (rp_modules p)}"
  using bare_imports_in_range [OF assms] by (simp only: set_bare_targets)

lemma exported_alias_targets_walk: "exported_alias_targets p alias = walk p (alias_target_walk p alias)"
  by (simp add: exported_alias_targets_def alias_target_walk_def [abs_def])

lemma visible_alias_targets_returns:
  assumes "table_in_range p" and "m < length (rp_modules p)"
  shows "\<exists>r. visible_alias_targets p m alias = Some r \<and> (\<forall>ts. r = Inr ts \<longrightarrow> set ts \<subseteq> {..<length (rp_modules p)})"
proof (cases "own_alias_targets alias (rm_imports (rp_modules p ! m))")
  case (Inl e)
  then show ?thesis using assms(2) by (simp add: visible_alias_targets_def)
next
  case (Inr own)
  have ok: "walk_ok p (alias_target_walk p alias)" by (rule alias_target_walk_ok [OF assms(1)])
  obtain r where r: "each_bare_import (exported_alias_targets p alias) (rm_imports (rp_modules p ! m)) {} own = Some r"
    using each_bare_import_returns [OF ok bare_targets_in_range [OF assms]] by (auto simp: exported_alias_targets_walk)
  show ?thesis
  proof (cases r)
    case (Inl e)
    then show ?thesis using Inr r assms(2) by (simp add: visible_alias_targets_def)
  next
    case (Inr ts)
    have "each_visible_import (walk p (alias_target_walk p alias)) (rm_imports (rp_modules p ! m)) {} own = Some ts"
      using r each_bare_import_run [OF each_bare_import_Inr [OF r [unfolded Inr]], of p "alias_target_walk p alias"]
      unfolding Inr exported_alias_targets_walk by simp
    then have "set ts = set own \<union> emitted (alias_target_walk p alias)
        ((event_edges (alias_target_walk p alias))\<^sup>* `` bare_imports p m)"
      using each_visible_import_imports [OF assms ok, of own] by auto
    then have "set ts = alias_meanings p m alias"
      unfolding own_alias_targets_Inr [OF \<open>own_alias_targets alias _ = Inr own\<close>] alias_target_walk_emitted
        alias_target_walk_edges alias_meanings_def aliases_def
      by (auto simp: rtranclp_rtrancl_eq Image_iff)
    then have "set (dedup_modules ts) \<subseteq> {..<length (rp_modules p)}" using alias_meanings_in_range [OF assms] by simp
    then show ?thesis using \<open>own_alias_targets alias _ = Inr own\<close> r assms(2) Inr
      by (simp add: visible_alias_targets_def)
  qed
qed

lemma lookup_bare_returns:
  assumes "table_in_range p" and "m < length (rp_modules p)"
  shows "\<exists>r. lookup_bare p m name kinds = Some r"
proof -
  have "walk_ok p (exported_bare_defs_events p name kinds)"
    by (rule stops_at_own_walk_ok [OF assms(1) exported_bare_defs_stops [OF assms(1)]])
  from each_bare_import_returns [OF this bare_targets_in_range [OF assms], of "{}" "[]"]
  obtain r where "each_bare_import (exported_bare_defs p name kinds) (rm_imports (rp_modules p ! m)) {} [] = Some r"
    by (auto simp: exported_bare_defs_def)
  then show ?thesis using assms(2)
    by (simp add: lookup_bare_def local_def_first [OF assms] split: list.split)
qed

lemma lookup_qualified_returns:
  assumes "table_in_range p" and "m < length (rp_modules p)"
  shows "\<exists>r. lookup_qualified p m alias name kinds = Some r"
proof -
  from visible_alias_targets_returns [OF assms]
  obtain r where r: "visible_alias_targets p m alias = Some r" "\<forall>ts. r = Inr ts \<longrightarrow> set ts \<subseteq> {..<length (rp_modules p)}"
    by blast
  show ?thesis
  proof (cases r)
    case (Inl e)
    then show ?thesis using r(1) assms(2) by (simp add: lookup_qualified_def)
  next
    case (Inr ts)
    have "walk_ok p (exported_bare_defs_events p name kinds)"
      by (rule stops_at_own_walk_ok [OF assms(1) exported_bare_defs_stops [OF assms(1)]])
    from each_target_set [OF this, of ts "[]"] r(2) Inr
    obtain found where found: "each_target (exported_bare_defs p name kinds) ts [] = Some found"
      by (auto simp: exported_bare_defs_def)
    then show ?thesis using r(1) Inr hidden_behind_local [OF assms] assms(2) by (simp add: lookup_qualified_def)
  qed
qed

subsection \<open>An example with a re-export\<close>

definition example_ident :: "string \<Rightarrow> ident" where
  "example_ident name = \<lparr>ident_name = name, ident_span = span_new 0 0 0\<rparr>"

definition example_import :: "bool \<Rightarrow> string \<Rightarrow> string option \<Rightarrow> item" where
  "example_import exported path a = \<lparr>item_export = exported, item_span = span_new 0 0 0, item_kind = IK_Import
     \<lparr>imp_path = \<lparr>mp_absolute = False, mp_raw = path\<rparr>, imp_alias = map_option example_ident a\<rparr>\<rparr>"

definition example_struct :: "bool \<Rightarrow> string \<Rightarrow> item" where
  "example_struct exported name = \<lparr>item_export = exported, item_span = span_new 0 0 0, item_kind = IK_Struct
     \<lparr>sd_is_resource = False, sd_is_unsafe = False, sd_name = example_ident name, sd_generics = [], sd_fields = []\<rparr>\<rparr>"

definition example_module :: "module_id \<Rightarrow> string \<Rightarrow> string list \<Rightarrow> item list \<Rightarrow> parsed_module" where
  "example_module m path paths its =
     \<lparr>pm_id = m, pm_path = path, pm_std_export = None, pm_import_paths = paths, pm_ast = \<lparr>af_items = its\<rparr>\<rparr>"

definition example_modules :: "parsed_module list" where
  "example_modules =
     [example_module 0 ''a.ciel'' [''b.ciel'', ''b.ciel'']
        [example_import False ''b'' None, example_import False ''b'' (Some ''q''), example_struct False ''S''],
      example_module 1 ''b.ciel'' [''c.ciel''] [example_import True ''c'' None],
      example_module 2 ''c.ciel'' [] [example_struct True ''T'']]"

lemmas example_simps = example_modules_def example_module_def example_import_def example_struct_def example_ident_def

lemma example_ids: "map pm_id example_modules = [0..<length example_modules]"
  by (simp add: example_simps upt_rec)

lemma example_accepted: "resolve_modules example_modules = Inr (fst (resolve_modules_lossy example_modules))"
  by (simp add: resolve_modules_Inr resolve_modules_lossy_quiet no_duplicates_def imports_loaded_def import_files_def
      import_count_def item_declared_names_def item_variants_def example_simps numeral_2_eq_2)

lemmas example_run = resolve_modules_lossy_def resolve_module_def resolve_item_def Let_def empty_resolve_state_def
  add_def_def push_def_def resolve_import_targets_def resolve_target_def path_to_id_def path_components_def

lemma example_program:
  "rp_defs (fst (resolve_modules_lossy example_modules)) =
     [\<lparr>df_id = 0, df_module = 0, df_name = ''S'', df_kind = DK_Struct, df_parent = None, df_exported = False,
       df_span = span_new 0 0 0\<rparr>,
      \<lparr>df_id = 1, df_module = 2, df_name = ''T'', df_kind = DK_Struct, df_parent = None, df_exported = True,
       df_span = span_new 0 0 0\<rparr>]"
  "map rm_defs (rp_modules (fst (resolve_modules_lossy example_modules))) = [[0], [], [1]]"
  "map (\<lambda>md. map (\<lambda>im. (ri_alias im, ri_exported im, ri_target im)) (rm_imports md))
     (rp_modules (fst (resolve_modules_lossy example_modules))) =
   [[(None, False, Some 1), (Some ''q'', False, Some 1)], [(None, True, Some 2)], []]"
  by (simp_all add: example_simps example_run)

subsection \<open>Building the table\<close>

text \<open>
  C8: \<open>resolve_modules\<close> accepts a program exactly when no module declares a name twice (the members of
  \<open>extern\<close> blocks included), no enum has two variants of one name, and the file of every import is among
  the loaded modules, up to the equality of paths.
\<close>

theorem resolve_modules_accepts:
  "(\<exists>p. resolve_modules mds = Inr p) \<longleftrightarrow> (\<forall>md \<in> set mds. no_duplicates md) \<and> imports_loaded mds"
  by (simp add: resolve_modules_Inr resolve_modules_lossy_quiet)

theorem resolve_modules_accepts_witness:
  "(\<exists>p. resolve_modules example_modules = Inr p) \<and>
   \<not> (\<exists>p. resolve_modules [example_module 0 ''a.ciel'' [] [example_struct True ''T'', example_struct False ''T'']] = Inr p)"
  using resolve_modules_accepts [of example_modules]
    resolve_modules_accepts [of "[example_module 0 ''a.ciel'' [] [example_struct True ''T'', example_struct False ''T'']]"]
    example_accepted
  by (simp add: no_duplicates_def item_declared_names_def example_simps)

text \<open>
  C6: The table \<open>resolve_modules_lossy\<close> builds is well formed, also when there are diagnostics: identifiers
  are positions, a definition is listed by exactly the module it belongs to, exactly the variants have a
  parent and it is an enum of their module, no two definitions of a module share parent and name, and all
  targets of imports exist. The loader numbers the modules from zero.
\<close>

theorem resolve_modules_lossy_well_formed:
  "map pm_id mds = [0..<length mds] \<Longrightarrow> wf_program (fst (resolve_modules_lossy mds))"
  by (rule resolve_modules_lossy_wf(1))

theorem resolve_modules_lossy_well_formed_witness: "wf_program (fst (resolve_modules_lossy example_modules))"
  by (rule resolve_modules_lossy_well_formed [OF example_ids])

subsection \<open>Lookups\<close>

text \<open>
  C7: No lookup of a path in a resolved program panics or diverges, although re-exports may be cyclic and
  imports may be unresolved: it returns a definition, nothing, or an error.
\<close>

theorem lookup_path_returns:
  assumes "map pm_id mds = [0..<length mds]" and "m < length mds"
  shows "\<exists>r. lookup_path (fst (resolve_modules_lossy mds)) m path kinds = Some r"
proof -
  let ?p = "fst (resolve_modules_lossy mds)"
  have "table_in_range ?p" "m < length (rp_modules ?p)"
    using resolve_modules_table [OF assms(1)] resolve_modules_lossy_wf(2) [OF assms(1)] assms(2) by simp_all
  note returns = lookup_bare_returns [OF this] lookup_qualified_returns [OF this]
  show ?thesis by (cases "(?p, m, path, kinds)" rule: lookup_path.cases) (use returns in auto)
qed

theorem lookup_path_returns_witness:
  "\<exists>r. lookup_path (fst (resolve_modules_lossy example_modules)) 0 [example_ident ''q'', example_ident ''T''] [DK_Struct] =
     Some r"
  by (rule lookup_path_returns [OF example_ids]) (simp add: example_modules_def)

text \<open>
  C5: In an accepted program a bare name finds a definition exactly when it is its only meaning: the first
  local definition of the wanted kinds or, without one, what the modules imported without an alias export,
  following re-exports behind modules that do not export the name themselves. It finds nothing exactly when
  there is no meaning and is reported as ambiguous exactly when there are several.
\<close>

theorem lookup_bare_spec:
  assumes "resolve_modules mds = Inr p" and "map pm_id mds = [0..<length mds]" and "m < length mds"
  shows "(lookup_bare p m name kinds = Some (Inr (Some i)) \<longleftrightarrow> bare_meanings p m name kinds = {i}) \<and>
    (lookup_bare p m name kinds = Some (Inr None) \<longleftrightarrow> bare_meanings p m name kinds = {}) \<and>
    ((\<exists>c. lookup_bare p m name kinds = Some (Inl (LE_Ambiguous name c)) \<and> set c = bare_meanings p m name kinds) \<longleftrightarrow>
       2 \<le> card (bare_meanings p m name kinds))"
proof -
  have p: "p = fst (resolve_modules_lossy mds)" using assms(1) by (simp add: resolve_modules_Inr)
  have m: "m < length (rp_modules p)" using resolve_modules_lossy_wf(2) [OF assms(2)] assms(3) by (simp add: p)
  have "table_in_range p" using resolve_modules_table [OF assms(2)] by (simp add: p)
  from lookup_bare_candidates [OF this m resolve_modules_imports_resolved [OF assms(1) m]]
  obtain c where c: "distinct c" "set c = bare_meanings p m name kinds"
    "lookup_bare p m name kinds = Some (only_candidate name c)" by blast
  have "(\<exists>c'. only_candidate name c = Inl (LE_Ambiguous name c') \<and> set c' = set c) \<longleftrightarrow>
      only_candidate name c = Inl (LE_Ambiguous name c)"
    by (cases "(name, c)" rule: only_candidate.cases) auto
  then show ?thesis using only_candidate_cases [OF c(1), of name] unfolding c(3) c(2) [symmetric] by simp
qed

lemmas lookup_run = lookup_bare_def lookup_qualified_def local_def_def program_module_def program_def_def index_def
  visible_alias_targets_def exported_bare_defs_def exported_bare_defs_events_def exported_alias_targets_def walk_def
  kind_matches_def dedup_defs_def dedup_modules_def

theorem lookup_bare_spec_witness:
  "lookup_bare (fst (resolve_modules_lossy example_modules)) 0 ''T'' [DK_Struct] = Some (Inr (Some 1)) \<and>
   bare_meanings (fst (resolve_modules_lossy example_modules)) 0 ''T'' [DK_Struct] = {1}"
proof -
  have "lookup_bare (fst (resolve_modules_lossy example_modules)) 0 ''T'' [DK_Struct] = Some (Inr (Some 1))"
    by (simp add: example_simps example_run lookup_run)
  then show ?thesis
    using lookup_bare_spec [OF example_accepted example_ids, of 0 "''T''" "[DK_Struct]" 1]
    by (simp add: example_modules_def)
qed

text \<open>
  C9: In an accepted program a qualified name looks in exactly the modules its alias can stand for, through
  imports of the module itself and exported ones behind its bare imports. Without such a module the alias
  is unknown; if none of them exports the name but an import of the module under this alias hides it, the
  error says so; otherwise the only exported definition is found, or an ambiguity reported.
\<close>

theorem lookup_qualified_spec:
  assumes "resolve_modules mds = Inr p" and "map pm_id mds = [0..<length mds]" and "m < length mds"
  shows "\<exists>c. distinct c \<and> set c = {i. \<exists>t \<in> alias_meanings p m alias. exports p (named name kinds) t i} \<and>
    lookup_qualified p m alias name kinds = Some
      (if alias_meanings p m alias = {} then Inl (LE_UnknownAlias alias)
       else if c = [] \<and> (\<exists>t \<in> aliases p alias m. local_matches p t name kinds \<noteq> [])
         then Inl (LE_NotExported (alias @ ''::'' @ name))
       else only_candidate (alias @ ''::'' @ name) c)"
proof -
  have p: "p = fst (resolve_modules_lossy mds)" using assms(1) by (simp add: resolve_modules_Inr)
  have m: "m < length (rp_modules p)" using resolve_modules_lossy_wf(2) [OF assms(2)] assms(3) by (simp add: p)
  have "table_in_range p" using resolve_modules_table [OF assms(2)] by (simp add: p)
  from lookup_qualified_candidates [OF this m resolve_modules_imports_resolved [OF assms(1) m]] show ?thesis .
qed

theorem lookup_qualified_spec_witness:
  "\<exists>c. distinct c \<and> set c = {i. \<exists>t \<in> alias_meanings (fst (resolve_modules_lossy example_modules)) 0 ''q''.
       exports (fst (resolve_modules_lossy example_modules)) (named ''T'' [DK_Struct]) t i} \<and>
     only_candidate ''q::T'' c = Inr (Some 1)"
proof -
  have "lookup_qualified (fst (resolve_modules_lossy example_modules)) 0 ''q'' ''T'' [DK_Struct] = Some (Inr (Some 1))"
    by (simp add: example_simps example_run lookup_run)
  then show ?thesis
    using lookup_qualified_spec [OF example_accepted example_ids, of 0 "''q''" "''T''" "[DK_Struct]"]
    by (auto simp: example_modules_def split: if_splits)
qed

end
