(* ===== verification/Ciel_Occurs.thy ===== *)
theory Ciel_Occurs
  imports Ciel_Ty
begin

text \<open>
  Occurrence in a type, and the traversals of \<open>src/types.rs\<close> that ask for it:
  \<open>contains_generic\<close> and \<open>contains_type_hole\<close> (explicit stacks), \<open>contains_any_generic_name\<close>,
  \<open>ty_contains\<close> and \<open>type_complexity\<close> (recursive). \<open>ty_children\<close> lists the types directly below
  a type, constraint arguments included; \<open>occurs\<close> is the specification every traversal is
  measured against.
\<close>

section \<open>Occurrence in a type\<close>

text \<open>All constraint references of a bound, positive ones first.\<close>

definition bounds_entries :: "constraint_bounds \<Rightarrow> constraint_ref list" where
  "bounds_entries b = positive b @ negative b"

definition bounds_args :: "constraint_bounds \<Rightarrow> ty list" where
  "bounds_args b = concat (map cref_args (bounds_entries b))"

fun ty_children :: "ty \<Rightarrow> ty list" where
  "ty_children (Ty_Pointer _ _ inner) = [inner]"
| "ty_children (Ty_Array _ elem) = [elem]"
| "ty_children (Ty_Slice _ elem) = [elem]"
| "ty_children (Ty_Named _ _ args) = args"
| "ty_children (Ty_GeneratedFuture _ output _ _ _ state) = output # map snd state"
| "ty_children (Ty_OpaqueState base state) = base # map snd state"
| "ty_children (Ty_DynamicInterface _ _ args) = args"
| "ty_children (Ty_OpaqueReturn key bounds) = key_args key @ bounds_args bounds"
| "ty_children (Ty_Function _ _ ret params) = ret # params"
| "ty_children (Ty_Closure ret params constraints) = ret # params @ bounds_args constraints"
| "ty_children (Ty_ClosureInstance _ ret params captures) = ret # params @ captures"
| "ty_children _ = []"

lemma size_cref_args [termination_simp]: "t \<in> set (cref_args e) \<Longrightarrow> size t < size e"
  by (cases e) (auto simp: less_Suc_eq_le intro: size_list_estimation')

lemma size_key_args [termination_simp]: "t \<in> set (key_args k) \<Longrightarrow> size t < size k"
  by (cases k) (auto simp: less_Suc_eq_le intro: size_list_estimation')

lemma size_bounds_entries [termination_simp]: "e \<in> set (bounds_entries b) \<Longrightarrow> size e < size b"
  by (cases b)
     (auto simp: bounds_entries_def less_Suc_eq_le
       intro: trans_le_add1 trans_le_add2 size_list_estimation')

lemma size_bounds_args [termination_simp]: "t \<in> set (bounds_args b) \<Longrightarrow> size t < size b"
  using size_cref_args size_bounds_entries
  by (fastforce simp: bounds_args_def intro: less_trans)

lemma size_state_snd [termination_simp]:
  "t \<in> snd ` set state \<Longrightarrow> size t \<le> size_list (size_prod (\<lambda>x. 0) size) state"
  by (force intro: size_list_estimation')

lemma size_ty_list [termination_simp]: "t \<in> set ts \<Longrightarrow> size t \<le> size_list size ts"
  by (force intro: size_list_estimation')

lemma size_ty_children [termination_simp]: "c \<in> set (ty_children t) \<Longrightarrow> size c < size t"
proof (cases t)
  case (Ty_OpaqueReturn key bounds)
  assume "c \<in> set (ty_children t)"
  with Ty_OpaqueReturn have "size c < size key \<or> size c < size bounds"
    by (auto dest: size_key_args size_bounds_args)
  with Ty_OpaqueReturn show ?thesis by auto
next
  case (Ty_Closure ret params bounds)
  assume "c \<in> set (ty_children t)"
  with Ty_Closure consider "c = ret" | "c \<in> set params" | "c \<in> set (bounds_args bounds)" by auto
  then show ?thesis
    by cases (use Ty_Closure in \<open>auto dest: size_ty_list size_bounds_args\<close>)
qed (auto dest!: size_ty_list size_state_snd)

lemma ty_child_induct [case_names node]:
  assumes "\<And>t. (\<And>c. c \<in> set (ty_children t) \<Longrightarrow> P c) \<Longrightarrow> P t"
  shows "P t"
  by (induction t rule: measure_induct_rule [where f = size])
     (blast intro: assms size_ty_children)

function ty_nodes :: "ty \<Rightarrow> ty list" where
  "ty_nodes t = t # concat (map ty_nodes (ty_children t))"
  by pat_completeness auto
termination
  by (relation "measure size") (auto simp: size_ty_children)

declare ty_nodes.simps [simp del]

text \<open>\<open>occurs x t\<close>: the type \<open>x\<close> is \<open>t\<close> or occurs below it.\<close>

definition occurs :: "ty \<Rightarrow> ty \<Rightarrow> bool" where
  "occurs x t \<longleftrightarrow> x \<in> set (ty_nodes t)"

lemma occurs_unfold: "occurs x t \<longleftrightarrow> x = t \<or> (\<exists>c \<in> set (ty_children t). occurs x c)"
  by (auto simp: occurs_def ty_nodes.simps [of t])

lemma occurs_refl [simp]: "occurs t t"
  by (subst occurs_unfold) simp

lemma occurs_child: "c \<in> set (ty_children t) \<Longrightarrow> occurs x c \<Longrightarrow> occurs x t"
  by (auto simp: occurs_unfold [of x t])

lemma occurs_trans: "occurs x y \<Longrightarrow> occurs y t \<Longrightarrow> occurs x t"
proof (induction t rule: ty_child_induct)
  case (node t)
  from node.prems(2) consider "y = t" | c where "c \<in> set (ty_children t)" "occurs y c"
    by (auto simp: occurs_unfold [of y t])
  then show ?case
  proof cases
    case 1
    with node.prems show ?thesis by simp
  next
    case 2
    with node show ?thesis by (blast intro: occurs_child)
  qed
qed

lemma occurs_size: "occurs x t \<Longrightarrow> x = t \<or> size x < size t"
proof (induction t rule: ty_child_induct)
  case (node t)
  from node.prems consider "x = t" | c where "c \<in> set (ty_children t)" "occurs x c"
    by (auto simp: occurs_unfold [of x t])
  then show ?case
  proof cases
    case (2 c)
    then have "x = c \<or> size x < size c" by (rule node.IH)
    with 2(1) show ?thesis by (auto dest: size_ty_children)
  qed simp
qed

lemma occurs_antisym: "occurs x t \<Longrightarrow> occurs t x \<Longrightarrow> x = t"
  by (auto dest!: occurs_size)

lemma occurs_node_simps [occurs_simps]:
  "occurs x (Ty_Pointer n m i) \<longleftrightarrow> x = Ty_Pointer n m i \<or> occurs x i"
  "occurs x (Ty_Array len i) \<longleftrightarrow> x = Ty_Array len i \<or> occurs x i"
  "occurs x (Ty_Slice m i) \<longleftrightarrow> x = Ty_Slice m i \<or> occurs x i"
  "occurs x (Ty_Named d s ts) \<longleftrightarrow> x = Ty_Named d s ts \<or> (\<exists>t \<in> set ts. occurs x t)"
  "occurs x (Ty_GeneratedFuture s u b1 b2 b3 st) \<longleftrightarrow>
     x = Ty_GeneratedFuture s u b1 b2 b3 st \<or> occurs x u \<or> (\<exists>p \<in> set st. occurs x (snd p))"
  "occurs x (Ty_OpaqueState u st) \<longleftrightarrow>
     x = Ty_OpaqueState u st \<or> occurs x u \<or> (\<exists>p \<in> set st. occurs x (snd p))"
  "occurs x (Ty_DynamicInterface e s ts) \<longleftrightarrow>
     x = Ty_DynamicInterface e s ts \<or> (\<exists>t \<in> set ts. occurs x t)"
  "occurs x (Ty_OpaqueReturn k b) \<longleftrightarrow>
     x = Ty_OpaqueReturn k b \<or> (\<exists>t \<in> set (key_args k). occurs x t) \<or>
     (\<exists>t \<in> set (bounds_args b). occurs x t)"
  "occurs x (Ty_Function un abi u ts) \<longleftrightarrow>
     x = Ty_Function un abi u ts \<or> occurs x u \<or> (\<exists>t \<in> set ts. occurs x t)"
  "occurs x (Ty_Closure u ts b) \<longleftrightarrow>
     x = Ty_Closure u ts b \<or> occurs x u \<or> (\<exists>t \<in> set ts. occurs x t) \<or>
     (\<exists>t \<in> set (bounds_args b). occurs x t)"
  "occurs x (Ty_ClosureInstance cid u ts cs) \<longleftrightarrow>
     x = Ty_ClosureInstance cid u ts cs \<or> occurs x u \<or> (\<exists>t \<in> set ts. occurs x t) \<or>
     (\<exists>t \<in> set cs. occurs x t)"
  by ((subst occurs_unfold, auto) [1])+

lemma occurs_leaf: "ty_children t = [] \<Longrightarrow> occurs x t \<longleftrightarrow> x = t"
  by (simp add: occurs_unfold [of x t])

lemma occurs_leaf_simps [occurs_simps]:
  "occurs x (Ty_Hole h) \<longleftrightarrow> x = Ty_Hole h" "occurs x Ty_Never \<longleftrightarrow> x = Ty_Never"
  "occurs x Ty_Void \<longleftrightarrow> x = Ty_Void" "occurs x Ty_Bool \<longleftrightarrow> x = Ty_Bool"
  "occurs x Ty_Char \<longleftrightarrow> x = Ty_Char" "occurs x Ty_I8 \<longleftrightarrow> x = Ty_I8"
  "occurs x Ty_I16 \<longleftrightarrow> x = Ty_I16" "occurs x Ty_I32 \<longleftrightarrow> x = Ty_I32"
  "occurs x Ty_I64 \<longleftrightarrow> x = Ty_I64" "occurs x Ty_U8 \<longleftrightarrow> x = Ty_U8"
  "occurs x Ty_U16 \<longleftrightarrow> x = Ty_U16" "occurs x Ty_U32 \<longleftrightarrow> x = Ty_U32"
  "occurs x Ty_U64 \<longleftrightarrow> x = Ty_U64" "occurs x Ty_Usize \<longleftrightarrow> x = Ty_Usize"
  "occurs x Ty_F32 \<longleftrightarrow> x = Ty_F32" "occurs x Ty_F64 \<longleftrightarrow> x = Ty_F64"
  "occurs x (Ty_CSpelling d a sp) \<longleftrightarrow> x = Ty_CSpelling d a sp"
  "occurs x (Ty_Generic n) \<longleftrightarrow> x = Ty_Generic n" "occurs x Ty_Unknown \<longleftrightarrow> x = Ty_Unknown"
  by (simp_all add: occurs_leaf)

section \<open>Traversals with an explicit stack\<close>

text \<open>The head of the list is the top of the Rust \<open>Vec\<close>; \<open>extend\<close> pushes in order.\<close>

abbreviation extend_stack :: "'a list \<Rightarrow> 'a list \<Rightarrow> 'a list" where
  "extend_stack items stack \<equiv> rev items @ stack"

definition stack_size :: "ty list \<Rightarrow> nat" where
  "stack_size stack = sum_list (map (\<lambda>t. Suc (size t)) stack)"

lemma stack_size_simps [simp]:
  "stack_size [] = 0"
  "stack_size (t # ts) = Suc (size t) + stack_size ts"
  "stack_size (ts @ us) = stack_size ts + stack_size us"
  "stack_size (rev ts) = stack_size ts"
  by (simp_all add: stack_size_def rev_map [symmetric] sum_list_rev)

lemma size_list_stack: "size_list size ts = stack_size ts"
  by (induction ts) auto

lemma stack_size_state: "stack_size (map snd st) \<le> size_list (size_prod (\<lambda>x. 0) size) st"
  by (induction st) auto

lemma stack_size_entries:
  "stack_size (concat (map cref_args es)) \<le> size_list size es"
proof (induction es)
  case (Cons e es)
  then show ?case by (cases e) (simp add: size_list_stack)
qed simp

lemma stack_size_bounds: "stack_size (bounds_args b) \<le> size b"
proof (cases b)
  case (ConstraintBounds pos neg)
  then show ?thesis
    using stack_size_entries [of pos] stack_size_entries [of neg]
    by (simp add: bounds_args_def bounds_entries_def)
qed

lemma stack_size_key: "stack_size (key_args k) \<le> size k"
  by (cases k) (simp add: size_list_stack)

lemmas stack_size_bound =
  stack_size_state [THEN le_imp_less_Suc] stack_size_bounds [THEN le_imp_less_Suc]
  stack_size_key [THEN le_imp_less_Suc]

lemma stack_size_key_bounds:
  "stack_size (bounds_args b) + stack_size (key_args k) < Suc (Suc (size k + size b))"
  using stack_size_key [of k] stack_size_bounds [of b] by simp

function (sequential) contains_generic_loop :: "ty list \<Rightarrow> bool" where
  "contains_generic_loop [] = False"
| "contains_generic_loop (Ty_Generic _ # stack) = True"
| "contains_generic_loop (Ty_Pointer _ _ inner # stack) = contains_generic_loop (inner # stack)"
| "contains_generic_loop (Ty_Array _ elem # stack) = contains_generic_loop (elem # stack)"
| "contains_generic_loop (Ty_Slice _ elem # stack) = contains_generic_loop (elem # stack)"
| "contains_generic_loop (Ty_Named _ _ args # stack) =
     contains_generic_loop (extend_stack args stack)"
| "contains_generic_loop (Ty_DynamicInterface _ _ args # stack) =
     contains_generic_loop (extend_stack args stack)"
| "contains_generic_loop (Ty_OpaqueReturn key bounds # stack) =
     contains_generic_loop (extend_stack (bounds_args bounds) (extend_stack (key_args key) stack))"
| "contains_generic_loop (Ty_GeneratedFuture _ output _ _ _ state # stack) =
     contains_generic_loop (extend_stack (map snd state) (output # stack))"
| "contains_generic_loop (Ty_OpaqueState base state # stack) =
     contains_generic_loop (extend_stack (map snd state) (base # stack))"
| "contains_generic_loop (Ty_Function _ _ ret params # stack) =
     contains_generic_loop (extend_stack params (ret # stack))"
| "contains_generic_loop (Ty_Closure ret params constraints # stack) =
     contains_generic_loop
       (extend_stack (bounds_args constraints) (extend_stack params (ret # stack)))"
| "contains_generic_loop (Ty_ClosureInstance _ ret params captures # stack) =
     contains_generic_loop (extend_stack captures (extend_stack params (ret # stack)))"
| "contains_generic_loop (_ # stack) = contains_generic_loop stack"
  by pat_completeness auto
termination
  by (relation "measure stack_size")
     (auto simp: size_list_stack stack_size_bound stack_size_key_bounds)

definition contains_generic :: "ty \<Rightarrow> bool" where
  "contains_generic t = contains_generic_loop [t]"

definition constraint_bounds_contains_generic :: "constraint_bounds \<Rightarrow> bool" where
  "constraint_bounds_contains_generic bounds =
     list_ex (\<lambda>entry. list_ex contains_generic (cref_args entry)) (bounds_entries bounds)"

function (sequential) contains_type_hole_loop :: "ty list \<Rightarrow> bool" where
  "contains_type_hole_loop [] = False"
| "contains_type_hole_loop (Ty_Hole _ # stack) = True"
| "contains_type_hole_loop (Ty_Pointer _ _ inner # stack) = contains_type_hole_loop (inner # stack)"
| "contains_type_hole_loop (Ty_Array _ elem # stack) = contains_type_hole_loop (elem # stack)"
| "contains_type_hole_loop (Ty_Slice _ elem # stack) = contains_type_hole_loop (elem # stack)"
| "contains_type_hole_loop (Ty_Named _ _ args # stack) =
     contains_type_hole_loop (extend_stack args stack)"
| "contains_type_hole_loop (Ty_DynamicInterface _ _ args # stack) =
     contains_type_hole_loop (extend_stack args stack)"
| "contains_type_hole_loop (Ty_OpaqueReturn key bounds # stack) =
     contains_type_hole_loop (extend_stack (bounds_args bounds) (extend_stack (key_args key) stack))"
| "contains_type_hole_loop (Ty_GeneratedFuture _ output _ _ _ state # stack) =
     contains_type_hole_loop (extend_stack (map snd state) (output # stack))"
| "contains_type_hole_loop (Ty_OpaqueState base state # stack) =
     contains_type_hole_loop (extend_stack (map snd state) (base # stack))"
| "contains_type_hole_loop (Ty_Function _ _ ret params # stack) =
     contains_type_hole_loop (extend_stack params (ret # stack))"
| "contains_type_hole_loop (Ty_Closure ret params constraints # stack) =
     contains_type_hole_loop
       (extend_stack (bounds_args constraints) (extend_stack params (ret # stack)))"
| "contains_type_hole_loop (Ty_ClosureInstance _ ret params captures # stack) =
     contains_type_hole_loop (extend_stack captures (extend_stack params (ret # stack)))"
| "contains_type_hole_loop (_ # stack) = contains_type_hole_loop stack"
  by pat_completeness auto
termination
  by (relation "measure stack_size")
     (auto simp: size_list_stack stack_size_bound stack_size_key_bounds)

definition contains_type_hole :: "ty \<Rightarrow> bool" where
  "contains_type_hole t = contains_type_hole_loop [t]"

definition constraint_bounds_contains_type_hole :: "constraint_bounds \<Rightarrow> bool" where
  "constraint_bounds_contains_type_hole bounds =
     list_ex (\<lambda>entry. list_ex contains_type_hole (cref_args entry)) (bounds_entries bounds)"

section \<open>Recursive traversals\<close>

lemma size_entry_args [termination_simp]:
  "t \<in> set (cref_args e) \<Longrightarrow> e \<in> set (bounds_entries b) \<Longrightarrow> size t < size b"
  by (blast intro: less_trans size_cref_args size_bounds_entries)

fun contains_any_generic_name :: "ty \<Rightarrow> string set \<Rightarrow> bool"
  and constraint_bounds_contains_any_generic_name :: "constraint_bounds \<Rightarrow> string set \<Rightarrow> bool" where
  "contains_any_generic_name (Ty_Generic name) names = (name \<in> names)"
| "contains_any_generic_name (Ty_Pointer _ _ inner) names = contains_any_generic_name inner names"
| "contains_any_generic_name (Ty_Array _ elem) names = contains_any_generic_name elem names"
| "contains_any_generic_name (Ty_Slice _ elem) names = contains_any_generic_name elem names"
| "contains_any_generic_name (Ty_Named _ _ args) names =
     list_ex (\<lambda>arg. contains_any_generic_name arg names) args"
| "contains_any_generic_name (Ty_DynamicInterface _ _ args) names =
     list_ex (\<lambda>arg. contains_any_generic_name arg names) args"
| "contains_any_generic_name (Ty_OpaqueReturn key bounds) names =
     (list_ex (\<lambda>arg. contains_any_generic_name arg names) (key_args key) \<or>
      constraint_bounds_contains_any_generic_name bounds names)"
| "contains_any_generic_name (Ty_GeneratedFuture _ output _ _ _ state) names =
     (contains_any_generic_name output names \<or>
      list_ex (\<lambda>(_, t). contains_any_generic_name t names) state)"
| "contains_any_generic_name (Ty_OpaqueState base state) names =
     (contains_any_generic_name base names \<or>
      list_ex (\<lambda>(_, t). contains_any_generic_name t names) state)"
| "contains_any_generic_name (Ty_Function _ _ ret params) names =
     (contains_any_generic_name ret names \<or>
      list_ex (\<lambda>param. contains_any_generic_name param names) params)"
| "contains_any_generic_name (Ty_Closure ret params constraints) names =
     (contains_any_generic_name ret names \<or>
      list_ex (\<lambda>param. contains_any_generic_name param names) params \<or>
      constraint_bounds_contains_any_generic_name constraints names)"
| "contains_any_generic_name (Ty_ClosureInstance _ ret params captures) names =
     (contains_any_generic_name ret names \<or>
      list_ex (\<lambda>param. contains_any_generic_name param names) params \<or>
      list_ex (\<lambda>capture. contains_any_generic_name capture names) captures)"
| "contains_any_generic_name _ names = False"
| "constraint_bounds_contains_any_generic_name bounds names =
     list_ex (\<lambda>entry. list_ex (\<lambda>arg. contains_any_generic_name arg names) (cref_args entry))
       (bounds_entries bounds)"

fun ty_contains :: "ty \<Rightarrow> ty \<Rightarrow> bool"
  and ty_contains_below :: "ty \<Rightarrow> ty \<Rightarrow> bool"
  and constraint_bounds_contains_ty :: "constraint_bounds \<Rightarrow> ty \<Rightarrow> bool" where
  "ty_contains container needle =
     (if container = needle then True else ty_contains_below container needle)"
| "ty_contains_below (Ty_Pointer _ _ inner) needle = ty_contains inner needle"
| "ty_contains_below (Ty_Array _ elem) needle = ty_contains elem needle"
| "ty_contains_below (Ty_Slice _ elem) needle = ty_contains elem needle"
| "ty_contains_below (Ty_Named _ _ args) needle = list_ex (\<lambda>arg. ty_contains arg needle) args"
| "ty_contains_below (Ty_DynamicInterface _ _ args) needle =
     list_ex (\<lambda>arg. ty_contains arg needle) args"
| "ty_contains_below (Ty_OpaqueReturn key bounds) needle =
     (list_ex (\<lambda>arg. ty_contains arg needle) (key_args key) \<or>
      constraint_bounds_contains_ty bounds needle)"
| "ty_contains_below (Ty_GeneratedFuture _ output _ _ _ state) needle =
     (ty_contains output needle \<or> list_ex (\<lambda>(_, t). ty_contains t needle) state)"
| "ty_contains_below (Ty_OpaqueState base state) needle =
     (ty_contains base needle \<or> list_ex (\<lambda>(_, t). ty_contains t needle) state)"
| "ty_contains_below (Ty_Function _ _ ret params) needle =
     (ty_contains ret needle \<or> list_ex (\<lambda>param. ty_contains param needle) params)"
| "ty_contains_below (Ty_Closure ret params constraints) needle =
     (ty_contains ret needle \<or> list_ex (\<lambda>param. ty_contains param needle) params \<or>
      constraint_bounds_contains_ty constraints needle)"
| "ty_contains_below (Ty_ClosureInstance _ ret params captures) needle =
     (ty_contains ret needle \<or> list_ex (\<lambda>param. ty_contains param needle) params \<or>
      list_ex (\<lambda>capture. ty_contains capture needle) captures)"
| "ty_contains_below _ needle = False"
| "constraint_bounds_contains_ty bounds needle =
     list_ex (\<lambda>entry. list_ex (\<lambda>arg. ty_contains arg needle) (cref_args entry))
       (bounds_entries bounds)"

declare ty_contains.simps [simp del]

fun type_complexity :: "ty \<Rightarrow> nat"
  and constraint_bounds_complexity :: "constraint_bounds \<Rightarrow> nat" where
  "type_complexity (Ty_Pointer _ _ inner) = 1 + type_complexity inner"
| "type_complexity (Ty_Array _ elem) = 1 + type_complexity elem"
| "type_complexity (Ty_Slice _ elem) = 1 + type_complexity elem"
| "type_complexity (Ty_Named _ _ args) = 1 + sum_list (map type_complexity args)"
| "type_complexity (Ty_DynamicInterface _ _ args) = 1 + sum_list (map type_complexity args)"
| "type_complexity (Ty_OpaqueReturn key bounds) =
     1 + sum_list (map type_complexity (key_args key)) + constraint_bounds_complexity bounds"
| "type_complexity (Ty_GeneratedFuture _ output _ _ _ state) =
     1 + type_complexity output + sum_list (map (\<lambda>(_, t). type_complexity t) state)"
| "type_complexity (Ty_OpaqueState base state) =
     1 + type_complexity base + sum_list (map (\<lambda>(_, t). type_complexity t) state)"
| "type_complexity (Ty_Function _ _ ret params) =
     1 + type_complexity ret + sum_list (map type_complexity params)"
| "type_complexity (Ty_Closure ret params constraints) =
     1 + type_complexity ret + sum_list (map type_complexity params) +
     constraint_bounds_complexity constraints"
| "type_complexity (Ty_ClosureInstance _ ret params captures) =
     1 + type_complexity ret + sum_list (map type_complexity params) +
     sum_list (map type_complexity captures)"
| "type_complexity _ = 0"
| "constraint_bounds_complexity bounds =
     sum_list (map (\<lambda>entry. 1 + sum_list (map type_complexity (cref_args entry)))
       (bounds_entries bounds))"

section \<open>All traversals agree on occurrence\<close>

lemma contains_generic_loop_iff:
  "contains_generic_loop stack \<longleftrightarrow> (\<exists>t \<in> set stack. \<exists>n. occurs (Ty_Generic n) t)"
  by (induction stack rule: contains_generic_loop.induct)
     (simp_all add: occurs_simps bex_Un ex_disj_distrib, blast+)

lemma contains_type_hole_loop_iff:
  "contains_type_hole_loop stack \<longleftrightarrow> (\<exists>t \<in> set stack. \<exists>h. occurs (Ty_Hole h) t)"
  by (induction stack rule: contains_type_hole_loop.induct)
     (simp_all add: occurs_simps bex_Un ex_disj_distrib, blast+)

lemma contains_generic_occurs [occurs_simps]:
  "contains_generic t \<longleftrightarrow> (\<exists>n. occurs (Ty_Generic n) t)"
  by (simp add: contains_generic_def contains_generic_loop_iff)

lemma contains_type_hole_occurs [occurs_simps]:
  "contains_type_hole t \<longleftrightarrow> (\<exists>h. occurs (Ty_Hole h) t)"
  by (simp add: contains_type_hole_def contains_type_hole_loop_iff)

lemma bounds_args_iff: "t \<in> set (bounds_args b) \<longleftrightarrow> (\<exists>e \<in> set (bounds_entries b). t \<in> set (cref_args e))"
  by (auto simp: bounds_args_def)

lemma bounds_ex:
  "(\<exists>e \<in> set (bounds_entries b). \<exists>t \<in> set (cref_args e). P t) \<longleftrightarrow> (\<exists>t \<in> set (bounds_args b). P t)"
  unfolding Bex_def bounds_args_iff by blast

lemma contains_any_generic_name_unfold:
  "contains_any_generic_name t names \<longleftrightarrow>
     (\<exists>n \<in> names. t = Ty_Generic n) \<or>
     (\<exists>c \<in> set (ty_children t). contains_any_generic_name c names)"
  by (cases t) (simp_all add: list_ex_iff bounds_ex case_prod_unfold bex_Un)

lemma contains_any_generic_name_occurs [occurs_simps]:
  "contains_any_generic_name t names \<longleftrightarrow> (\<exists>n \<in> names. occurs (Ty_Generic n) t)"
proof (induction t rule: ty_child_induct)
  case (node t)
  then show ?case
    unfolding contains_any_generic_name_unfold [of t] occurs_unfold [of _ t] by blast
qed

lemma ty_contains_below_unfold:
  "ty_contains_below t needle \<longleftrightarrow> (\<exists>c \<in> set (ty_children t). ty_contains c needle)"
  by (cases t) (simp_all add: list_ex_iff bounds_ex case_prod_unfold bex_Un)

lemma ty_contains_occurs [occurs_simps]: "ty_contains t needle \<longleftrightarrow> occurs needle t"
proof (induction t rule: ty_child_induct)
  case (node t)
  then show ?case
    unfolding ty_contains.simps [of t] ty_contains_below_unfold occurs_unfold [of _ t] by auto
qed

lemma sum_list_member_le: "x \<in> set xs \<Longrightarrow> f x \<le> sum_list (map f xs)" for f :: "'a \<Rightarrow> nat"
  by (rule member_le_sum_list) auto

lemma bounds_complexity_arg:
  assumes "t \<in> set (bounds_args b)"
  shows "type_complexity t < constraint_bounds_complexity b"
proof -
  from assms obtain e where e: "e \<in> set (bounds_entries b)" and t: "t \<in> set (cref_args e)"
    by (auto simp: bounds_args_iff)
  have "type_complexity t < 1 + sum_list (map type_complexity (cref_args e))"
    using sum_list_member_le [OF t, of type_complexity] by simp
  also have "\<dots> \<le> constraint_bounds_complexity b"
    using sum_list_member_le [OF e, of "\<lambda>e. 1 + sum_list (map type_complexity (cref_args e))"]
    by simp
  finally show ?thesis .
qed

lemma type_complexity_child:
  assumes "c \<in> set (ty_children t)"
  shows "type_complexity c < type_complexity t"
proof -
  have args: "type_complexity c \<le> sum_list (map type_complexity ts)" if "c \<in> set ts" for ts
    using that by (rule sum_list_member_le)
  have state: "type_complexity c \<le> sum_list (map (\<lambda>(_, t). type_complexity t) st)"
    if "c \<in> snd ` set st" for st :: "(string \<times> ty) list"
    using that sum_list_member_le [of _ st "\<lambda>(_, t). type_complexity t"] by force
  from assms show ?thesis
    by (cases t)
       (auto simp: less_Suc_eq_le dest!: args state bounds_complexity_arg)
qed

lemma type_complexity_occurs: "occurs x t \<Longrightarrow> x = t \<or> type_complexity x < type_complexity t"
proof (induction t rule: ty_child_induct)
  case (node t)
  from node.prems consider "x = t" | c where "c \<in> set (ty_children t)" "occurs x c"
    by (auto simp: occurs_unfold [of x t])
  then show ?case
  proof cases
    case (2 c)
    then have "x = c \<or> type_complexity x < type_complexity c" by (rule node.IH)
    with type_complexity_child [OF 2(1)] show ?thesis by auto
  qed simp
qed

section \<open>Properties\<close>

text \<open>
  C17: the worklist traversal \<^const>\<open>contains_generic\<close> terminates and finds a generic exactly when one
  occurs in the type, including in the bounds of closures and opaque returns.
\<close>

theorem contains_generic_spec: "contains_generic t \<longleftrightarrow> (\<exists>n. occurs (Ty_Generic n) t)"
  by (rule contains_generic_occurs)

text \<open>
  C18: \<^const>\<open>type_complexity\<close> is a strict measure of nesting: a proper component found by
  \<^const>\<open>ty_contains\<close> is strictly simpler than the type that contains it.
\<close>

theorem type_complexity_decreases:
  assumes "ty_contains t needle" and "needle \<noteq> t"
  shows "type_complexity needle < type_complexity t"
  using assms type_complexity_occurs by (auto simp: ty_contains_occurs)

theorem type_complexity_decreases_witness:
  "type_complexity Ty_I32 < type_complexity (Ty_Slice ReadOnly Ty_I32)"
  by (rule type_complexity_decreases) (simp_all add: ty_contains.simps)

end
