(* ===== verification/Ciel_Subst.thy ===== *)
theory Ciel_Subst
  imports Ciel_Occurs
begin

text \<open>
  Substitution of generics (\<open>substitute_ty\<close> and its companions on constraint references and
  bounds), the one-level map \<open>map_ty_children\<close> and the canonical identity of a type, from
  \<open>src/types.rs\<close>. The laws are those of a substitution calculus: identity, composition, the
  generics that remain, and preservation of the normal form of hidden state.
\<close>

section \<open>Definitions\<close>

text \<open>\<open>state.iter().map(|(name, ty)| (name.clone(), f(ty))).collect()\<close>.\<close>

definition map_state :: "(ty \<Rightarrow> ty) \<Rightarrow> (string \<times> ty) list \<Rightarrow> (string \<times> ty) list" where
  "map_state f state = map (\<lambda>(name, t). (name, f t)) state"

lemma map_state_cong [fundef_cong]:
  "st = st' \<Longrightarrow> (\<And>t. t \<in> snd ` set st' \<Longrightarrow> f t = g t) \<Longrightarrow> map_state f st = map_state g st'"
  by (force simp: map_state_def)

lemma size_positive [termination_simp]: "e \<in> set (positive b) \<Longrightarrow> size e < size b"
  and size_negative [termination_simp]: "e \<in> set (negative b) \<Longrightarrow> size e < size b"
  by (auto intro: size_bounds_entries simp: bounds_entries_def)

fun substitute_ty :: "ty \<Rightarrow> ty_subst \<Rightarrow> ty"
  and substitute_constraint_bounds :: "constraint_bounds \<Rightarrow> ty_subst \<Rightarrow> constraint_bounds"
  and substitute_constraint_ref :: "constraint_ref \<Rightarrow> ty_subst \<Rightarrow> constraint_ref" where
  "substitute_ty (Ty_Hole h) subst = Ty_Hole h"
| "substitute_ty (Ty_Generic name) subst =
     (case subst name of Some t \<Rightarrow> t | None \<Rightarrow> Ty_Generic name)"
| "substitute_ty (Ty_Pointer nullable mutability inner) subst =
     Ty_Pointer nullable mutability (substitute_ty inner subst)"
| "substitute_ty (Ty_Array len elem) subst = Ty_Array len (substitute_ty elem subst)"
| "substitute_ty (Ty_Slice mutability elem) subst = Ty_Slice mutability (substitute_ty elem subst)"
| "substitute_ty (Ty_Named def_id name args) subst =
     named_ty def_id name (map (\<lambda>arg. substitute_ty arg subst) args)"
| "substitute_ty (Ty_GeneratedFuture name output cancel_safe abortable affine_state state) subst =
     Ty_GeneratedFuture name (substitute_ty output subst) cancel_safe abortable affine_state
       (map_state (\<lambda>t. substitute_ty t subst) state)"
| "substitute_ty (Ty_OpaqueState base state) subst =
     opaque_state_ty (substitute_ty base subst)
       (map_state (\<lambda>t. substitute_ty t subst) state)"
| "substitute_ty (Ty_DynamicInterface def_id name args) subst =
     Ty_DynamicInterface def_id name (map (\<lambda>arg. substitute_ty arg subst) args)"
| "substitute_ty (Ty_OpaqueReturn key bounds) subst =
     Ty_OpaqueReturn
       (OpaqueReturnKey (key_def_id key) (map (\<lambda>arg. substitute_ty arg subst) (key_args key)))
       (substitute_constraint_bounds bounds subst)"
| "substitute_ty (Ty_Function is_unsafe abi ret params) subst =
     Ty_Function is_unsafe abi (substitute_ty ret subst)
       (map (\<lambda>param. substitute_ty param subst) params)"
| "substitute_ty (Ty_Closure ret params constraints) subst =
     Ty_Closure (substitute_ty ret subst) (map (\<lambda>param. substitute_ty param subst) params)
       (substitute_constraint_bounds constraints subst)"
| "substitute_ty (Ty_ClosureInstance cid ret params captures) subst =
     Ty_ClosureInstance cid (substitute_ty ret subst)
       (map (\<lambda>param. substitute_ty param subst) params)
       (map (\<lambda>capture. substitute_ty capture subst) captures)"
| "substitute_ty other subst = other"
| "substitute_constraint_bounds bounds subst =
     ConstraintBounds
       (map (\<lambda>entry. substitute_constraint_ref entry subst) (positive bounds))
       (map (\<lambda>entry. substitute_constraint_ref entry subst) (negative bounds))"
| "substitute_constraint_ref entry subst =
     ConstraintRef (cref_def_id entry) (cref_name entry)
       (map (\<lambda>arg. substitute_ty arg subst) (cref_args entry))"

text \<open>
  \<open>map_ty_children\<close> rebuilds a type from its mapped children; unlike substitution it keeps the
  constraints of a closure as they are.
\<close>

fun map_ty_children :: "(ty \<Rightarrow> ty) \<Rightarrow> ty \<Rightarrow> ty" where
  "map_ty_children f (Ty_Pointer nullable mutability inner) = Ty_Pointer nullable mutability (f inner)"
| "map_ty_children f (Ty_Array len elem) = Ty_Array len (f elem)"
| "map_ty_children f (Ty_Slice mutability elem) = Ty_Slice mutability (f elem)"
| "map_ty_children f (Ty_Named def_id name args) = named_ty def_id name (map f args)"
| "map_ty_children f (Ty_GeneratedFuture name output cancel_safe abortable affine_state state) =
     Ty_GeneratedFuture name (f output) cancel_safe abortable affine_state
       (map_state f state)"
| "map_ty_children f (Ty_OpaqueState base state) =
     opaque_state_ty (f base) (map_state f state)"
| "map_ty_children f (Ty_DynamicInterface def_id name args) =
     Ty_DynamicInterface def_id name (map f args)"
| "map_ty_children f (Ty_OpaqueReturn key bounds) =
     Ty_OpaqueReturn (OpaqueReturnKey (key_def_id key) (map f (key_args key)))
       (ConstraintBounds
         (map (\<lambda>entry. ConstraintRef (cref_def_id entry) (cref_name entry) (map f (cref_args entry)))
           (positive bounds))
         (map (\<lambda>entry. ConstraintRef (cref_def_id entry) (cref_name entry) (map f (cref_args entry)))
           (negative bounds)))"
| "map_ty_children f (Ty_Function is_unsafe abi ret params) =
     Ty_Function is_unsafe abi (f ret) (map f params)"
| "map_ty_children f (Ty_Closure ret params constraints) =
     Ty_Closure (f ret) (map f params) constraints"
| "map_ty_children f (Ty_ClosureInstance cid ret params captures) =
     Ty_ClosureInstance cid (f ret) (map f params) (map f captures)"
| "map_ty_children f t = t"

text \<open>The children that \<open>map_ty_children\<close> visits: all but the constraints of a closure.\<close>

fun ty_mapped_children :: "ty \<Rightarrow> ty list" where
  "ty_mapped_children (Ty_Closure ret params _) = ret # params"
| "ty_mapped_children t = ty_children t"

lemma map_ty_children_cong [fundef_cong]:
  assumes "t = t'" and "\<And>c. c \<in> set (ty_mapped_children t') \<Longrightarrow> f c = g c"
  shows "map_ty_children f t = map_ty_children g t'"
  using assms
  by (cases t')
     (auto simp: bounds_args_def bounds_entries_def named_ty_def cong: map_state_cong map_cong)

lemma ty_mapped_children_subset: "set (ty_mapped_children t) \<subseteq> set (ty_children t)"
  by (cases t) auto

lemma size_ty_mapped_children [termination_simp]:
  "c \<in> set (ty_mapped_children t) \<Longrightarrow> size c < size t"
  using ty_mapped_children_subset size_ty_children by blast

function (sequential) canonical_type_identity_ty :: "ty \<Rightarrow> ty" where
  "canonical_type_identity_ty (Ty_OpaqueState base _) = canonical_type_identity_ty base"
| "canonical_type_identity_ty t = map_ty_children canonical_type_identity_ty t"
  by pat_completeness auto
termination
  by (relation "measure size")
     (simp, simp, (simp only: in_measure, erule size_ty_mapped_children)+)

section \<open>Maps over states and bounds\<close>

definition map_cref :: "(ty \<Rightarrow> ty) \<Rightarrow> constraint_ref \<Rightarrow> constraint_ref" where
  "map_cref f e = ConstraintRef (cref_def_id e) (cref_name e) (map f (cref_args e))"

definition map_bounds :: "(ty \<Rightarrow> ty) \<Rightarrow> constraint_bounds \<Rightarrow> constraint_bounds" where
  "map_bounds f b = ConstraintBounds (map (map_cref f) (positive b)) (map (map_cref f) (negative b))"

lemma map_state_simps [simp]:
  "map_state f [] = []"
  "map_state f (p # st) = (fst p, f (snd p)) # map_state f st"
  "map_state f (st @ st') = map_state f st @ map_state f st'"
  "map_state f st = [] \<longleftrightarrow> st = []"
  "[] = map_state f st \<longleftrightarrow> st = []"
  by (auto simp: map_state_def split: prod.splits)

lemma map_state_comp [simp]: "map_state f (map_state g st) = map_state (\<lambda>t. f (g t)) st"
  by (induction st) auto

lemma map_state_id: "(\<And>t. t \<in> snd ` set st \<Longrightarrow> f t = t) \<Longrightarrow> map_state f st = st"
  by (induction st) auto

lemma snd_map_state [simp]: "map snd (map_state f st) = map f (map snd st)"
  by (induction st) auto

lemma map_state_image [simp]: "snd ` set (map_state f st) = f ` snd ` set st"
  by (induction st) auto

lemma map_bounds_cong:
  "(\<And>t. t \<in> set (bounds_args b) \<Longrightarrow> f t = g t) \<Longrightarrow> map_bounds f b = map_bounds g b"
  by (auto simp: map_bounds_def map_cref_def bounds_args_def bounds_entries_def)

lemma map_bounds_comp [simp]: "map_bounds f (map_bounds g b) = map_bounds (\<lambda>t. f (g t)) b"
  by (simp add: map_bounds_def map_cref_def)

lemma map_bounds_ident: "map_bounds (\<lambda>t. t) b = b"
proof -
  have "map_cref (\<lambda>t. t) = (\<lambda>e. e)" by (rule ext) (simp add: map_cref_def)
  then show ?thesis by (simp add: map_bounds_def)
qed

lemma map_bounds_id: "(\<And>t. t \<in> set (bounds_args b) \<Longrightarrow> f t = t) \<Longrightarrow> map_bounds f b = b"
  using map_bounds_cong [of b f "\<lambda>t. t"] by (simp add: map_bounds_ident)

lemma bounds_args_map [simp]: "bounds_args (map_bounds f b) = map f (bounds_args b)"
  by (simp add: bounds_args_def bounds_entries_def map_bounds_def map_cref_def map_concat comp_def)

lemma substitute_bounds_map [subst_simps]:
  "substitute_constraint_bounds b s = map_bounds (\<lambda>t. substitute_ty t s) b"
  by (simp add: map_bounds_def map_cref_def)

declare substitute_constraint_bounds.simps [simp del] substitute_bounds_map [simp]
declare named_ty_def [simp]

section \<open>Hidden state\<close>

lemma opaque_state_ty_append:
  "opaque_state_ty (opaque_state_ty b st) st' = opaque_state_ty b (st @ st')"
  by (cases "(b, st)" rule: opaque_state_ty.cases; cases st') simp_all

lemma substitute_opaque_state_ty [subst_simps]:
  "substitute_ty (opaque_state_ty b st) s =
     opaque_state_ty (substitute_ty b s) (map_state (\<lambda>t. substitute_ty t s) st)"
  by (cases "(b, st)" rule: opaque_state_ty.cases) (simp_all add: opaque_state_ty_append)

lemma occurs_opaque_state_ty:
  "ty_children x = [] \<Longrightarrow>
     occurs x (opaque_state_ty b st) \<longleftrightarrow> occurs x b \<or> (\<exists>p \<in> set st. occurs x (snd p))"
  by (cases "(b, st)" rule: opaque_state_ty.cases) (auto simp: occurs_simps bex_Un)

section \<open>Laws of substitution\<close>

text \<open>The generics of a type, as a set of names.\<close>

definition generics_of :: "ty \<Rightarrow> string set" where
  "generics_of t = {n. occurs (Ty_Generic n) t}"

definition subst_compose :: "ty_subst \<Rightarrow> ty_subst \<Rightarrow> ty_subst" where
  "subst_compose s1 s2 = (\<lambda>n. case s1 n of None \<Rightarrow> s2 n | Some t \<Rightarrow> Some (substitute_ty t s2))"

lemma substitute_cong_children:
  assumes "\<And>c. c \<in> set (ty_children t) \<Longrightarrow> substitute_ty c s = substitute_ty c s'"
    and "\<And>n. t = Ty_Generic n \<Longrightarrow> s n = s' n"
  shows "substitute_ty t s = substitute_ty t s'"
  using assms
  by (cases t) (auto cong: map_state_cong intro!: map_bounds_cong arg_cong2 [of _ _ _ _ opaque_state_ty])

lemma substitute_compose:
  "substitute_ty (substitute_ty t s1) s2 = substitute_ty t (subst_compose s1 s2)"
proof (induction t rule: ty_child_induct)
  case (node t)
  show ?case
  proof (cases t)
    case (Ty_Generic n)
    then show ?thesis by (simp add: subst_compose_def split: option.splits)
  next
    case (Ty_OpaqueState b st)
    with node show ?thesis
      by (auto simp: substitute_opaque_state_ty cong: map_state_cong
          intro!: arg_cong2 [of _ _ _ _ opaque_state_ty])
  qed (use node in \<open>auto cong: map_state_cong intro!: map_bounds_cong\<close>)
qed

lemma generics_of_children:
  "generics_of t = (case t of Ty_Generic n \<Rightarrow> {n} | _ \<Rightarrow> {}) \<union> (\<Union>c \<in> set (ty_children t). generics_of c)"
  by (cases t) (auto simp: generics_of_def occurs_simps)

lemma generics_of_simps [simp]:
  "generics_of (Ty_Hole h) = {}" "generics_of Ty_Never = {}" "generics_of Ty_Void = {}"
  "generics_of Ty_Bool = {}" "generics_of Ty_Char = {}" "generics_of Ty_I8 = {}"
  "generics_of Ty_I16 = {}" "generics_of Ty_I32 = {}" "generics_of Ty_I64 = {}"
  "generics_of Ty_U8 = {}" "generics_of Ty_U16 = {}" "generics_of Ty_U32 = {}"
  "generics_of Ty_U64 = {}" "generics_of Ty_Usize = {}" "generics_of Ty_F32 = {}"
  "generics_of Ty_F64 = {}" "generics_of (Ty_CSpelling d a sp) = {}" "generics_of Ty_Unknown = {}"
  "generics_of (Ty_Generic n) = {n}"
  "generics_of (Ty_Pointer b m i) = generics_of i"
  "generics_of (Ty_Array len i) = generics_of i"
  "generics_of (Ty_Slice m i) = generics_of i"
  "generics_of (Ty_Named o' nm ts) = (\<Union>t \<in> set ts. generics_of t)"
  "generics_of (Ty_GeneratedFuture nm u b1 b2 b3 st) =
     generics_of u \<union> (\<Union>t \<in> snd ` set st. generics_of t)"
  "generics_of (Ty_OpaqueState u st) = generics_of u \<union> (\<Union>t \<in> snd ` set st. generics_of t)"
  "generics_of (Ty_DynamicInterface d nm ts) = (\<Union>t \<in> set ts. generics_of t)"
  "generics_of (Ty_OpaqueReturn k bs) =
     (\<Union>t \<in> set (key_args k). generics_of t) \<union> (\<Union>t \<in> set (bounds_args bs). generics_of t)"
  "generics_of (Ty_Function un abi u ts) = generics_of u \<union> (\<Union>t \<in> set ts. generics_of t)"
  "generics_of (Ty_Closure u ts bs) =
     generics_of u \<union> (\<Union>t \<in> set ts. generics_of t) \<union> (\<Union>t \<in> set (bounds_args bs). generics_of t)"
  "generics_of (Ty_ClosureInstance cid u ts cs) =
     generics_of u \<union> (\<Union>t \<in> set ts. generics_of t) \<union> (\<Union>t \<in> set cs. generics_of t)"
  by ((subst generics_of_children, auto) [1])+

lemma generics_of_opaque [simp]:
  "generics_of (opaque_state_ty b st) = generics_of b \<union> (\<Union>t \<in> snd ` set st. generics_of t)"
  by (auto simp: generics_of_def occurs_opaque_state_ty)

lemma generics_of_substitute:
  "generics_of (substitute_ty t s) =
     (\<Union>n \<in> generics_of t. generics_of (case s n of Some u \<Rightarrow> u | None \<Rightarrow> Ty_Generic n))"
proof (induction t rule: ty_child_induct)
  case (node t)
  show ?case
  proof (cases t)
    case (Ty_Generic n)
    then show ?thesis
      by (simp add: generics_of_def occurs_simps split: option.splits)
  qed (use node in \<open>auto simp: map_state_image\<close>)
qed

section \<open>Normal form of hidden state\<close>

text \<open>
  \<open>opaque_state_ty\<close> is the only constructor function of hidden state; the types it builds never
  carry an empty state and never nest two states.
\<close>

definition hidden_state_normal :: "ty \<Rightarrow> bool" where
  "hidden_state_normal t \<longleftrightarrow>
     list_all (\<lambda>x. case x of Ty_OpaqueState b st \<Rightarrow> st \<noteq> [] \<and> \<not> is_opaque_state b | _ \<Rightarrow> True) (ty_nodes t)"

lemma hidden_state_normal_children:
  "hidden_state_normal t \<longleftrightarrow>
     (case t of Ty_OpaqueState b st \<Rightarrow> st \<noteq> [] \<and> \<not> is_opaque_state b | _ \<Rightarrow> True) \<and>
     (\<forall>c \<in> set (ty_children t). hidden_state_normal c)"
  by (auto simp: hidden_state_normal_def ty_nodes.simps [of t] list_all_iff)

lemma hidden_state_normal_child:
  "hidden_state_normal t \<Longrightarrow> c \<in> set (ty_children t) \<Longrightarrow> hidden_state_normal c"
  by (simp add: hidden_state_normal_children [of t])

lemma hidden_state_normal_opaque:
  assumes "hidden_state_normal b" and "\<And>t. t \<in> snd ` set st \<Longrightarrow> hidden_state_normal t"
  shows "hidden_state_normal (opaque_state_ty b st)"
proof (cases st)
  case Nil
  with assms show ?thesis by simp
next
  case (Cons p st')
  show ?thesis
  proof (cases b)
    case (Ty_OpaqueState b0 st0)
    with assms Cons show ?thesis
      by (auto simp: hidden_state_normal_children [of "Ty_OpaqueState b0 _"])
  qed (use assms Cons in \<open>auto simp: hidden_state_normal_children [of "Ty_OpaqueState _ _"]\<close>)
qed

lemma hidden_state_normal_plain:
  assumes "\<not> is_opaque_state t" and "\<And>c. c \<in> set (ty_children t) \<Longrightarrow> hidden_state_normal c"
  shows "hidden_state_normal t"
  using assms by (subst hidden_state_normal_children) (cases t; simp)

lemma substitute_shape:
  assumes "\<not> is_opaque_state t" and "\<And>n. t \<noteq> Ty_Generic n"
  shows "\<not> is_opaque_state (substitute_ty t s)"
    and "ty_children (substitute_ty t s) = map (\<lambda>c. substitute_ty c s) (ty_children t)"
  using assms by (cases t; simp)+

lemma hidden_state_normal_substitute:
  assumes "\<And>n u. s n = Some u \<Longrightarrow> hidden_state_normal u"
  shows "hidden_state_normal t \<Longrightarrow> hidden_state_normal (substitute_ty t s)"
proof (induction t rule: ty_child_induct)
  case (node t)
  have ih: "hidden_state_normal (substitute_ty c s)" if "c \<in> set (ty_children t)" for c
    using that node.IH hidden_state_normal_child [OF node.prems] by blast
  consider n where "t = Ty_Generic n" | b st where "t = Ty_OpaqueState b st"
    | "\<not> is_opaque_state t" "\<And>n. t \<noteq> Ty_Generic n"
    by (cases t) auto
  then show ?case
  proof cases
    case 1
    with node.prems assms show ?thesis by (auto split: option.splits)
  next
    case (2 b st)
    have "hidden_state_normal t'" if "t' \<in> snd ` set (map_state (\<lambda>t. substitute_ty t s) st)" for t'
      using that ih 2 by (auto simp only: map_state_image ty_children.simps
          list.set image_iff set_map)
    moreover have "hidden_state_normal (substitute_ty b s)" using ih 2 by simp
    ultimately show ?thesis
      unfolding 2 substitute_ty.simps by (rule hidden_state_normal_opaque [rotated])
  next
    case 3
    then show ?thesis
      by (rule hidden_state_normal_plain [OF substitute_shape(1)]) (use 3 ih in \<open>auto simp: substitute_shape(2)\<close>)
  qed
qed

lemma substitute_id:
  assumes "\<And>n. n \<in> generics_of t \<Longrightarrow> s n = None \<or> s n = Some (Ty_Generic n)"
    and "hidden_state_normal t"
  shows "substitute_ty t s = t"
  using assms
proof (induction t rule: ty_child_induct)
  case (node t)
  have ih: "substitute_ty c s = c" if "c \<in> set (ty_children t)" for c
    using that node.prems hidden_state_normal_child [OF node.prems(2)]
    by (intro node.IH) (auto simp: generics_of_children [of t])
  show ?case
  proof (cases t)
    case (Ty_Generic n)
    with node.prems(1) show ?thesis by auto
  next
    case (Ty_OpaqueState b st)
    then have "map_state (\<lambda>t. substitute_ty t s) st = st" and "substitute_ty b s = b"
      using ih by (auto intro: map_state_id)
    moreover have "st \<noteq> []" "\<not> is_opaque_state b"
      using node.prems(2) [unfolded hidden_state_normal_children [of t]] Ty_OpaqueState by auto
    ultimately show ?thesis
      using Ty_OpaqueState by (cases b; cases st) simp_all
  next
    case (Ty_OpaqueReturn key bounds)
    have "map (\<lambda>arg. substitute_ty arg s) (key_args key) = key_args key"
      using ih Ty_OpaqueReturn by (simp add: map_idI)
    with ih Ty_OpaqueReturn show ?thesis by (simp add: map_bounds_id)
  qed (use ih in \<open>auto intro!: map_idI map_state_id map_bounds_id\<close>)
qed

section \<open>Canonical identity\<close>

lemma map_ty_children_comp:
  "\<not> is_opaque_state t \<Longrightarrow>
     map_ty_children f (map_ty_children g t) = map_ty_children (\<lambda>c. f (g c)) t"
  by (cases t) auto

lemma map_ty_children_shape:
  "\<not> is_opaque_state t \<Longrightarrow> \<not> is_opaque_state (map_ty_children f t)"
  by (cases t) auto

lemma canonical_step:
  "\<not> is_opaque_state t \<Longrightarrow>
     canonical_type_identity_ty t = map_ty_children canonical_type_identity_ty t"
  by (cases t) simp_all

lemma canonical_not_opaque: "\<not> is_opaque_state (canonical_type_identity_ty t)"
proof (induction t rule: ty_child_induct)
  case (node t)
  show ?case
  proof (cases "is_opaque_state t")
    case True
    then obtain b st where "t = Ty_OpaqueState b st" by (cases t) auto
    with node show ?thesis by simp
  next
    case False
    then show ?thesis by (simp add: canonical_step map_ty_children_shape)
  qed
qed

lemma canonical_idem:
  "canonical_type_identity_ty (canonical_type_identity_ty t) = canonical_type_identity_ty t"
proof (induction t rule: ty_child_induct)
  case (node t)
  show ?case
  proof (cases "is_opaque_state t")
    case True
    then obtain b st where "t = Ty_OpaqueState b st" by (cases t) auto
    with node show ?thesis by simp
  next
    case False
    then have "canonical_type_identity_ty (canonical_type_identity_ty t) =
        map_ty_children (\<lambda>c. canonical_type_identity_ty (canonical_type_identity_ty c)) t"
      by (simp add: canonical_step [OF map_ty_children_shape] canonical_step map_ty_children_comp)
    also have "\<dots> = map_ty_children canonical_type_identity_ty t"
      by (rule map_ty_children_cong) (use node ty_mapped_children_subset in auto)
    finally show ?thesis using False by (simp add: canonical_step)
  qed
qed

lemma canonical_opaque_state_ty [simp]:
  "canonical_type_identity_ty (opaque_state_ty b st) = canonical_type_identity_ty b"
  by (cases "(b, st)" rule: opaque_state_ty.cases) simp_all

section \<open>Properties\<close>

text \<open>
  C11: applying one substitution after another is applying their composition, on every type, with
  hidden state merged and bounds rewritten on the way.
\<close>

theorem substitute_ty_compose:
  "substitute_ty (substitute_ty t s1) s2 = substitute_ty t (subst_compose s1 s2)"
  by (rule substitute_compose)

text \<open>
  C19: a substitution removes exactly the generics it binds: what remains are the generics of the
  bound types and the generics left unbound.
\<close>

theorem substitute_ty_generics:
  "generics_of (substitute_ty t s) =
     (\<Union>n \<in> generics_of t. generics_of (case s n of Some u \<Rightarrow> u | None \<Rightarrow> Ty_Generic n))"
  by (rule generics_of_substitute)

text \<open>
  C20: substitution keeps hidden state in normal form (never empty, never nested) when the bound types
  are in normal form.
\<close>

theorem substitute_ty_normal:
  assumes "hidden_state_normal t" and "\<forall>u \<in> ran s. hidden_state_normal u"
  shows "hidden_state_normal (substitute_ty t s)"
  using assms by (intro hidden_state_normal_substitute) (auto intro: ranI)

theorem substitute_ty_normal_witness:
  "hidden_state_normal (substitute_ty (Ty_OpaqueState (Ty_Generic ''T'') [(''s'', Ty_I32)])
     [''T'' \<mapsto> Ty_OpaqueState Ty_Bool [(''t'', Ty_U8)]])"
  by (rule substitute_ty_normal) (simp_all add: hidden_state_normal_def ty_nodes.simps)


end
