(* ===== verification/Ciel_Assign.thy ===== *)
theory Ciel_Assign
  imports Ciel_Subst
begin

text \<open>
  Comparison of types up to hidden state and assignability: \<open>Ty::same_ignoring_opaque_state\<close> and
  \<open>Ty::can_assign_from\<close> of \<open>src/types.rs\<close>, with the closure-signature checks built on them.
\<close>

section \<open>Definitions\<close>

lemma size_zip:
  "(x, y) \<in> set (zip xs ys) \<Longrightarrow> size x + size y \<le> size_list size xs + size_list size ys"
  for x y :: ty
  by (auto dest!: in_set_zipE intro!: add_mono size_ty_list)

lemma size_zip_state:
  "((a, x), (b, y)) \<in> set (zip xs ys) \<Longrightarrow> size x + size y \<le>
     size_list (size_prod (\<lambda>x. 0) size) xs + size_list (size_prod (\<lambda>x. 0) size) ys"
  for x y :: ty
  by (force elim!: in_set_zipE intro!: add_mono size_state_snd)

text \<open>
  The source is one \<open>match\<close> on the pair of types; its first two arms strip hidden state on the
  left and then on the right, the rest compares constructor by constructor.
\<close>

function (sequential) same_ignoring_opaque_state :: "ty \<Rightarrow> ty \<Rightarrow> bool"
  and same_match :: "ty \<Rightarrow> ty \<Rightarrow> bool" where
  "same_ignoring_opaque_state left right =
     (if left = right then True
      else if is_opaque_state left then same_ignoring_opaque_state (opaque_base left) right
      else if is_opaque_state right then same_ignoring_opaque_state left (opaque_base right)
      else same_match left right)"
| "same_match (Ty_Pointer left_nullable left_mutability left_inner) right =
     (case right of Ty_Pointer right_nullable right_mutability right_inner \<Rightarrow>
        left_nullable = right_nullable \<and> left_mutability = right_mutability \<and>
        same_ignoring_opaque_state left_inner right_inner
      | _ \<Rightarrow> False)"
| "same_match (Ty_Array left_len left_elem) right =
     (case right of Ty_Array right_len right_elem \<Rightarrow>
        left_len = right_len \<and> same_ignoring_opaque_state left_elem right_elem
      | _ \<Rightarrow> False)"
| "same_match (Ty_Slice left_mutability left_elem) right =
     (case right of Ty_Slice right_mutability right_elem \<Rightarrow>
        left_mutability = right_mutability \<and> same_ignoring_opaque_state left_elem right_elem
      | _ \<Rightarrow> False)"
| "same_match (Ty_Named left_def_id left_name left_args) right =
     (case right of Ty_Named right_def_id right_name right_args \<Rightarrow>
        named_ty_identity_eq left_def_id left_name right_def_id right_name \<and>
        zip_all same_ignoring_opaque_state left_args right_args
      | _ \<Rightarrow> False)"
| "same_match (Ty_GeneratedFuture left_name left_output left_cancel_safe left_abortable
       left_affine_state left_state) right =
     (case right of Ty_GeneratedFuture right_name right_output right_cancel_safe right_abortable
         right_affine_state right_state \<Rightarrow>
        left_name = right_name \<and> left_cancel_safe = right_cancel_safe \<and>
        left_abortable = right_abortable \<and> left_affine_state = right_affine_state \<and>
        same_ignoring_opaque_state left_output right_output \<and>
        zip_all (\<lambda>left right. fst left = fst right \<and>
            same_ignoring_opaque_state (snd left) (snd right)) left_state right_state
      | _ \<Rightarrow> False)"
| "same_match (Ty_DynamicInterface left_def_id _ left_args) right =
     (case right of Ty_DynamicInterface right_def_id _ right_args \<Rightarrow>
        left_def_id = right_def_id \<and> zip_all same_ignoring_opaque_state left_args right_args
      | _ \<Rightarrow> False)"
| "same_match (Ty_Function left_is_unsafe left_abi left_ret left_params) right =
     (case right of Ty_Function right_is_unsafe right_abi right_ret right_params \<Rightarrow>
        left_is_unsafe = right_is_unsafe \<and> left_abi = right_abi \<and>
        same_ignoring_opaque_state left_ret right_ret \<and>
        zip_all same_ignoring_opaque_state left_params right_params
      | _ \<Rightarrow> False)"
| "same_match (Ty_Closure left_ret left_params left_constraints) right =
     (case right of Ty_Closure right_ret right_params right_constraints \<Rightarrow>
        left_constraints = right_constraints \<and>
        same_ignoring_opaque_state left_ret right_ret \<and>
        zip_all same_ignoring_opaque_state left_params right_params
      | _ \<Rightarrow> False)"
| "same_match (Ty_ClosureInstance left_id left_ret left_params left_captures) right =
     (case right of Ty_ClosureInstance right_id right_ret right_params right_captures \<Rightarrow>
        left_id = right_id \<and>
        same_ignoring_opaque_state left_ret right_ret \<and>
        zip_all same_ignoring_opaque_state left_params right_params \<and>
        zip_all same_ignoring_opaque_state left_captures right_captures
      | _ \<Rightarrow> False)"
| "same_match _ right = False"
  by pat_completeness auto
termination
  by (relation "measures [case_sum (\<lambda>(l, r). size l + size r) (\<lambda>(l, r). size l + size r), case_sum (\<lambda>_. 1) (\<lambda>_. 0)]")
     (auto dest: size_zip size_zip_state size_opaque_base)

declare same_ignoring_opaque_state.simps [simp del]

fun is_hole :: "ty \<Rightarrow> bool" where
  "is_hole (Ty_Hole _) = True"
| "is_hole _ = False"

text \<open>\<open>Ty::can_assign_from\<close>: \<open>can_assign_from expected source\<close>.\<close>

function (sequential) can_assign_from :: "ty \<Rightarrow> ty \<Rightarrow> bool"
  and assign_weaken :: "ty \<Rightarrow> ty \<Rightarrow> bool" where
  "can_assign_from self source =
     (if is_opaque_state self then can_assign_from (opaque_base self) source
      else if is_opaque_state source then can_assign_from self (opaque_base source)
      else if is_hole self \<or> is_hole source then True
      else if same_ignoring_opaque_state self source then True
      else assign_weaken self source)"
| "assign_weaken (Ty_Pointer expected_nullable expected_mutability expected) source =
     (case source of Ty_Pointer actual_nullable actual_mutability actual \<Rightarrow>
        (expected_nullable \<and> \<not> actual_nullable \<and>
           pointer_view_can_weaken expected_mutability actual_mutability \<and>
           same_ignoring_opaque_state expected actual) \<or>
        (expected_nullable = actual_nullable \<and>
           pointer_view_can_weaken expected_mutability actual_mutability \<and>
           same_ignoring_opaque_state expected actual)
      | _ \<Rightarrow> False)"
| "assign_weaken (Ty_Slice expected_mutability expected) source =
     (case source of Ty_Slice actual_mutability actual \<Rightarrow>
        pointer_view_can_weaken expected_mutability actual_mutability \<and>
        same_ignoring_opaque_state expected actual
      | _ \<Rightarrow> False)"
| "assign_weaken (Ty_Function expected_unsafe expected_abi expected_ret expected_params) source =
     (case source of Ty_Function actual_unsafe actual_abi actual_ret actual_params \<Rightarrow>
        expected_abi = actual_abi \<and>
        zip_all same_ignoring_opaque_state expected_params actual_params \<and>
        can_assign_from expected_ret actual_ret \<and>
        (\<not> actual_unsafe \<or> expected_unsafe)
      | _ \<Rightarrow> False)"
| "assign_weaken (Ty_Closure expected_ret expected_params expected_constraints) source =
     (case source of
        Ty_Closure actual_ret actual_params actual_constraints \<Rightarrow>
          zip_all same_ignoring_opaque_state expected_params actual_params \<and>
          can_assign_from expected_ret actual_ret \<and>
          proves_all actual_constraints expected_constraints
      | Ty_ClosureInstance _ actual_ret actual_params _ \<Rightarrow>
          bounds_is_empty expected_constraints \<and>
          zip_all same_ignoring_opaque_state expected_params actual_params \<and>
          can_assign_from expected_ret actual_ret
      | _ \<Rightarrow> False)"
| "assign_weaken _ source = False"
  by pat_completeness auto
termination
  by (relation "measures [case_sum (\<lambda>(l, r). size l + size r) (\<lambda>(l, r). size l + size r),
        case_sum (\<lambda>_. 1) (\<lambda>_. 0)]")
     (auto dest: size_opaque_base)

declare can_assign_from.simps [simp del]

fun closure_instance_satisfies_signature :: "ty \<Rightarrow> ty \<Rightarrow> bool" where
  "closure_instance_satisfies_signature (Ty_Closure expected_ret expected_params expected_constraints)
     (Ty_ClosureInstance _ actual_ret actual_params _) =
     (bounds_is_empty expected_constraints \<and> expected_params = actual_params \<and>
      can_assign_from expected_ret actual_ret)"
| "closure_instance_satisfies_signature _ _ = False"

fun closure_shape_satisfies :: "ty \<Rightarrow> ty list \<Rightarrow> ty \<Rightarrow> bool" where
  "closure_shape_satisfies expected_ret expected_params (Ty_Closure actual_ret actual_params _) =
     (expected_params = actual_params \<and> can_assign_from expected_ret actual_ret)"
| "closure_shape_satisfies expected_ret expected_params
     (Ty_ClosureInstance _ actual_ret actual_params _) =
     (expected_params = actual_params \<and> can_assign_from expected_ret actual_ret)"
| "closure_shape_satisfies _ _ _ = False"


section \<open>Comparison up to hidden state is equality of erasures\<close>

text \<open>
  The specification of \<^const>\<open>same_ignoring_opaque_state\<close>: two types are the same when they
  become equal once hidden state is dropped and the display name of a nominal type with an
  identity is forgotten.  Constraint bounds and opaque return keys are compared literally.
\<close>

fun erase_state :: "ty \<Rightarrow> ty" where
  "erase_state (Ty_OpaqueState b st) = erase_state b"
| "erase_state (Ty_Pointer n m inner) = Ty_Pointer n m (erase_state inner)"
| "erase_state (Ty_Array len elem) = Ty_Array len (erase_state elem)"
| "erase_state (Ty_Slice m elem) = Ty_Slice m (erase_state elem)"
| "erase_state (Ty_Named d name args) =
     Ty_Named d (if d = None then name else []) (map erase_state args)"
| "erase_state (Ty_GeneratedFuture name out cs ab aff st) =
     Ty_GeneratedFuture name (erase_state out) cs ab aff (map_state erase_state st)"
| "erase_state (Ty_DynamicInterface d name args) =
     Ty_DynamicInterface d [] (map erase_state args)"
| "erase_state (Ty_Function u abi ret ps) = Ty_Function u abi (erase_state ret) (map erase_state ps)"
| "erase_state (Ty_Closure ret ps cs) = Ty_Closure (erase_state ret) (map erase_state ps) cs"
| "erase_state (Ty_ClosureInstance i ret ps caps) =
     Ty_ClosureInstance i (erase_state ret) (map erase_state ps) (map erase_state caps)"
| "erase_state t = t"

lemma named_ty_identity_eq_iff:
  "named_ty_identity_eq d n d' n' \<longleftrightarrow>
     d = d' \<and> (if d = None then n else []) = (if d' = None then n' else [])"
  by (cases d; cases d') auto

lemma map_eq_zip_all: "map f xs = map f ys \<longleftrightarrow> zip_all (\<lambda>x y. f x = f y) xs ys"
  by (auto simp: zip_all_iff_list_all2 list_all2_conv_all_nth list_eq_iff_nth_eq)

lemma map_state_eq_zip_all:
  "map_state f xs = map_state f ys \<longleftrightarrow>
     zip_all (\<lambda>x y. fst x = fst y \<and> f (snd x) = f (snd y)) xs ys"
  by (simp add: map_state_def map_eq_zip_all case_prod_unfold)

lemmas erase_eq_simps = map_eq_zip_all map_state_eq_zip_all named_ty_identity_eq_iff list_all_iff

lemma not_opaque_erase_state:
  "\<not> is_opaque_state t \<Longrightarrow> \<not> is_opaque_state (erase_state t)"
  by (cases t) auto

lemma erase_opaque_base: "is_opaque_state t \<Longrightarrow> erase_state (opaque_base t) = erase_state t"
  by (cases t) auto

lemma same_ignoring_opaque_state_erase:
  "same_ignoring_opaque_state l r \<longleftrightarrow> erase_state l = erase_state r"
  "\<not> is_opaque_state l' \<Longrightarrow> \<not> is_opaque_state r' \<Longrightarrow> l' \<noteq> r' \<Longrightarrow>
     same_match l' r' \<longleftrightarrow> erase_state l' = erase_state r'"
proof (induction l r and l' r' rule: same_ignoring_opaque_state_same_match.induct)
  case (1 l r)
  then show ?case
    by (subst same_ignoring_opaque_state.simps) (auto simp: erase_opaque_base)
qed ((case_tac right, auto simp: erase_eq_simps)[1])+

section \<open>Assignability: the rules of the language\<close>

text \<open>
  The specification of \<^const>\<open>can_assign_from\<close> on erased types: \<open>assignable expected actual\<close>.
  Nullability, view mutability and unsafety may be weakened, the result of a callable is
  covariant, its parameters are invariant, a closure may drop constraints, and a closure
  instance may be used at its unconstrained signature.
\<close>

inductive assignable :: "ty \<Rightarrow> ty \<Rightarrow> bool" where
  assign_same: "assignable t t"
| assign_to_hole: "assignable (Ty_Hole h) t"
| assign_from_hole: "assignable t (Ty_Hole h)"
| assign_pointer: "(n' \<longrightarrow> n) \<Longrightarrow> pointer_view_can_weaken m m' \<Longrightarrow>
    assignable (Ty_Pointer n m t) (Ty_Pointer n' m' t)"
| assign_slice: "pointer_view_can_weaken m m' \<Longrightarrow> assignable (Ty_Slice m t) (Ty_Slice m' t)"
| assign_function: "assignable r r' \<Longrightarrow> (u' \<longrightarrow> u) \<Longrightarrow>
    assignable (Ty_Function u abi r ps) (Ty_Function u' abi r' ps)"
| assign_closure: "assignable r r' \<Longrightarrow> proves_all cs' cs \<Longrightarrow>
    assignable (Ty_Closure r ps cs) (Ty_Closure r' ps cs')"
| assign_instance: "assignable r r' \<Longrightarrow> bounds_is_empty cs \<Longrightarrow>
    assignable (Ty_Closure r ps cs) (Ty_ClosureInstance i r' ps caps)"

lemma erase_state_hole: "\<not> is_opaque_state t \<Longrightarrow> erase_state t = Ty_Hole h \<longleftrightarrow> t = Ty_Hole h"
  by (cases t) auto

lemma is_hole_iff: "is_hole t \<longleftrightarrow> (\<exists>h. t = Ty_Hole h)"
  by (cases t) auto

lemma zip_all_same_erase:
  "zip_all same_ignoring_opaque_state xs ys \<longleftrightarrow> map erase_state xs = map erase_state ys"
  by (simp add: map_eq_zip_all same_ignoring_opaque_state_erase)

lemma can_assign_from_assignable:
  "can_assign_from e a \<longleftrightarrow> assignable (erase_state e) (erase_state a)"
  "\<not> is_opaque_state e' \<Longrightarrow> \<not> is_opaque_state a' \<Longrightarrow> \<not> is_hole e' \<Longrightarrow> \<not> is_hole a' \<Longrightarrow>
     erase_state e' \<noteq> erase_state a' \<Longrightarrow>
     assign_weaken e' a' \<longleftrightarrow> assignable (erase_state e') (erase_state a')"
proof (induction e a and e' a' rule: can_assign_from_assign_weaken.induct)
  case (1 e a)
  then show ?case
    by (subst can_assign_from.simps)
       (auto simp: erase_opaque_base same_ignoring_opaque_state_erase is_hole_iff
         intro: assignable.intros)
qed ((case_tac source; subst assignable.simps, auto simp: zip_all_same_erase same_ignoring_opaque_state_erase)[1])+

text \<open>A type whose result chain (through callables) ends in a hole is assignable too liberally.\<close>

fun result_hole :: "ty \<Rightarrow> bool" where
  "result_hole (Ty_Hole _) = True"
| "result_hole (Ty_OpaqueState b _) = result_hole b"
| "result_hole (Ty_Function _ _ r _) = result_hole r"
| "result_hole (Ty_Closure r _ _) = result_hole r"
| "result_hole (Ty_ClosureInstance _ r _ _) = result_hole r"
| "result_hole _ = False"

lemma result_hole_erase [simp]: "result_hole (erase_state t) = result_hole t"
  by (induction t rule: result_hole.induct) auto

lemma pointer_view_can_weaken_trans:
  "pointer_view_can_weaken m m' \<Longrightarrow> pointer_view_can_weaken m' m'' \<Longrightarrow> pointer_view_can_weaken m m''"
  by (auto simp: pointer_view_can_weaken_def)

lemma proves_all_trans: "proves_all c b \<Longrightarrow> proves_all b a \<Longrightarrow> proves_all c a"
  by (auto simp: proves_all_def list_all_iff)

lemma proves_all_empty: "proves_all b a \<Longrightarrow> bounds_is_empty b \<Longrightarrow> bounds_is_empty a"
  by (cases "positive a"; cases "negative a") (auto simp: proves_all_def bounds_is_empty_def)

inductive_cases assignable_pointerE: "assignable (Ty_Pointer n m t) a"
inductive_cases assignable_sliceE: "assignable (Ty_Slice m t) a"
inductive_cases assignable_functionE: "assignable (Ty_Function u abi r ps) a"
inductive_cases assignable_closureE: "assignable (Ty_Closure r ps cs) a"
inductive_cases assignable_instanceE: "assignable (Ty_ClosureInstance i r ps caps) a"

lemma assignable_trans:
  "assignable a b \<Longrightarrow> assignable b c \<Longrightarrow> \<not> result_hole b \<Longrightarrow> assignable a c"
proof (induction arbitrary: c rule: assignable.induct)
  case (assign_pointer n' n m m' t)
  then show ?case
    by (auto elim!: assignable_pointerE intro!: assignable.intros
      intro: pointer_view_can_weaken_trans)
next
  case (assign_slice m m' t)
  then show ?case
    by (auto elim!: assignable_sliceE intro!: assignable.intros intro: pointer_view_can_weaken_trans)
next
  case (assign_function r r' u' u abi ps)
  then show ?case
    by (auto elim!: assignable_functionE intro!: assignable.intros)
next
  case (assign_closure r r' cs' cs ps)
  then show ?case
    by (auto elim!: assignable_closureE intro!: assignable.intros
      intro: proves_all_trans proves_all_empty)
next
  case (assign_instance r r' cs ps i caps)
  then show ?case
    by (auto elim!: assignable_instanceE intro!: assignable.intros)
qed (auto intro: assignable.intros)

section \<open>Properties\<close>

text \<open>
  C14: \<^const>\<open>same_ignoring_opaque_state\<close> decides equality of types after erasing hidden state
  and the display names of nominal types that carry an identity; in particular it is an
  equivalence relation.
\<close>

theorem same_ignoring_opaque_state_spec:
  "same_ignoring_opaque_state left right \<longleftrightarrow> erase_state left = erase_state right"
  by (rule same_ignoring_opaque_state_erase(1))

text \<open>
  C10: \<^const>\<open>can_assign_from\<close> implements exactly the assignment rules \<^const>\<open>assignable\<close> of the
  language on the types with their hidden state erased.
\<close>

theorem can_assign_from_spec:
  "can_assign_from expected source \<longleftrightarrow> assignable (erase_state expected) (erase_state source)"
  by (rule can_assign_from_assignable(1))

text \<open>
  C13: assignability composes: a value that may flow from \<open>c\<close> to \<open>b\<close> and from \<open>b\<close> to \<open>a\<close> may flow
  from \<open>c\<close> to \<open>a\<close>, unless the result chain of the intermediate type \<open>b\<close> ends in an inference hole.
\<close>

theorem can_assign_from_trans:
  assumes "can_assign_from a b" and "can_assign_from b c" and "\<not> result_hole b"
  shows "can_assign_from a c"
  using assms assignable_trans [of "erase_state a" "erase_state b" "erase_state c"]
  by (simp add: can_assign_from_assignable)

theorem can_assign_from_trans_witness:
  "can_assign_from (Ty_Pointer True ReadOnly Ty_I32) (Ty_Pointer False Writable Ty_I32)"
  by (rule can_assign_from_trans [where b = "Ty_Pointer True Writable Ty_I32"])
     (simp_all add: can_assign_from.simps same_ignoring_opaque_state.simps
       pointer_view_can_weaken_def)

end
