(* ===== verification/Ciel_Unify.thy ===== *)
theory Ciel_Unify
  imports Ciel_Subst
begin

text \<open>
  One-sided unification of a type pattern with an actual type (\<open>unify_ty\<close>,
  \<open>unify_constraint_bounds\<close> and \<open>unify_constraint_refs\<close> of \<open>src/types.rs\<close>). The substitution that
  the code threads as \<open>&mut HashMap<String, Ty>\<close> is returned with the verdict, also on failure.
\<close>

section \<open>Definitions\<close>

text \<open>The weight of a list of pairs to unify; it decides termination.\<close>

abbreviation pairs_size :: "(ty \<times> ty) list \<Rightarrow> nat" where
  "pairs_size \<equiv> size_list (\<lambda>(pattern, actual). 2 * size pattern)"

lemma pairs_size_zip: "pairs_size (zip ps qs) \<le> 2 * size_list size ps"
  by (induction ps qs rule: list_induct2') auto

lemma pairs_size_state:
  "pairs_size (zip (map snd ps) (map snd qs)) \<le> 2 * size_list (size_prod (\<lambda>x. 0) size) ps"
  for ps qs :: "(string \<times> ty) list"
  by (induction ps qs rule: list_induct2') auto

lemma pairs_size_append: "pairs_size (xs @ ys) = pairs_size xs + pairs_size ys"
  by (induction xs) auto

lemma pairs_size_zip2:
  "pairs_size (zip ps qs) + pairs_size (zip ps' qs') \<le> 2 * size_list size ps + 2 * size_list size ps'"
  using pairs_size_zip [of ps qs] pairs_size_zip [of ps' qs'] by simp

lemma pairs_size_key: "pairs_size (zip (key_args k) qs) < 2 * size k"
  using pairs_size_zip [of "key_args k" qs] by (cases k) auto

lemma pairs_size_cref: "pairs_size (zip (cref_args e) qs) < 2 * size e"
  using pairs_size_zip [of "cref_args e" qs] by (cases e) auto

lemma size_bounds_lists:
  "size_list size (positive b) < size b" "size_list size (negative b) < size b"
  by (cases b; simp)+

text \<open>
  \<open>unify_all\<close> is the short-circuiting \<open>zip(..).all(|(p, a)| unify_ty(p, a, subst))\<close>; a conjunction
  \<open>unify_ty(ret, ..) && params.zip(..).all(..)\<close> is \<open>unify_all\<close> on the pairs in that order.
  \<open>unify_candidates\<close> is the \<open>for candidate in actual\<close> loop of \<open>unify_constraint_refs\<close>, with its
  two \<open>continue\<close>s and the trial substitution.
\<close>

function (sequential) unify_ty :: "ty \<Rightarrow> ty \<Rightarrow> ty_subst \<Rightarrow> bool \<times> ty_subst"
  and unify_match :: "ty \<Rightarrow> ty \<Rightarrow> ty_subst \<Rightarrow> bool \<times> ty_subst"
  and unify_all :: "(ty \<times> ty) list \<Rightarrow> ty_subst \<Rightarrow> bool \<times> ty_subst"
  and unify_constraint_bounds ::
    "constraint_bounds \<Rightarrow> constraint_bounds \<Rightarrow> ty_subst \<Rightarrow> bool \<times> ty_subst"
  and unify_constraint_refs ::
    "constraint_ref list \<Rightarrow> constraint_ref list \<Rightarrow> ty_subst \<Rightarrow> bool \<times> ty_subst"
  and unify_candidates :: "constraint_ref \<Rightarrow> constraint_ref list \<Rightarrow> constraint_ref list \<Rightarrow>
    constraint_ref list \<Rightarrow> ty_subst \<Rightarrow> bool \<times> ty_subst" where
  "unify_ty pattern actual subst =
     (if is_opaque_state pattern then unify_ty (opaque_base pattern) actual subst
      else if is_opaque_state actual then unify_ty pattern (opaque_base actual) subst
      else unify_match pattern actual subst)"
| "unify_match (Ty_Hole _) actual subst = (True, subst)"
| "unify_match (Ty_Generic name) actual subst =
     (case subst name of
        Some existing \<Rightarrow>
          if existing = Ty_Generic name then (True, subst(name \<mapsto> actual))
          else (existing = actual, subst)
      | None \<Rightarrow> (True, subst(name \<mapsto> actual)))"
| "unify_match (Ty_Pointer nullable mutability pattern_inner) actual subst =
     (case actual of Ty_Pointer actual_nullable actual_mutability actual_inner \<Rightarrow>
        if nullable = actual_nullable \<and> mutability = actual_mutability
        then unify_ty pattern_inner actual_inner subst else (False, subst)
      | _ \<Rightarrow> (False, subst))"
| "unify_match (Ty_Array len pattern_elem) actual subst =
     (case actual of Ty_Array actual_len actual_elem \<Rightarrow>
        if len = actual_len then unify_ty pattern_elem actual_elem subst else (False, subst)
      | _ \<Rightarrow> (False, subst))"
| "unify_match (Ty_Slice mutability pattern_elem) actual subst =
     (case actual of Ty_Slice actual_mutability actual_elem \<Rightarrow>
        if mutability = actual_mutability then unify_ty pattern_elem actual_elem subst
        else (False, subst)
      | _ \<Rightarrow> (False, subst))"
| "unify_match (Ty_Named def_id name args) actual subst =
     (case actual of Ty_Named actual_def_id actual_name actual_args \<Rightarrow>
        if named_ty_identity_eq def_id name actual_def_id actual_name \<and>
           length args = length actual_args
        then unify_all (zip args actual_args) subst else (False, subst)
      | _ \<Rightarrow> (False, subst))"
| "unify_match (Ty_GeneratedFuture name output _ _ _ state) actual subst =
     (case actual of Ty_GeneratedFuture actual_name actual_output _ _ _ actual_state \<Rightarrow>
        if name = actual_name \<and> length state = length actual_state
        then unify_all ((output, actual_output) # zip (map snd state) (map snd actual_state)) subst
        else (False, subst)
      | _ \<Rightarrow> (False, subst))"
| "unify_match (Ty_DynamicInterface def_id _ args) actual subst =
     (case actual of Ty_DynamicInterface actual_def_id _ actual_args \<Rightarrow>
        if def_id = actual_def_id \<and> length args = length actual_args
        then unify_all (zip args actual_args) subst else (False, subst)
      | _ \<Rightarrow> (False, subst))"
| "unify_match (Ty_OpaqueReturn key _) actual subst =
     (case actual of Ty_OpaqueReturn actual_key _ \<Rightarrow>
        if key_def_id key = key_def_id actual_key \<and>
           length (key_args key) = length (key_args actual_key)
        then unify_all (zip (key_args key) (key_args actual_key)) subst else (False, subst)
      | _ \<Rightarrow> (False, subst))"
| "unify_match (Ty_Function is_unsafe abi ret params) actual subst =
     (case actual of Ty_Function actual_is_unsafe actual_abi actual_ret actual_params \<Rightarrow>
        if is_unsafe = actual_is_unsafe \<and> abi = actual_abi \<and> length params = length actual_params
        then unify_all ((ret, actual_ret) # zip params actual_params) subst else (False, subst)
      | _ \<Rightarrow> (False, subst))"
| "unify_match (Ty_Closure ret params constraints) actual subst =
     (case actual of
        Ty_Closure actual_ret actual_params actual_constraints \<Rightarrow>
          if length params = length actual_params
          then (case unify_all ((ret, actual_ret) # zip params actual_params) subst of
              (True, subst) \<Rightarrow> unify_constraint_bounds constraints actual_constraints subst
            | (False, subst) \<Rightarrow> (False, subst))
          else (False, subst)
      | Ty_ClosureInstance _ actual_ret actual_params _ \<Rightarrow>
          if bounds_is_empty constraints \<and> length params = length actual_params
          then unify_all ((ret, actual_ret) # zip params actual_params) subst else (False, subst)
      | _ \<Rightarrow> (False, subst))"
| "unify_match (Ty_ClosureInstance cid ret params captures) actual subst =
     (case actual of Ty_ClosureInstance actual_cid actual_ret actual_params actual_captures \<Rightarrow>
        if cid = actual_cid \<and> length params = length actual_params \<and>
           length captures = length actual_captures
        then unify_all ((ret, actual_ret) # zip params actual_params @ zip captures actual_captures)
               subst
        else (False, subst)
      | _ \<Rightarrow> (False, subst))"
| "unify_match other actual subst = (other = actual, subst)"
| "unify_all [] subst = (True, subst)"
| "unify_all ((pattern, actual) # rest) subst =
     (case unify_ty pattern actual subst of
        (True, subst) \<Rightarrow> unify_all rest subst
      | (False, subst) \<Rightarrow> (False, subst))"
| "unify_constraint_bounds pattern actual subst =
     (case unify_constraint_refs (positive pattern) (positive actual) subst of
        (False, _) \<Rightarrow> (False, subst)
      | (True, trial) \<Rightarrow>
          (case unify_constraint_refs (negative pattern) (negative actual) trial of
             (False, _) \<Rightarrow> (False, subst)
           | (True, trial) \<Rightarrow> (True, trial)))"
| "unify_constraint_refs [] actual subst = (True, subst)"
| "unify_constraint_refs (first # rest) actual subst =
     unify_candidates first rest actual actual subst"
| "unify_candidates first rest actual [] subst = (False, subst)"
| "unify_candidates first rest actual (candidate # candidates) subst =
     (if cref_name first \<noteq> cref_name candidate \<or>
         length (cref_args first) \<noteq> length (cref_args candidate)
      then unify_candidates first rest actual candidates subst
      else case unify_all (zip (cref_args first) (cref_args candidate)) subst of
        (False, _) \<Rightarrow> unify_candidates first rest actual candidates subst
      | (True, trial) \<Rightarrow>
          (case unify_constraint_refs rest actual trial of
             (True, trial) \<Rightarrow> (True, trial)
           | (False, _) \<Rightarrow> unify_candidates first rest actual candidates subst))"
  by pat_completeness auto
termination
  apply (relation "measures [
        case_sum
          (case_sum (\<lambda>(p, a, s). 2 * size p)
            (case_sum (\<lambda>(p, a, s). 2 * size p) (\<lambda>(ps, s). pairs_size ps)))
          (case_sum (\<lambda>(p, a, s). 2 * size p)
            (case_sum (\<lambda>(ps, a, s). 2 * size_list size ps)
              (\<lambda>(f, r, a, c, s). 2 * (size f + size_list size r)))),
        case_sum
          (case_sum (\<lambda>(p, a, s). size a) (case_sum (\<lambda>(p, a, s). size a) (\<lambda>_. 0)))
          (case_sum (\<lambda>_. 0) (case_sum (\<lambda>_. 0) (\<lambda>(f, r, a, c, s). length c))),
        case_sum (case_sum (\<lambda>_. 1) (\<lambda>_. 0)) (\<lambda>_. 0)]")
  apply (simp_all add: size_opaque_base pairs_size_append size_bounds_lists)
  apply (auto intro: le_less_trans [OF pairs_size_zip] le_less_trans [OF pairs_size_state]
      le_less_trans [OF pairs_size_zip2] less_le_trans [OF pairs_size_key]
      less_le_trans [OF pairs_size_cref])
  done

declare unify_ty.simps [simp del] unify_constraint_bounds.simps [simp del]

section \<open>A small logic for threaded substitutions\<close>

text \<open>
  \<open>unify_ok G s Q r\<close>: from a substitution \<open>s\<close> without self-bindings of the generics \<open>G\<close>, the outcome
  \<open>r\<close> has only added bindings, none of them a self-binding, and on success every extension of the
  result satisfies \<open>Q\<close>.
\<close>

definition no_self_binding :: "string set \<Rightarrow> ty_subst \<Rightarrow> bool" where
  "no_self_binding G s \<longleftrightarrow> (\<forall>x \<in> G. s x \<noteq> Some (Ty_Generic x))"

definition unify_ok ::
  "string set \<Rightarrow> ty_subst \<Rightarrow> (ty_subst \<Rightarrow> bool) \<Rightarrow> bool \<times> ty_subst \<Rightarrow> bool" where
  "unify_ok G s Q r \<longleftrightarrow> (no_self_binding G s \<longrightarrow>
     no_self_binding G (snd r) \<and> s \<subseteq>\<^sub>m snd r \<and> (fst r \<longrightarrow> (\<forall>\<sigma>. snd r \<subseteq>\<^sub>m \<sigma> \<longrightarrow> Q \<sigma>)))"

lemma unify_ok_fail [intro]: "unify_ok G s Q (False, s)"
  by (simp add: unify_ok_def)

lemma unify_ok_done: "(\<And>\<sigma>. b \<Longrightarrow> s \<subseteq>\<^sub>m \<sigma> \<Longrightarrow> Q \<sigma>) \<Longrightarrow> unify_ok G s Q (b, s)"
  by (simp add: unify_ok_def)

lemma unify_ok_weaken: "unify_ok G s P r \<Longrightarrow> (\<And>\<sigma>. P \<sigma> \<Longrightarrow> Q \<sigma>) \<Longrightarrow> unify_ok G s Q r"
  by (simp add: unify_ok_def)

lemma unify_ok_bind:
  assumes "unify_ok G s P (f s)" and "\<And>t. f s = (True, t) \<Longrightarrow> unify_ok G t Q (g t)"
  shows "unify_ok G s (\<lambda>\<sigma>. P \<sigma> \<and> Q \<sigma>)
    (case f s of (True, t) \<Rightarrow> g t | (False, t) \<Rightarrow> (False, t))"
  using assms
  by (cases "f s"; cases "fst (f s)")
     (auto simp: unify_ok_def elim: map_le_trans dest: map_le_trans)

lemma unify_ok_generic:
  assumes "x \<in> G" and "a \<noteq> Ty_Generic x"
  shows "unify_ok G s (\<lambda>\<sigma>. \<sigma> x = Some a) (unify_match (Ty_Generic x) a s)"
  using assms
  by (auto simp: unify_ok_def no_self_binding_def map_le_def split: option.splits if_splits)
     force+

section \<open>Soundness\<close>

text \<open>
  \<open>conforms t a\<close>: the instantiated pattern \<open>t\<close> describes the actual type \<open>a\<close>. Holes describe
  everything, hidden state is transparent, the flags of a generated future and the display
  name of a nominal type are not compared, every constraint of a closure pattern is one of
  the actual closure, and an unconstrained closure pattern describes closure instances.
\<close>

inductive conforms :: "ty \<Rightarrow> ty \<Rightarrow> bool" where
  conf_refl: "conforms t t"
| conf_hole: "conforms (Ty_Hole h) a"
| conf_state_left: "conforms b a \<Longrightarrow> conforms (Ty_OpaqueState b st) a"
| conf_state_right: "conforms t b \<Longrightarrow> conforms t (Ty_OpaqueState b st)"
| conf_pointer: "conforms t a \<Longrightarrow> conforms (Ty_Pointer n m t) (Ty_Pointer n m a)"
| conf_array: "conforms t a \<Longrightarrow> conforms (Ty_Array len t) (Ty_Array len a)"
| conf_slice: "conforms t a \<Longrightarrow> conforms (Ty_Slice m t) (Ty_Slice m a)"
| conf_named: "named_ty_identity_eq d n d' n' \<Longrightarrow> list_all2 conforms ts as \<Longrightarrow>
    conforms (Ty_Named d n ts) (Ty_Named d' n' as)"
| conf_future: "conforms t a \<Longrightarrow> list_all2 conforms (map snd st) (map snd st') \<Longrightarrow>
    conforms (Ty_GeneratedFuture n t c b f st) (Ty_GeneratedFuture n a c' b' f' st')"
| conf_dynamic: "list_all2 conforms ts as \<Longrightarrow>
    conforms (Ty_DynamicInterface d n ts) (Ty_DynamicInterface d n' as)"
| conf_opaque_return: "key_def_id k = key_def_id k' \<Longrightarrow> list_all2 conforms (key_args k) (key_args k') \<Longrightarrow>
    conforms (Ty_OpaqueReturn k b) (Ty_OpaqueReturn k' b')"
| conf_function: "conforms t a \<Longrightarrow> list_all2 conforms ts as \<Longrightarrow>
    conforms (Ty_Function u abi t ts) (Ty_Function u abi a as)"
| conf_closure: "conforms t a \<Longrightarrow> list_all2 conforms ts as \<Longrightarrow>
    \<forall>e \<in> set (positive cs). \<exists>e' \<in> set (positive cs').
      cref_name e = cref_name e' \<and> list_all2 conforms (cref_args e) (cref_args e') \<Longrightarrow>
    \<forall>e \<in> set (negative cs). \<exists>e' \<in> set (negative cs').
      cref_name e = cref_name e' \<and> list_all2 conforms (cref_args e) (cref_args e') \<Longrightarrow>
    conforms (Ty_Closure t ts cs) (Ty_Closure a as cs')"
| conf_closure_instance: "conforms t a \<Longrightarrow> list_all2 conforms ts as \<Longrightarrow> bounds_is_empty cs \<Longrightarrow>
    conforms (Ty_Closure t ts cs) (Ty_ClosureInstance i a as caps)"
| conf_instance: "conforms t a \<Longrightarrow> list_all2 conforms ts as \<Longrightarrow> list_all2 conforms caps caps' \<Longrightarrow>
    conforms (Ty_ClosureInstance i t ts caps) (Ty_ClosureInstance i a as caps')"

definition crefs_conform :: "constraint_ref list \<Rightarrow> constraint_ref list \<Rightarrow> bool" where
  "crefs_conform es es' \<longleftrightarrow> (\<forall>e \<in> set es. \<exists>e' \<in> set es'.
     cref_name e = cref_name e' \<and> list_all2 conforms (cref_args e) (cref_args e'))"

lemma conforms_state_base: "conforms t a \<Longrightarrow> t = Ty_OpaqueState b st \<Longrightarrow> conforms b a"
  by (induction rule: conforms.induct) (auto intro: conf_refl conf_state_right)

lemma conforms_opaque_state_ty: "conforms b a \<Longrightarrow> conforms (opaque_state_ty b st) a"
  by (cases "(b, st)" rule: opaque_state_ty.cases)
     (auto intro: conf_state_left dest: conforms_state_base)

text \<open>The pattern's generics are among \<open>G\<close> and the actual type mentions none of \<open>G\<close>.\<close>

definition hygienic :: "string set \<Rightarrow> ty \<Rightarrow> ty \<Rightarrow> bool" where
  "hygienic G p a \<longleftrightarrow> generics_of p \<subseteq> G \<and> generics_of a \<inter> G = {}"

lemma list_all2_zip_iff:
  "length ps = length as \<Longrightarrow>
     list_all2 P (map f ps) as \<longleftrightarrow> (\<forall>(p, a) \<in> set (zip ps as). P (f p) a)"
  by (auto simp: list_all2_iff zip_map1)

definition pairs_conform :: "(ty \<times> ty) list \<Rightarrow> ty_subst \<Rightarrow> bool" where
  "pairs_conform ps \<sigma> \<longleftrightarrow> (\<forall>(p, a) \<in> set ps. conforms (substitute_ty p \<sigma>) a)"

lemma pairs_conform_simps [simp]:
  "pairs_conform [] \<sigma>"
  "pairs_conform ((p, a) # ps) \<sigma> \<longleftrightarrow> conforms (substitute_ty p \<sigma>) a \<and> pairs_conform ps \<sigma>"
  "pairs_conform (ps @ qs) \<sigma> \<longleftrightarrow> pairs_conform ps \<sigma> \<and> pairs_conform qs \<sigma>"
  by (auto simp: pairs_conform_def)

lemma pairs_conform_zip:
  "length ps = length as \<Longrightarrow>
     pairs_conform (zip ps as) \<sigma> \<longleftrightarrow> list_all2 conforms (map (\<lambda>t. substitute_ty t \<sigma>) ps) as"
  by (simp add: pairs_conform_def list_all2_zip_iff)

definition hygienic_pairs :: "string set \<Rightarrow> (ty \<times> ty) list \<Rightarrow> bool" where
  "hygienic_pairs G ps \<longleftrightarrow> (\<forall>(p, a) \<in> set ps. hygienic G p a)"

definition hygienic_crefs :: "string set \<Rightarrow> constraint_ref list \<Rightarrow> constraint_ref list \<Rightarrow> bool" where
  "hygienic_crefs G es es' \<longleftrightarrow> (\<forall>e \<in> set es. \<forall>t \<in> set (cref_args e). generics_of t \<subseteq> G) \<and>
     (\<forall>e \<in> set es'. \<forall>t \<in> set (cref_args e). generics_of t \<inter> G = {})"

lemma hygienic_pairs_simps [simp]:
  "hygienic_pairs G []"
  "hygienic_pairs G ((p, a) # ps) \<longleftrightarrow> hygienic G p a \<and> hygienic_pairs G ps"
  "hygienic_pairs G (ps @ qs) \<longleftrightarrow> hygienic_pairs G ps \<and> hygienic_pairs G qs"
  by (auto simp: hygienic_pairs_def)

lemma hygienic_zip:
  assumes "\<Union> (generics_of ` set ps) \<subseteq> G" and "\<Union> (generics_of ` set as) \<inter> G = {}"
  shows "hygienic_pairs G (zip ps as)"
  using assms by (force simp: hygienic_pairs_def hygienic_def dest: set_zip_leftD set_zip_rightD)

lemma hygienic_base:
  "is_opaque_state p \<Longrightarrow> hygienic G p a \<Longrightarrow> hygienic G (opaque_base p) a"
  "is_opaque_state a \<Longrightarrow> hygienic G p a \<Longrightarrow> hygienic G p (opaque_base a)"
  by (cases p; auto simp: hygienic_def) (cases a; auto simp: hygienic_def)

lemma conforms_base:
  "is_opaque_state p \<Longrightarrow> conforms (substitute_ty (opaque_base p) \<sigma>) a \<Longrightarrow> conforms (substitute_ty p \<sigma>) a"
  "is_opaque_state a \<Longrightarrow> conforms t (opaque_base a) \<Longrightarrow> conforms t a"
  by (cases p; auto intro: conforms_opaque_state_ty) (cases a; auto intro: conf_state_right)

lemma bounds_args_entry:
  "e \<in> set (positive b) \<Longrightarrow> t \<in> set (cref_args e) \<Longrightarrow> t \<in> set (bounds_args b)"
  "e \<in> set (negative b) \<Longrightarrow> t \<in> set (cref_args e) \<Longrightarrow> t \<in> set (bounds_args b)"
  by (auto simp: bounds_args_iff bounds_entries_def)

lemma hygienic_bounds:
  assumes "\<Union> (generics_of ` set (bounds_args b)) \<subseteq> G"
    and "\<Union> (generics_of ` set (bounds_args b')) \<inter> G = {}"
  shows "hygienic_crefs G (positive b) (positive b')" "hygienic_crefs G (negative b) (negative b')"
proof -
  have 1: "generics_of t \<subseteq> G" if "t \<in> set (bounds_args b)" for t
    using assms(1) that by (simp add: UN_subset_iff)
  have 2: "generics_of t \<inter> G = {}" if "t \<in> set (bounds_args b')" for t
    using assms(2) that by blast
  show "hygienic_crefs G (positive b) (positive b')" "hygienic_crefs G (negative b) (negative b')"
    unfolding hygienic_crefs_def
    by (intro conjI ballI; (rule 1 | rule 2), erule (1) bounds_args_entry)+
qed

definition subst_crefs :: "ty_subst \<Rightarrow> constraint_ref list \<Rightarrow> constraint_ref list" where
  "subst_crefs \<sigma> es = map (map_cref (\<lambda>t. substitute_ty t \<sigma>)) es"

lemma crefs_conform_Cons:
  assumes "cref_name e = cref_name c" and "length (cref_args e) = length (cref_args c)"
    and "c \<in> set es'" and "pairs_conform (zip (cref_args e) (cref_args c)) \<sigma>"
    and "crefs_conform (subst_crefs \<sigma> es) es'"
  shows "crefs_conform (subst_crefs \<sigma> (e # es)) es'"
  using assms by (auto simp: crefs_conform_def subst_crefs_def map_cref_def pairs_conform_zip)

lemmas conf_congruences = conf_pointer conf_array conf_slice conf_named conf_future conf_dynamic
  conf_opaque_return conf_function conf_closure conf_closure_instance conf_instance

lemma unify_ok_try:
  assumes "unify_ok G s P r" and "\<And>t. r = (True, t) \<Longrightarrow> unify_ok G t Q (g t)"
    and "\<And>t. r = (False, t) \<Longrightarrow> unify_ok G s R k"
    and "\<And>t u. r = (True, t) \<Longrightarrow> g t = (False, u) \<Longrightarrow> unify_ok G s R k"
    and "\<And>\<sigma>. P \<sigma> \<Longrightarrow> Q \<sigma> \<Longrightarrow> R \<sigma>"
  shows "unify_ok G s R (case r of (False, _) \<Rightarrow> k | (True, t) \<Rightarrow>
    (case g t of (True, t) \<Rightarrow> (True, t) | (False, _) \<Rightarrow> k))"
proof (cases r)
  case (Pair b t)
  show ?thesis
  proof (cases b)
    case True
    then have t: "r = (True, t)" using Pair by simp
    have "unify_ok G s (\<lambda>\<sigma>. P \<sigma> \<and> Q \<sigma>) (g t)" if "fst (g t)"
      using assms(1,2) t that unfolding unify_ok_def
      by (auto elim: map_le_trans dest: map_le_trans)
    then show ?thesis using t assms(4,5)
      by (cases "g t"; cases "fst (g t)") (auto intro: unify_ok_weaken)
  qed (use Pair assms(3) in simp)
qed

lemma unify_sound:
  "hygienic G p a \<Longrightarrow> unify_ok G s (\<lambda>\<sigma>. conforms (substitute_ty p \<sigma>) a) (unify_ty p a s)"
  "hygienic G p' a' \<Longrightarrow> \<not> is_opaque_state p' \<Longrightarrow>
     unify_ok G s' (\<lambda>\<sigma>. conforms (substitute_ty p' \<sigma>) a') (unify_match p' a' s')"
  "hygienic_pairs G ps \<Longrightarrow> unify_ok G t (pairs_conform ps) (unify_all ps t)"
  "hygienic_crefs G (positive b) (positive b') \<Longrightarrow> hygienic_crefs G (negative b) (negative b') \<Longrightarrow>
     unify_ok G u (\<lambda>\<sigma>. crefs_conform (subst_crefs \<sigma> (positive b)) (positive b') \<and>
         crefs_conform (subst_crefs \<sigma> (negative b)) (negative b'))
       (unify_constraint_bounds b b' u)"
  "hygienic_crefs G es es' \<Longrightarrow>
     unify_ok G v (\<lambda>\<sigma>. crefs_conform (subst_crefs \<sigma> es) es') (unify_constraint_refs es es' v)"
  "hygienic_crefs G (f # r) es'' \<Longrightarrow> set cs \<subseteq> set es'' \<Longrightarrow>
     unify_ok G w (\<lambda>\<sigma>. crefs_conform (subst_crefs \<sigma> (f # r)) es'')
       (unify_candidates f r es'' cs w)"
proof (induction p a s and p' a' s' and ps t and b b' u and es es' v and f r es'' cs w
    rule: unify_ty_unify_match_unify_all_unify_constraint_bounds_unify_constraint_refs_unify_candidates.induct)
  case (1 pattern actual subst)
  then show ?case
    by (subst unify_ty.simps)
       (auto simp: hygienic_base intro: conforms_base elim!: unify_ok_weaken)
next
  case (2 h actual subst)
  then show ?case by (simp add: unify_ok_done conf_hole)
next
  case (3 name actual subst)
  then have "unify_ok G subst (\<lambda>\<sigma>. \<sigma> name = Some actual) (unify_match (Ty_Generic name) actual subst)"
    by (intro unify_ok_generic) (auto simp: hygienic_def)
  then show ?case by (rule unify_ok_weaken) (simp add: conf_refl)
next
  case (4 n m t actual subst)
  then show ?case by (cases actual) (auto simp: hygienic_def elim!: unify_ok_weaken intro!: conf_congruences)
next
  case (5 n t actual subst)
  then show ?case by (cases actual) (auto simp: hygienic_def elim!: unify_ok_weaken intro!: conf_congruences)
next
  case (6 m t actual subst)
  then show ?case by (cases actual) (auto simp: hygienic_def elim!: unify_ok_weaken intro!: conf_congruences)
next
  case (7 d n ts actual subst)
  then show ?case
    by (cases actual) (auto simp: hygienic_def hygienic_zip Int_Un_distrib2 pairs_conform_zip comp_def
      elim!: unify_ok_weaken intro!: conf_congruences)
next
  case (8 n out c b f st actual subst)
  then show ?case
    by (cases actual) (auto simp: hygienic_def hygienic_zip Int_Un_distrib2 pairs_conform_zip comp_def
      elim!: unify_ok_weaken intro!: conf_congruences)
next
  case (9 d n ts actual subst)
  then show ?case
    by (cases actual) (auto simp: hygienic_def hygienic_zip Int_Un_distrib2 pairs_conform_zip comp_def
      elim!: unify_ok_weaken intro!: conf_congruences)
next
  case (10 k b actual subst)
  then show ?case
    by (cases actual) (auto simp: hygienic_def hygienic_zip Int_Un_distrib2 pairs_conform_zip comp_def
      elim!: unify_ok_weaken intro!: conf_congruences)
next
  case (11 u abi ret params actual subst)
  then show ?case
    by (cases actual) (auto simp: hygienic_def hygienic_zip Int_Un_distrib2 pairs_conform_zip comp_def
      elim!: unify_ok_weaken intro!: conf_congruences)
next
  case (12 ret params cs actual subst)
  show ?case
  proof (cases actual)
    case (Ty_Closure aret aparams acs)
    have ?thesis if len: "length params = length aparams"
    proof -
      let ?ps = "(ret, aret) # zip params aparams"
      have "hygienic_pairs G ?ps"
        using 12(4) Ty_Closure by (auto simp: hygienic_def Int_Un_distrib2 intro!: hygienic_zip)
      moreover have "hygienic_crefs G (positive cs) (positive acs)"
          "hygienic_crefs G (negative cs) (negative acs)"
        using 12(4) Ty_Closure by (auto simp: hygienic_def Int_Un_distrib2 intro!: hygienic_bounds)
      ultimately have "unify_ok G subst (\<lambda>\<sigma>. pairs_conform ?ps \<sigma> \<and>
          (crefs_conform (subst_crefs \<sigma> (positive cs)) (positive acs) \<and>
           crefs_conform (subst_crefs \<sigma> (negative cs)) (negative acs)))
        (case unify_all ?ps subst of (True, t) \<Rightarrow> unify_constraint_bounds cs acs t
          | (False, t) \<Rightarrow> (False, t))"
        using 12(1,2) Ty_Closure len by (intro unify_ok_bind) auto
      then show ?thesis using Ty_Closure len
        by (auto elim!: unify_ok_weaken intro!: conf_closure
          simp: pairs_conform_zip crefs_conform_def subst_crefs_def map_bounds_def)
    qed
    then show ?thesis using Ty_Closure by auto
  next
    case (Ty_ClosureInstance i aret aparams caps)
    then show ?thesis using 12(3,4)
      by (auto simp: hygienic_def hygienic_zip Int_Un_distrib2 pairs_conform_zip bounds_is_empty_def map_bounds_def
        elim!: unify_ok_weaken intro!: conf_closure_instance)
  qed auto
next
  case (13 i ret params caps actual subst)
  then show ?case
    by (cases actual) (auto simp: hygienic_def hygienic_zip Int_Un_distrib2 pairs_conform_zip comp_def
      elim!: unify_ok_weaken intro!: conf_congruences)
next
  case (15 subst)
  then show ?case by (simp add: unify_ok_done)
next
  case (16 p a rest subst)
  then have "unify_ok G subst (\<lambda>\<sigma>. conforms (substitute_ty p \<sigma>) a \<and> pairs_conform rest \<sigma>)
      (case unify_ty p a subst of (True, t) \<Rightarrow> unify_all rest t | (False, t) \<Rightarrow> (False, t))"
    by (intro unify_ok_bind) auto
  then show ?case by (auto elim!: unify_ok_weaken)
next
  case (17 b b' subst)
  have "unify_ok G subst (\<lambda>\<sigma>. crefs_conform (subst_crefs \<sigma> (positive b)) (positive b'))
      (unify_constraint_refs (positive b) (positive b') subst)"
    using 17 by simp
  then show ?case
    unfolding unify_constraint_bounds.simps
    by (rule unify_ok_try) (use 17 in \<open>auto\<close>)
next
  case (18 es' subst)
  then show ?case by (simp add: unify_ok_done crefs_conform_def subst_crefs_def)
next
  case (19 e es es' subst)
  then show ?case by simp
next
  case (20 f r es' subst)
  then show ?case by (simp add: unify_ok_fail)
next
  case (21 f r es' c cs subst)
  show ?case
  proof (cases "cref_name f = cref_name c \<and> length (cref_args f) = length (cref_args c)")
    case True
    let ?ps = "zip (cref_args f) (cref_args c)"
    have "hygienic_pairs G ?ps"
      using 21(6,7) by (intro hygienic_zip) (force simp: hygienic_crefs_def)+
    then have ps: "unify_ok G subst (pairs_conform ?ps) (unify_all ?ps subst)"
      using 21(2) True by simp
    have tail: "hygienic_crefs G r es'" using 21(6) by (simp add: hygienic_crefs_def)
    show ?thesis
    proof -
      have "unify_ok G subst (\<lambda>\<sigma>. crefs_conform (subst_crefs \<sigma> (f # r)) es')
        (case unify_all ?ps subst of (False, _) \<Rightarrow> unify_candidates f r es' cs subst
         | (True, t) \<Rightarrow> (case unify_constraint_refs r es' t of (True, t) \<Rightarrow> (True, t)
           | (False, _) \<Rightarrow> unify_candidates f r es' cs subst))"
      proof (rule unify_ok_try [OF ps, where Q = "\<lambda>\<sigma>. crefs_conform (subst_crefs \<sigma> r) es'"])
        fix t assume t: "unify_all ?ps subst = (True, t)"
        then show "unify_ok G t (\<lambda>\<sigma>. crefs_conform (subst_crefs \<sigma> r) es') (unify_constraint_refs r es' t)"
          using 21(3) True tail by simp
        fix u assume "unify_constraint_refs r es' t = (False, u)"
        then show "unify_ok G subst (\<lambda>\<sigma>. crefs_conform (subst_crefs \<sigma> (f # r)) es')
            (unify_candidates f r es' cs subst)"
          using 21(4) [of True t False u] 21(6,7) True t by simp
      next
        fix t assume "unify_all ?ps subst = (False, t)"
        then show "unify_ok G subst (\<lambda>\<sigma>. crefs_conform (subst_crefs \<sigma> (f # r)) es')
            (unify_candidates f r es' cs subst)"
          using 21(5) [of False t] 21(6,7) True by simp
      qed (use True 21(7) in \<open>auto intro: crefs_conform_Cons\<close>)
      then show ?thesis using True by simp
    qed
  next
    case False
    then show ?thesis using 21 by auto
  qed
qed (auto intro: unify_ok_done conf_refl)

section \<open>Completeness\<close>

fun strip_state :: "ty \<Rightarrow> ty" where
  "strip_state (Ty_OpaqueState b _) = strip_state b"
| "strip_state t = t"

lemma strip_state_opaque: "is_opaque_state t \<Longrightarrow> strip_state (opaque_base t) = strip_state t"
  by (cases t) auto

lemma strip_state_plain: "\<not> is_opaque_state t \<Longrightarrow> strip_state t = t"
  by (cases t) auto

lemma strip_opaque_state_ty [simp]: "strip_state (opaque_state_ty b st) = strip_state b"
  by (cases "(b, st)" rule: opaque_state_ty.cases) auto

lemma unify_ty_strip: "unify_ty p a s = unify_match (strip_state p) (strip_state a) s"
proof (induction "size p + size a" arbitrary: p a rule: less_induct)
  case less
  show ?case
  proof (cases "is_opaque_state p \<or> is_opaque_state a")
    case True
    then show ?thesis
      using less size_opaque_base [of p] size_opaque_base [of a]
      by (subst unify_ty.simps) (auto simp: strip_state_opaque)
  qed (simp add: unify_ty.simps strip_state_plain)
qed

text \<open>Patterns whose closures carry no constraints.\<close>

definition unconstrained :: "ty \<Rightarrow> bool" where
  "unconstrained t \<longleftrightarrow>
     list_all (\<lambda>x. case x of Ty_Closure _ _ cs \<Rightarrow> bounds_is_empty cs | _ \<Rightarrow> True) (ty_nodes t)"

lemma unconstrained_children:
  "unconstrained t \<longleftrightarrow> (case t of Ty_Closure _ _ cs \<Rightarrow> bounds_is_empty cs | _ \<Rightarrow> True) \<and>
     (\<forall>c \<in> set (ty_children t). unconstrained c)"
  by (auto simp: unconstrained_def ty_nodes.simps [of t] list_all_iff)

text \<open>\<open>unify_below \<sigma> s r\<close>: \<open>r\<close> is a success that only added bindings of \<open>\<sigma>\<close> to \<open>s\<close>.\<close>

definition unify_below :: "ty_subst \<Rightarrow> ty_subst \<Rightarrow> bool \<times> ty_subst \<Rightarrow> bool" where
  "unify_below \<sigma> s r \<longleftrightarrow> fst r \<and> s \<subseteq>\<^sub>m snd r \<and> snd r \<subseteq>\<^sub>m \<sigma>"

lemma unify_below_done [simp]: "unify_below \<sigma> s (True, s) \<longleftrightarrow> s \<subseteq>\<^sub>m \<sigma>"
  by (simp add: unify_below_def)

lemma unify_all_below:
  assumes "\<And>p a s. (p, a) \<in> set ps \<Longrightarrow> s \<subseteq>\<^sub>m \<sigma> \<Longrightarrow> unify_below \<sigma> s (unify_ty p a s)"
  shows "s \<subseteq>\<^sub>m \<sigma> \<Longrightarrow> unify_below \<sigma> s (unify_all ps s)"
  using assms
proof (induction ps arbitrary: s)
  case Nil
  then show ?case by (simp add: unify_below_def)
next
  case (Cons q ps)
  obtain p a where q: "q = (p, a)" by force
  obtain s' where s': "unify_ty p a s = (True, s')" "s \<subseteq>\<^sub>m s'" "s' \<subseteq>\<^sub>m \<sigma>"
    using Cons.prems q unfolding unify_below_def by (metis list.set_intros(1) prod.collapse)
  then have "unify_below \<sigma> s' (unify_all ps s')"
    using Cons by (meson list.set_intros(2))
  then show ?case using s' q by (auto simp: unify_below_def elim: map_le_trans)
qed

lemma unify_zip_below:
  assumes "\<And>p s. p \<in> set ps \<Longrightarrow> s \<subseteq>\<^sub>m \<sigma> \<Longrightarrow> unify_below \<sigma> s (unify_ty p (f p) s)" and "s \<subseteq>\<^sub>m \<sigma>"
  shows "unify_below \<sigma> s (unify_all (zip ps (map f ps)) s)"
  using assms by (intro unify_all_below) (auto simp: zip_map2 zip_same_conv_map)

lemma unify_constraint_bounds_empty:
  "bounds_is_empty b \<Longrightarrow> unify_constraint_bounds b b' s = (True, s)"
  by (simp add: unify_constraint_bounds.simps bounds_is_empty_def)

lemma named_ty_identity_eq_refl [simp]: "named_ty_identity_eq d n d n"
  by (cases d) auto

lemma length_map_state [simp]: "length (map_state f st) = length st"
  by (induction st) auto

lemma zip_map_self: "set (zip ps (map f ps)) = (\<lambda>p. (p, f p)) ` set ps"
  by (auto simp: zip_map2 zip_same_conv_map)

lemma unify_complete:
  assumes \<sigma>: "\<And>x t. \<sigma> x = Some t \<Longrightarrow> \<not> is_opaque_state t"
  shows "unconstrained p \<Longrightarrow> generics_of p \<subseteq> dom \<sigma> \<Longrightarrow> s \<subseteq>\<^sub>m \<sigma> \<Longrightarrow>
    unify_below \<sigma> s (unify_ty p (substitute_ty p \<sigma>) s)"
proof (induction p arbitrary: s rule: ty_child_induct)
  case (node p)
  have sub: "unify_below \<sigma> t (unify_ty c (substitute_ty c \<sigma>) t)"
    if "c \<in> set (ty_children p)" "t \<subseteq>\<^sub>m \<sigma>" for c t
    using node that unconstrained_children [of p] generics_of_children [of p] by blast
  have list: "unify_below \<sigma> s (unify_all ps s)"
    if "set ps \<subseteq> (\<lambda>q. (q, substitute_ty q \<sigma>)) ` set (ty_children p)" for ps
    using that sub node.prems(3) by (intro unify_all_below) auto
  have step: "unify_ty p (substitute_ty p \<sigma>) s = unify_match p (substitute_ty p \<sigma>) s"
    if "\<not> is_opaque_state p" "\<And>n. p \<noteq> Ty_Generic n"
    using that substitute_shape(1) [of p \<sigma>] by (simp add: unify_ty.simps)
  show ?case
  proof (cases p)
    case (Ty_Generic x)
    with node.prems obtain t where "\<sigma> x = Some t" by auto
    with Ty_Generic node.prems(3) \<sigma> [of x t] show ?thesis
      by (force simp: unify_ty.simps unify_below_def map_le_def split: option.splits)
  next
    case (Ty_OpaqueState b st)
    with sub [of b s] node.prems(3) show ?thesis by (simp add: unify_ty_strip)
  next
    case (Ty_Closure r ps cs)
    then have "bounds_is_empty cs" using node.prems(1) unconstrained_children [of p] by simp
    moreover have "unify_below \<sigma> s (unify_all ((r, substitute_ty r \<sigma>) #
        zip ps (map (\<lambda>t. substitute_ty t \<sigma>) ps)) s)"
      using Ty_Closure by (intro list) (auto simp: zip_map_self)
    ultimately show ?thesis using Ty_Closure
      by (cases "unify_all ((r, substitute_ty r \<sigma>) # zip ps (map (\<lambda>t. substitute_ty t \<sigma>) ps)) s")
         (simp add: unify_ty.simps unify_below_def unify_constraint_bounds_empty del: unify_all.simps)
  qed (use node.prems(3) step list sub in \<open>auto simp: zip_map_self image_Un
      simp del: unify_all.simps map_map list.map_comp\<close>)
qed

section \<open>Properties\<close>






text \<open>
  \<^const>\<open>unify_constraint_bounds\<close> is transactional: when the bounds do not unify the
  substitution is left as it was.
\<close>

theorem unify_constraint_bounds_failure:
  "fst (unify_constraint_bounds pattern actual subst) \<or>
     snd (unify_constraint_bounds pattern actual subst) = subst"
  by (simp add: unify_constraint_bounds.simps split: prod.splits bool.splits)

end
