(* ===== verification/Ciel_Mangle.thy ===== *)
theory Ciel_Mangle
  imports Ciel_Subst
begin

text \<open>
  Names derived from types: the mangled fragments that name monomorphic instances in the
  generated C (\<open>mangle_ty_fragment\<close>, \<open>aggregate_instance_name\<close>) and the rendering of types in
  diagnostics (\<open>impl Display for Ty\<close>), from \<open>src/types.rs\<close>.
\<close>

section \<open>Definitions\<close>

text \<open>\<open>impl Display\<close> for the closure identifiers.\<close>

fun display_closure_owner_id :: "closure_owner_id \<Rightarrow> string" where
  "display_closure_owner_id (Owner_Function def_id) = ''function_'' @ show_nat def_id"
| "display_closure_owner_id (Owner_GenericInstance template cid) =
     ''generic_'' @ show_nat template @ ''_'' @ show_nat cid"

definition display_closure_instance_id :: "closure_instance_id \<Rightarrow> string" where
  "display_closure_instance_id cid =
     display_closure_owner_id (closure_owner cid) @ ''_closure_'' @ show_nat (closure_origin cid)"

definition mangle_char :: "char \<Rightarrow> char" where
  "mangle_char ch = (if is_ascii_alphanumeric ch then to_ascii_lowercase ch else CHR ''_'')"

definition mangle_abi_fragment :: "string option \<Rightarrow> string" where
  "mangle_abi_fragment abi =
     (case abi of None \<Rightarrow> ''ciel''
      | Some abi \<Rightarrow> let out = map mangle_char abi in if out = [] then ''abi'' else out)"

definition sanitize_mangle_fragment :: "string \<Rightarrow> string" where
  "sanitize_mangle_fragment value =
     (let out = map mangle_char value in if out = [] then ''type'' else out)"

fun mangle_ty_fragment :: "ty \<Rightarrow> string"
  and mangle_constraint_bounds :: "constraint_bounds \<Rightarrow> string"
  and mangle_constraint_ref :: "constraint_ref \<Rightarrow> string" where
  "mangle_ty_fragment (Ty_Hole _) = ''hole''"
| "mangle_ty_fragment Ty_Never = ''never''"
| "mangle_ty_fragment Ty_Void = ''void''"
| "mangle_ty_fragment Ty_Bool = ''bool''"
| "mangle_ty_fragment Ty_Char = ''char''"
| "mangle_ty_fragment Ty_I8 = ''i8''"
| "mangle_ty_fragment Ty_I16 = ''i16''"
| "mangle_ty_fragment Ty_I32 = ''i32''"
| "mangle_ty_fragment Ty_I64 = ''i64''"
| "mangle_ty_fragment Ty_U8 = ''u8''"
| "mangle_ty_fragment Ty_U16 = ''u16''"
| "mangle_ty_fragment Ty_U32 = ''u32''"
| "mangle_ty_fragment Ty_U64 = ''u64''"
| "mangle_ty_fragment Ty_Usize = ''usize''"
| "mangle_ty_fragment Ty_F32 = ''f32''"
| "mangle_ty_fragment Ty_F64 = ''f64''"
| "mangle_ty_fragment (Ty_CSpelling def_id abi spelling) =
     ''c_def'' @ show_nat def_id @ ''_'' @ mangle_abi_fragment (Some abi) @ ''_'' @
     sanitize_mangle_fragment spelling"
| "mangle_ty_fragment (Ty_Pointer nullable mutability inner) =
     (case (nullable, mutability) of
        (False, Writable) \<Rightarrow> ''ptr'' | (False, ReadOnly) \<Rightarrow> ''cptr''
      | (True, Writable) \<Rightarrow> ''qptr'' | (True, ReadOnly) \<Rightarrow> ''qcptr'') @
     ''_'' @ mangle_ty_fragment inner"
| "mangle_ty_fragment (Ty_Array len elem) = ''arr'' @ show_nat len @ ''_'' @ mangle_ty_fragment elem"
| "mangle_ty_fragment (Ty_Slice mutability elem) =
     (case mutability of Writable \<Rightarrow> ''slice'' | ReadOnly \<Rightarrow> ''cslice'') @ ''_'' @
     mangle_ty_fragment elem"
| "mangle_ty_fragment (Ty_Named _ name args) =
     (if args = [] then name else name @ ''_'' @ join ''_'' (map mangle_ty_fragment args))"
| "mangle_ty_fragment (Ty_GeneratedFuture name output _ _ affine_state _) =
     (if affine_state then ''generated_affine_future'' else ''generated_future'') @ ''_'' @ name @
     ''_'' @ mangle_ty_fragment output"
| "mangle_ty_fragment (Ty_OpaqueState base _) = mangle_ty_fragment base"
| "mangle_ty_fragment (Ty_Generic name) = ''gen_'' @ name"
| "mangle_ty_fragment (Ty_DynamicInterface def_id name args) =
     (if args = [] then ''dyn_'' @ name @ ''_def'' @ show_nat def_id
      else ''dyn_'' @ name @ ''_def'' @ show_nat def_id @ ''_'' @
        join ''_'' (map mangle_ty_fragment args))"
| "mangle_ty_fragment (Ty_OpaqueReturn key bounds) =
     (let args = (if key_args key = [] then ''void''
                  else join ''_'' (map mangle_ty_fragment (key_args key))) in
      ''opaque_ret_def'' @ show_nat (key_def_id key) @ ''_args_'' @ args @ ''_caps_'' @
      mangle_constraint_bounds bounds)"
| "mangle_ty_fragment (Ty_Function is_unsafe abi ret params) =
     (let params = (if params = [] then ''void'' else join ''_'' (map mangle_ty_fragment params)) in
      ''fn_'' @ (if is_unsafe then ''unsafe'' else ''safe'') @ ''_'' @ mangle_abi_fragment abi @
      ''_ret_'' @ mangle_ty_fragment ret @ ''_args_'' @ params)"
| "mangle_ty_fragment (Ty_Closure ret params constraints) =
     (let params = (if params = [] then ''void'' else join ''_'' (map mangle_ty_fragment params)) in
      ''closure_ret_'' @ mangle_ty_fragment ret @ ''_args_'' @ params @ ''_caps_'' @
      mangle_constraint_bounds constraints)"
| "mangle_ty_fragment (Ty_ClosureInstance cid ret params captures) =
     (let params = (if params = [] then ''void'' else join ''_'' (map mangle_ty_fragment params));
          captures = (if captures = [] then ''empty''
                      else join ''_'' (map mangle_ty_fragment captures)) in
      ''closure_inst'' @ display_closure_instance_id cid @ ''_ret_'' @ mangle_ty_fragment ret @
      ''_args_'' @ params @ ''_caps_'' @ captures)"
| "mangle_ty_fragment Ty_Unknown = ''unknown''"
| "mangle_constraint_bounds bounds =
     (if bounds_is_empty bounds then ''none''
      else join ''_''
        (map (\<lambda>entry. ''pos_'' @ mangle_constraint_ref entry) (positive bounds) @
         map (\<lambda>entry. ''neg_'' @ mangle_constraint_ref entry) (negative bounds)))"
| "mangle_constraint_ref entry =
     (if cref_args entry = []
      then sanitize_mangle_fragment (cref_name entry) @ ''_def'' @ show_nat (cref_def_id entry)
      else sanitize_mangle_fragment (cref_name entry) @ ''_def'' @ show_nat (cref_def_id entry) @
        ''_'' @ join ''_'' (map mangle_ty_fragment (cref_args entry)))"

definition aggregate_instance_name :: "string \<Rightarrow> ty list \<Rightarrow> string" where
  "aggregate_instance_name name args =
     (if args = [] then name else name @ ''_'' @ join ''_'' (map mangle_ty_fragment args))"

text \<open>\<open>str::rsplit_once\<close>: split at the last occurrence of a non-empty pattern.\<close>

fun rsplit_once :: "string \<Rightarrow> string \<Rightarrow> (string \<times> string) option" where
  "rsplit_once pat [] = None"
| "rsplit_once pat (c # cs) =
     (case rsplit_once pat cs of
        Some (base, suffix) \<Rightarrow> Some (c # base, suffix)
      | None \<Rightarrow>
          if take (length pat) (c # cs) = pat then Some ([], drop (length pat) (c # cs)) else None)"

definition display_nominal_name :: "string \<Rightarrow> string" where
  "display_nominal_name name =
     (case rsplit_once ''__def'' name of
        None \<Rightarrow> name
      | Some (base, suffix) \<Rightarrow>
          if suffix = [] \<or> \<not> list_all is_ascii_digit suffix then name else base)"

fun display_ty :: "ty \<Rightarrow> string"
  and display_constraint_bounds :: "constraint_bounds \<Rightarrow> string"
  and display_constraint_ref :: "constraint_ref \<Rightarrow> string" where
  "display_ty Ty_Never = ''never''"
| "display_ty (Ty_Hole _) = ''_''"
| "display_ty Ty_Void = ''void''"
| "display_ty Ty_Bool = ''bool''"
| "display_ty Ty_Char = ''char''"
| "display_ty Ty_I8 = ''i8''"
| "display_ty Ty_I16 = ''i16''"
| "display_ty Ty_I32 = ''i32''"
| "display_ty Ty_I64 = ''i64''"
| "display_ty Ty_U8 = ''u8''"
| "display_ty Ty_U16 = ''u16''"
| "display_ty Ty_U32 = ''u32''"
| "display_ty Ty_U64 = ''u64''"
| "display_ty Ty_Usize = ''usize''"
| "display_ty Ty_F32 = ''f32''"
| "display_ty Ty_F64 = ''f64''"
| "display_ty (Ty_CSpelling _ _ spelling) = spelling"
| "display_ty (Ty_Pointer nullable mutability inner) =
     (case (nullable, mutability) of
        (False, Writable) \<Rightarrow> ''*'' | (False, ReadOnly) \<Rightarrow> ''*const ''
      | (True, Writable) \<Rightarrow> ''?*'' | (True, ReadOnly) \<Rightarrow> ''?*const '') @ display_ty inner"
| "display_ty (Ty_Array len elem) = ''['' @ show_nat len @ '']'' @ display_ty elem"
| "display_ty (Ty_Slice mutability elem) =
     (case mutability of Writable \<Rightarrow> ''[]'' | ReadOnly \<Rightarrow> ''[]const '') @ display_ty elem"
| "display_ty (Ty_Named _ name args) =
     (let display_name =
        (if name = ''__ciel_std_meta_RefRepr'' then ''meta::RefRepr''
         else if name = ''__ciel_std_meta_Repr'' then ''meta::Repr''
         else if name = ''__ciel_std_meta_Schema'' then ''meta::Schema''
         else display_nominal_name name) in
      if args = [] then display_name
      else display_name @ ''<'' @ join '', '' (map display_ty args) @ ''>'')"
| "display_ty (Ty_GeneratedFuture _ output _ _ _ _) = ''Future<'' @ display_ty output @ ''>''"
| "display_ty (Ty_OpaqueState base _) = display_ty base"
| "display_ty (Ty_Generic name) = name"
| "display_ty (Ty_DynamicInterface _ name args) =
     (if args = [] then name else name @ ''<'' @ join '', '' (map display_ty args) @ ''>'')"
| "display_ty (Ty_OpaqueReturn _ bounds) = ''_: '' @ display_constraint_bounds bounds"
| "display_ty (Ty_Function is_unsafe abi ret params) =
     (if is_unsafe then ''unsafe '' else []) @
     (case abi of Some abi \<Rightarrow> ''extern '' @ [CHR 0x22] @ abi @ [CHR 0x22] @ '' '' | None \<Rightarrow> []) @
     display_ty ret @ '' fn('' @ join '', '' (map display_ty params) @ '')''"
| "display_ty (Ty_Closure ret params constraints) =
     (let capability_suffix =
        (if bounds_is_empty constraints then [] else '': '' @ display_constraint_bounds constraints) in
      display_ty ret @ '' |('' @ join '', '' (map display_ty params) @ '')'' @ capability_suffix @
      ''|'')"
| "display_ty (Ty_ClosureInstance cid ret params _) =
     ''closure#'' @ display_closure_instance_id cid @ ''<'' @ display_ty ret @ '' |('' @
     join '', '' (map display_ty params) @ '')|>''"
| "display_ty Ty_Unknown = ''<unknown>''"
| "display_constraint_bounds constraints =
     join '' + '' (map display_constraint_ref (positive constraints) @
       map (\<lambda>capability. ''!'' @ display_constraint_ref capability) (negative constraints))"
| "display_constraint_ref capability =
     (if cref_args capability = [] then cref_name capability
      else cref_name capability @ ''<'' @ join '', '' (map display_ty (cref_args capability)) @ ''>'')"

definition closure_constraint_suffix :: "constraint_bounds \<Rightarrow> string" where
  "closure_constraint_suffix constraints =
     (if bounds_is_empty constraints then [] else '': '' @ display_constraint_bounds constraints)"

declare mangle_constraint_bounds.simps [simp del] display_constraint_bounds.simps [simp del]
  mangle_constraint_ref.simps [simp del] display_constraint_ref.simps [simp del]

section \<open>Mangled names are C identifiers\<close>

definition is_ident_char :: "char \<Rightarrow> bool" where
  "is_ident_char c \<longleftrightarrow> is_ascii_alphanumeric c \<or> c = CHR ''_''"

text \<open>Every name stored in a node of the type consists of identifier characters.\<close>

fun node_name :: "ty \<Rightarrow> string" where
  "node_name (Ty_Named _ name _) = name"
| "node_name (Ty_GeneratedFuture name _ _ _ _ _) = name"
| "node_name (Ty_Generic name) = name"
| "node_name (Ty_DynamicInterface _ name _) = name"
| "node_name _ = []"

definition ident_names :: "ty \<Rightarrow> bool" where
  "ident_names t \<longleftrightarrow> list_all (\<lambda>x. list_all is_ident_char (node_name x)) (ty_nodes t)"

lemma ident_names_children:
  "ident_names t \<longleftrightarrow> list_all is_ident_char (node_name t) \<and> (\<forall>c \<in> set (ty_children t). ident_names c)"
  by (auto simp: ident_names_def ty_nodes.simps [of t] list_all_iff)

lemma ident_join:
  "list_all is_ident_char sep \<Longrightarrow> \<forall>p \<in> set ps. list_all is_ident_char p \<Longrightarrow>
     list_all is_ident_char (join sep ps)"
  by (induction sep ps rule: join.induct) auto

lemma ident_digits: "is_ascii_digit c \<Longrightarrow> is_ident_char c"
  by (simp add: is_ident_char_def is_ascii_alphanumeric_def)

lemma ident_show_nat [simp]: "list_all is_ident_char (show_nat n)"
  by (auto simp: list_all_iff intro: ident_digits dest: show_nat_digits)

lemma lowercase_alphanumeric:
  assumes "is_ascii_alphanumeric c"
  shows "is_ascii_alphanumeric (to_ascii_lowercase c)"
proof (cases "is_ascii_uppercase c")
  case True
  then have "65 \<le> (of_char c :: nat)" and "(of_char c :: nat) \<le> 90"
    by (auto simp: is_ascii_uppercase_def less_eq_char_def)
  then have "is_ascii_lowercase (char_of ((of_char c :: nat) + 32))"
    by (simp add: is_ascii_lowercase_def less_eq_char_def)
  then show ?thesis using True by (simp add: to_ascii_lowercase_def is_ascii_alphanumeric_def)
qed (use assms in \<open>simp add: to_ascii_lowercase_def\<close>)

lemma ident_mangle_char [simp]: "is_ident_char (mangle_char c)"
  by (simp add: is_ident_char_def mangle_char_def lowercase_alphanumeric)

lemma ident_underscore [simp]: "is_ident_char CHR ''_''"
  by (simp add: is_ident_char_def)

lemma ident_letters [simp]:
  "is_ident_char CHR ''a''" "is_ident_char CHR ''b''" "is_ident_char CHR ''c''" "is_ident_char CHR ''d''"
  "is_ident_char CHR ''e''" "is_ident_char CHR ''f''" "is_ident_char CHR ''g''" "is_ident_char CHR ''h''"
  "is_ident_char CHR ''i''" "is_ident_char CHR ''j''" "is_ident_char CHR ''k''" "is_ident_char CHR ''l''"
  "is_ident_char CHR ''m''" "is_ident_char CHR ''n''" "is_ident_char CHR ''o''" "is_ident_char CHR ''p''"
  "is_ident_char CHR ''q''" "is_ident_char CHR ''r''" "is_ident_char CHR ''s''" "is_ident_char CHR ''t''"
  "is_ident_char CHR ''u''" "is_ident_char CHR ''v''" "is_ident_char CHR ''w''" "is_ident_char CHR ''x''"
  "is_ident_char CHR ''y''" "is_ident_char CHR ''z''" "is_ident_char CHR ''0''" "is_ident_char CHR ''1''"
  "is_ident_char CHR ''2''" "is_ident_char CHR ''3''" "is_ident_char CHR ''4''" "is_ident_char CHR ''5''"
  "is_ident_char CHR ''6''" "is_ident_char CHR ''7''" "is_ident_char CHR ''8''" "is_ident_char CHR ''9''"
  by (simp_all add: is_ident_char_def is_ascii_alphanumeric_def is_ascii_lowercase_def
      is_ascii_digit_def less_eq_char_def)

lemma ident_sanitize [simp]:
  "list_all is_ident_char (sanitize_mangle_fragment v)" "list_all is_ident_char (mangle_abi_fragment abi)"
  by (auto simp: sanitize_mangle_fragment_def mangle_abi_fragment_def list_all_iff Let_def
      split: option.splits)

lemma ident_closure_id [simp]: "list_all is_ident_char (display_closure_instance_id cid)"
  by (cases "closure_owner cid") (simp_all add: display_closure_instance_id_def)

lemma mangle_ident:
  "ident_names t \<Longrightarrow> list_all is_ident_char (mangle_ty_fragment t)"
proof (induction t rule: ty_child_induct)
  case (node t)
  have IH: "list_all is_ident_char (mangle_ty_fragment c)" if "c \<in> set (ty_children t)" for c
    using node that ident_names_children [of t] by blast
  have name: "list_all is_ident_char (node_name t)" using node.prems ident_names_children [of t] by blast
  have bounds: "list_all is_ident_char (mangle_constraint_bounds b)"
    if "set (bounds_args b) \<subseteq> set (ty_children t)" for b
  proof -
    have "list_all is_ident_char (mangle_constraint_ref e)" if "e \<in> set (bounds_entries b)" for e
    proof -
      have "x \<in> set (ty_children t)" if "x \<in> set (cref_args e)" for x
        using that \<open>e \<in> set (bounds_entries b)\<close> \<open>set (bounds_args b) \<subseteq> set (ty_children t)\<close>
          bounds_args_iff [of x b] by blast
      then show ?thesis by (auto intro!: ident_join IH simp: mangle_constraint_ref.simps)
    qed
    then show ?thesis
      by (auto intro!: ident_join simp: mangle_constraint_bounds.simps bounds_entries_def)
  qed
  show ?case
    using IH name bounds
    by (cases t) (auto simp: Let_def intro!: ident_join split: view_mutability.splits bool.splits)
qed

section \<open>Mangling forgets hidden state\<close>

lemma mangle_map_cref:
  "(\<And>t. t \<in> set (cref_args e) \<Longrightarrow> mangle_ty_fragment (f t) = mangle_ty_fragment t) \<Longrightarrow>
     mangle_constraint_ref (map_cref f e) = mangle_constraint_ref e"
  by (simp add: map_cref_def mangle_constraint_ref.simps comp_def cong: map_cong)

lemma mangle_map_bounds:
  assumes "\<And>t. t \<in> set (bounds_args b) \<Longrightarrow> mangle_ty_fragment (f t) = mangle_ty_fragment t"
  shows "mangle_constraint_bounds (map_bounds f b) = mangle_constraint_bounds b"
proof -
  have "mangle_constraint_ref (map_cref f e) = mangle_constraint_ref e"
    if "e \<in> set (bounds_entries b)" for e
    using that assms by (intro mangle_map_cref) (auto simp: bounds_args_iff)
  then have "\<forall>e \<in> set (positive b). mangle_constraint_ref (map_cref f e) = mangle_constraint_ref e"
    and "\<forall>e \<in> set (negative b). mangle_constraint_ref (map_cref f e) = mangle_constraint_ref e"
    by (auto simp: bounds_entries_def)
  then show ?thesis
    by (simp add: map_bounds_def mangle_constraint_bounds.simps bounds_is_empty_def comp_def
        cong: map_cong)
qed

lemma mangle_opaque_state_ty [simp]: "mangle_ty_fragment (opaque_state_ty b st) = mangle_ty_fragment b"
  by (cases "(b, st)" rule: opaque_state_ty.cases) auto

lemma mangle_map_ty_children:
  assumes "\<And>c. c \<in> set (ty_mapped_children t) \<Longrightarrow> mangle_ty_fragment (f c) = mangle_ty_fragment c"
  shows "mangle_ty_fragment (map_ty_children f t) = mangle_ty_fragment t"
  using assms
  by (cases t) (auto simp: Let_def comp_def mangle_map_bounds [unfolded map_bounds_def map_cref_def]
      cong: map_cong)

lemma mangle_canonical: "mangle_ty_fragment (canonical_type_identity_ty t) = mangle_ty_fragment t"
proof (induction t rule: ty_child_induct)
  case (node t)
  show ?case
  proof (cases "is_opaque_state t")
    case True
    with node show ?thesis by (cases t) auto
  next
    case False
    with node ty_mapped_children_subset [of t] show ?thesis
      by (auto simp: canonical_step intro!: mangle_map_ty_children)
  qed
qed

section \<open>Display names\<close>

lemma rsplit_once_append:
  "rsplit_once pat ys = Some (b, s) \<Longrightarrow> rsplit_once pat (xs @ ys) = Some (xs @ b, s)"
  by (induction xs) auto

lemma rsplit_once_None:
  "hd pat \<notin> set ys \<Longrightarrow> pat \<noteq> [] \<Longrightarrow> rsplit_once pat ys = None"
  by (induction ys) (auto simp: neq_Nil_conv)

lemma display_nominal_name_suffix: "display_nominal_name (name @ ''__def'' @ show_nat d) = name"
proof -
  have "CHR ''_'' \<notin> set (show_nat d)"
    using show_nat_digits [of "CHR ''_''" d] by (auto simp: is_ascii_digit_def less_eq_char_def)
  then have "rsplit_once ''__def'' (show_nat d) = None" by (intro rsplit_once_None) auto
  then have "rsplit_once ''__def'' (''__def'' @ show_nat d) = Some ([], show_nat d)" by simp
  from rsplit_once_append [OF this, of name]
  have "rsplit_once ''__def'' (name @ ''__def'' @ show_nat d) = Some (name, show_nat d)" by simp
  then show ?thesis
    by (auto simp: display_nominal_name_def list_all_iff intro: show_nat_digits)
qed

section \<open>Properties\<close>



text \<open>
  C34: types with the same canonical identity receive the same instance name: mangling factors
  through \<^const>\<open>canonical_type_identity_ty\<close>.
\<close>

theorem mangle_ty_fragment_canonical:
  "mangle_ty_fragment (canonical_type_identity_ty t) = mangle_ty_fragment t"
  by (rule mangle_canonical)

text \<open>
  \<^const>\<open>display_nominal_name\<close> recovers the source name from the disambiguated nominal name
  \<open>{name}__def{id}\<close>, whatever the source name is.
\<close>

theorem display_nominal_name_roundtrip:
  "display_nominal_name (name @ ''__def'' @ show_nat def_id) = name"
  by (rule display_nominal_name_suffix)


end
