(* ===== verification/Ciel_Meta.thy ===== *)
theory Ciel_Meta
  imports Ciel_Mangle
begin

text \<open>
  Structural representation types of \<open>std/meta\<close> (\<open>src/types.rs\<close>): heterogeneous lists and
  coproducts for structs and enums, balanced trees of chunks for arrays, the expansion budget
  (with \<open>check_meta_array_budget\<close> of \<open>src/typeck/meta_repr.rs\<close>), and the marker types that stand
  for an unexpanded representation.
\<close>

section \<open>Definitions\<close>

definition STD_META_REF_REPR_MARKER :: string where
  "STD_META_REF_REPR_MARKER = ''__ciel_std_meta_RefRepr''"
definition STD_META_REPR_MARKER :: string where
  "STD_META_REPR_MARKER = ''__ciel_std_meta_Repr''"
definition STD_META_SCHEMA_MARKER :: string where
  "STD_META_SCHEMA_MARKER = ''__ciel_std_meta_Schema''"
definition META_ARRAY_CHUNK_SIZE :: nat where
  "META_ARRAY_CHUNK_SIZE = 16"
definition META_ARRAY_EXPANSION_BUDGET :: nat where
  "META_ARRAY_EXPANSION_BUDGET = 4096"

definition meta_named :: "string \<Rightarrow> ty list \<Rightarrow> ty" where
  "meta_named name args = named_ty None name args"

text \<open>\<open>iter.rev().fold(init, f)\<close>.\<close>

definition rev_fold :: "('a \<Rightarrow> 'b \<Rightarrow> 'a) \<Rightarrow> 'b list \<Rightarrow> 'a \<Rightarrow> 'a" where
  "rev_fold f xs init = foldl f init (rev xs)"

definition meta_product_ty :: "ty list \<Rightarrow> string \<Rightarrow> ty" where
  "meta_product_ty field_tys head_name =
     rev_fold (\<lambda>tail field_ty. meta_named ''HCons'' [meta_named head_name [field_ty], tail])
       field_tys (meta_named ''HNil'' [])"

definition meta_sum_ty :: "ty list list \<Rightarrow> bool \<Rightarrow> ty" where
  "meta_sum_ty payloads borrowed =
     rev_fold (\<lambda>tail payload.
         let payload_head = (if borrowed then ''PayloadRef'' else ''Payload'');
             payload = meta_product_ty payload payload_head;
             variant_head = (if borrowed then ''VariantRef'' else ''Variant'')
         in meta_named ''Coproduct'' [meta_named variant_head [payload], tail])
       payloads (meta_named ''CoNil'' [])"

definition meta_type_tag_ty :: "ty \<Rightarrow> ty" where
  "meta_type_tag_ty t = meta_named ''Type'' [t]"

definition meta_schema_product_ty :: "(ty \<times> ty) list \<Rightarrow> ty" where
  "meta_schema_product_ty field_tys =
     rev_fold (\<lambda>tail (source_ty, repr_ty).
         meta_named ''HCons'' [meta_named ''FieldSchema'' [source_ty, repr_ty], tail])
       field_tys (meta_named ''HNil'' [])"

definition meta_schema_payload_ty :: "(ty \<times> ty) list \<Rightarrow> ty" where
  "meta_schema_payload_ty payloads =
     rev_fold (\<lambda>tail (source_ty, repr_ty).
         meta_named ''HCons'' [meta_named ''PayloadSchema'' [source_ty, repr_ty], tail])
       payloads (meta_named ''HNil'' [])"

definition meta_schema_sum_ty :: "(ty \<times> ty) list list \<Rightarrow> ty" where
  "meta_schema_sum_ty variants =
     rev_fold (\<lambda>tail payload.
         meta_named ''HCons'' [meta_named ''VariantSchema'' [meta_schema_payload_ty payload], tail])
       variants (meta_named ''HNil'' [])"

definition meta_repr_borrowed_array_leaf_ty :: "ty \<Rightarrow> ty" where
  "meta_repr_borrowed_array_leaf_ty t = t"

definition meta_repr_borrowed_array_item_ty :: "ty \<Rightarrow> ty" where
  "meta_repr_borrowed_array_item_ty t = const_pointer_to t"

definition meta_array_split_len :: "nat \<Rightarrow> nat" where
  "meta_array_split_len len =
     (if len \<le> META_ARRAY_CHUNK_SIZE then len
      else let chunks = div_ceil len META_ARRAY_CHUNK_SIZE;
               left_chunks = chunks div 2
           in max (min (left_chunks * META_ARRAY_CHUNK_SIZE) (len - 1)) 1)"

lemma meta_array_split_len_bounds:
  assumes "\<not> len \<le> META_ARRAY_CHUNK_SIZE"
  shows "1 \<le> meta_array_split_len len" and "meta_array_split_len len < len"
    and "len - meta_array_split_len len < len"
  using assms by (auto simp: meta_array_split_len_def META_ARRAY_CHUNK_SIZE_def Let_def)

function meta_ref_array_repr_ty :: "nat \<Rightarrow> ty \<Rightarrow> ty" where
  "meta_ref_array_repr_ty len elem =
     (if len = 0 then meta_named ''ArrayNil'' []
      else if len \<le> META_ARRAY_CHUNK_SIZE
        then meta_named (''ArrayChunk'' @ show_nat len) [meta_repr_borrowed_array_item_ty elem]
      else let split = meta_array_split_len len in
        meta_named ''ArrayCat''
          [meta_ref_array_repr_ty split elem, meta_ref_array_repr_ty (len - split) elem])"
  by auto
termination
  by (relation "measure fst") (auto dest: meta_array_split_len_bounds)

text \<open>The closure parameter \<open>owned_leaf\<close> is applied to the element type only.\<close>

function meta_array_repr_ty_with_leaf :: "nat \<Rightarrow> ty \<Rightarrow> bool \<Rightarrow> (ty \<Rightarrow> ty) \<Rightarrow> ty" where
  "meta_array_repr_ty_with_leaf len elem borrowed owned_leaf =
     (if len = 0 then meta_named ''ArrayNil'' []
      else if len \<le> META_ARRAY_CHUNK_SIZE
        then let elem_ty = (if borrowed then meta_repr_borrowed_array_leaf_ty elem
                            else owned_leaf elem)
             in meta_named (''ArrayChunk'' @ show_nat len) [elem_ty]
      else let split = meta_array_split_len len in
        meta_named ''ArrayCat''
          [meta_array_repr_ty_with_leaf split elem borrowed owned_leaf,
           meta_array_repr_ty_with_leaf (len - split) elem borrowed owned_leaf])"
  by auto
termination
  by (relation "measure fst") (auto dest: meta_array_split_len_bounds)

declare meta_ref_array_repr_ty.simps [simp del] meta_array_repr_ty_with_leaf.simps [simp del]

lemma meta_array_repr_ty_with_leaf_cong [fundef_cong]:
  assumes "len = len'" "elem = elem'" "borrowed = borrowed'"
    and "leaf elem' = leaf' elem'"
  shows "meta_array_repr_ty_with_leaf len elem borrowed leaf =
    meta_array_repr_ty_with_leaf len' elem' borrowed' leaf'"
  using assms
proof (induction len arbitrary: len' rule: less_induct)
  case (less len)
  then show ?case
    using meta_array_split_len_bounds [of len]
    by (subst (1 2) meta_array_repr_ty_with_leaf.simps) (auto simp: Let_def)
qed

fun meta_repr_owned_leaf_ty :: "ty \<Rightarrow> ty" where
  "meta_repr_owned_leaf_ty (Ty_Array len elem) =
     meta_array_repr_ty_with_leaf len elem False meta_repr_owned_leaf_ty"
| "meta_repr_owned_leaf_ty other = other"

definition meta_array_repr_ty :: "nat \<Rightarrow> ty \<Rightarrow> bool \<Rightarrow> ty" where
  "meta_array_repr_ty len elem borrowed =
     meta_array_repr_ty_with_leaf len elem borrowed meta_repr_owned_leaf_ty"

fun meta_array_expansion_cost :: "nat \<Rightarrow> ty \<Rightarrow> nat option" where
  "meta_array_expansion_cost len elem =
     do {
       elem_cost \<leftarrow> (case elem of
           Ty_Array elem_len inner \<Rightarrow> meta_array_expansion_cost elem_len inner
         | _ \<Rightarrow> Some 1);
       element_cost \<leftarrow> checked_mul len elem_cost;
       if len = 0 then Some 1
       else do {
         let chunks = div_ceil len META_ARRAY_CHUNK_SIZE;
         let cats = chunks - 1;
         sum \<leftarrow> checked_add element_cost chunks;
         checked_add sum cats
       }
     }"

declare meta_array_expansion_cost.simps [simp del]

text \<open>
  \<open>check_meta_array_budget\<close>; the checker's diagnostics are the list that is returned extended.
\<close>

definition check_meta_array_budget ::
  "diagnostic list \<Rightarrow> span option \<Rightarrow> ty \<Rightarrow> nat \<Rightarrow> ty \<Rightarrow> bool \<Rightarrow> unit option \<times> diagnostic list" where
  "check_meta_array_budget diagnostics sp source_ty len elem emit_diagnostics =
     (case meta_array_expansion_cost len elem of
        None \<Rightarrow> (None, diagnostics)
      | Some cost \<Rightarrow>
          if cost \<le> META_ARRAY_EXPANSION_BUDGET then (Some (), diagnostics)
          else (None,
            if emit_diagnostics
            then diagnostics @ [diagnostic_new sp (''meta::Repr<'' @ display_ty source_ty @
              ''> expands too many structural array nodes; use an explicit Message wrapper or an owned buffer type'')]
            else diagnostics))"

definition check_meta_schema_array_budget ::
  "diagnostic list \<Rightarrow> span option \<Rightarrow> ty \<Rightarrow> nat \<Rightarrow> ty \<Rightarrow> bool \<Rightarrow> unit option \<times> diagnostic list" where
  "check_meta_schema_array_budget diagnostics sp source_ty len elem emit_diagnostics =
     (case meta_array_expansion_cost len elem of
        None \<Rightarrow> (None, diagnostics)
      | Some cost \<Rightarrow>
          if cost \<le> META_ARRAY_EXPANSION_BUDGET then (Some (), diagnostics)
          else (None,
            if emit_diagnostics
            then diagnostics @ [diagnostic_new sp (''meta::Schema<'' @ display_ty source_ty @
              ''> expands too many structural array nodes; use an explicit schema wrapper or an owned buffer type'')]
            else diagnostics))"

definition std_meta_repr_marker_ty_with_def_id :: "def_id option \<Rightarrow> bool \<Rightarrow> ty \<Rightarrow> ty" where
  "std_meta_repr_marker_ty_with_def_id def_id borrowed source_ty =
     named_ty def_id (if borrowed then STD_META_REF_REPR_MARKER else STD_META_REPR_MARKER) [source_ty]"

definition std_meta_repr_marker_ty :: "bool \<Rightarrow> ty \<Rightarrow> ty" where
  "std_meta_repr_marker_ty borrowed source_ty =
     std_meta_repr_marker_ty_with_def_id None borrowed source_ty"

definition std_meta_schema_marker_ty_with_def_id :: "def_id option \<Rightarrow> ty \<Rightarrow> ty" where
  "std_meta_schema_marker_ty_with_def_id def_id source_ty =
     named_ty def_id STD_META_SCHEMA_MARKER [source_ty]"

definition std_meta_schema_marker_ty :: "ty \<Rightarrow> ty" where
  "std_meta_schema_marker_ty source_ty = std_meta_schema_marker_ty_with_def_id None source_ty"

definition std_meta_repr_source_name :: "string \<Rightarrow> bool option" where
  "std_meta_repr_source_name name =
     (if name = ''RefRepr'' then Some True else if name = ''Repr'' then Some False else None)"

definition std_meta_schema_source_name :: "string \<Rightarrow> bool" where
  "std_meta_schema_source_name name \<longleftrightarrow> name = ''Schema''"

definition meta_repr_marker_name :: "string \<Rightarrow> bool option" where
  "meta_repr_marker_name name =
     (if name = STD_META_REF_REPR_MARKER then Some True
      else if name = STD_META_REPR_MARKER then Some False else None)"

definition meta_schema_marker_name :: "string \<Rightarrow> bool" where
  "meta_schema_marker_name name \<longleftrightarrow> name = STD_META_SCHEMA_MARKER"

fun meta_repr_marker_source :: "ty \<Rightarrow> (bool \<times> ty) option" where
  "meta_repr_marker_source (Ty_Named _ name args) =
     do {
       borrowed \<leftarrow> meta_repr_marker_name name;
       if length args \<noteq> 1 then None else Some (borrowed, args ! 0)
     }"
| "meta_repr_marker_source _ = None"

fun meta_schema_marker_source :: "ty \<Rightarrow> ty option" where
  "meta_schema_marker_source (Ty_Named _ name args) =
     (if \<not> meta_schema_marker_name name \<or> length args \<noteq> 1 then None else Some (args ! 0))"
| "meta_schema_marker_source _ = None"

fun contains_meta_marker :: "ty \<Rightarrow> bool" where
  "contains_meta_marker (Ty_Named _ name args) \<longleftrightarrow>
     meta_repr_marker_name name \<noteq> None \<or> meta_schema_marker_name name \<or>
     list_ex contains_meta_marker args"
| "contains_meta_marker (Ty_GeneratedFuture _ output _ _ _ state) \<longleftrightarrow>
     contains_meta_marker output \<or> list_ex (\<lambda>entry. contains_meta_marker (snd entry)) state"
| "contains_meta_marker (Ty_OpaqueState base state) \<longleftrightarrow>
     contains_meta_marker base \<or> list_ex (\<lambda>entry. contains_meta_marker (snd entry)) state"
| "contains_meta_marker (Ty_Pointer _ _ inner) \<longleftrightarrow> contains_meta_marker inner"
| "contains_meta_marker (Ty_Array _ elem) \<longleftrightarrow> contains_meta_marker elem"
| "contains_meta_marker (Ty_Slice _ elem) \<longleftrightarrow> contains_meta_marker elem"
| "contains_meta_marker (Ty_DynamicInterface _ _ args) \<longleftrightarrow> list_ex contains_meta_marker args"
| "contains_meta_marker (Ty_OpaqueReturn key bounds) \<longleftrightarrow>
     list_ex contains_meta_marker (key_args key) \<or>
     list_ex (\<lambda>entry. list_ex contains_meta_marker (cref_args entry)) (bounds_entries bounds)"
| "contains_meta_marker (Ty_Function _ _ ret params) \<longleftrightarrow>
     contains_meta_marker ret \<or> list_ex contains_meta_marker params"
| "contains_meta_marker (Ty_Closure ret params _) \<longleftrightarrow>
     contains_meta_marker ret \<or> list_ex contains_meta_marker params"
| "contains_meta_marker (Ty_ClosureInstance _ ret params captures) \<longleftrightarrow>
     contains_meta_marker ret \<or> list_ex contains_meta_marker params \<or>
     list_ex contains_meta_marker captures"
| "contains_meta_marker _ \<longleftrightarrow> False"

fun contains_meta_repr_marker :: "ty \<Rightarrow> bool" where
  "contains_meta_repr_marker (Ty_Named _ name args) \<longleftrightarrow>
     meta_repr_marker_name name \<noteq> None \<or> list_ex contains_meta_repr_marker args"
| "contains_meta_repr_marker (Ty_GeneratedFuture _ output _ _ _ state) \<longleftrightarrow>
     contains_meta_repr_marker output \<or> list_ex (\<lambda>entry. contains_meta_repr_marker (snd entry)) state"
| "contains_meta_repr_marker (Ty_OpaqueState base state) \<longleftrightarrow>
     contains_meta_repr_marker base \<or> list_ex (\<lambda>entry. contains_meta_repr_marker (snd entry)) state"
| "contains_meta_repr_marker (Ty_Pointer _ _ inner) \<longleftrightarrow> contains_meta_repr_marker inner"
| "contains_meta_repr_marker (Ty_Array _ elem) \<longleftrightarrow> contains_meta_repr_marker elem"
| "contains_meta_repr_marker (Ty_Slice _ elem) \<longleftrightarrow> contains_meta_repr_marker elem"
| "contains_meta_repr_marker (Ty_DynamicInterface _ _ args) \<longleftrightarrow> list_ex contains_meta_repr_marker args"
| "contains_meta_repr_marker (Ty_OpaqueReturn key bounds) \<longleftrightarrow>
     list_ex contains_meta_repr_marker (key_args key) \<or>
     list_ex (\<lambda>entry. list_ex contains_meta_repr_marker (cref_args entry)) (bounds_entries bounds)"
| "contains_meta_repr_marker (Ty_Function _ _ ret params) \<longleftrightarrow>
     contains_meta_repr_marker ret \<or> list_ex contains_meta_repr_marker params"
| "contains_meta_repr_marker (Ty_Closure ret params _) \<longleftrightarrow>
     contains_meta_repr_marker ret \<or> list_ex contains_meta_repr_marker params"
| "contains_meta_repr_marker (Ty_ClosureInstance _ ret params captures) \<longleftrightarrow>
     contains_meta_repr_marker ret \<or> list_ex contains_meta_repr_marker params \<or>
     list_ex contains_meta_repr_marker captures"
| "contains_meta_repr_marker _ \<longleftrightarrow> False"

section \<open>Array representations are balanced chunk trees\<close>

text \<open>
  \<open>array_repr item t ks\<close>: the type \<open>t\<close> is a tree of \<open>ArrayCat\<close> nodes over chunks of \<open>item\<close> whose
  sizes, from left to right, are \<open>ks\<close>.
\<close>

inductive array_repr :: "ty \<Rightarrow> ty \<Rightarrow> nat list \<Rightarrow> bool" where
  repr_nil: "array_repr item (meta_named ''ArrayNil'' []) []"
| repr_chunk: "0 < k \<Longrightarrow> k \<le> META_ARRAY_CHUNK_SIZE \<Longrightarrow>
    array_repr item (meta_named (''ArrayChunk'' @ show_nat k) [item]) [k]"
| repr_cat: "array_repr item l ks \<Longrightarrow> array_repr item r ks' \<Longrightarrow> ks \<noteq> [] \<Longrightarrow> ks' \<noteq> [] \<Longrightarrow>
    array_repr item (meta_named ''ArrayCat'' [l, r]) (ks @ ks')"

text \<open>Full chunks followed by at most one partial chunk.\<close>

definition canonical_chunks :: "nat \<Rightarrow> nat list" where
  "canonical_chunks len = replicate (len div META_ARRAY_CHUNK_SIZE) META_ARRAY_CHUNK_SIZE @
     (if len mod META_ARRAY_CHUNK_SIZE = 0 then [] else [len mod META_ARRAY_CHUNK_SIZE])"

lemma canonical_chunks_empty: "canonical_chunks len = [] \<longleftrightarrow> len = 0"
  by (auto simp: canonical_chunks_def META_ARRAY_CHUNK_SIZE_def)

lemma canonical_chunks_sum: "sum_list (canonical_chunks len) = len"
  using div_mult_mod_eq [of len META_ARRAY_CHUNK_SIZE]
  by (auto simp: canonical_chunks_def sum_list_replicate)

lemma length_canonical_chunks: "length (canonical_chunks len) = div_ceil len META_ARRAY_CHUNK_SIZE"
  by (simp add: canonical_chunks_def div_ceil_def)

lemma canonical_chunks_single:
  "0 < len \<Longrightarrow> len \<le> META_ARRAY_CHUNK_SIZE \<Longrightarrow> canonical_chunks len = [len]"
  by (cases "len = 16") (auto simp: canonical_chunks_def META_ARRAY_CHUNK_SIZE_def)

lemma canonical_chunks_split:
  assumes "k * META_ARRAY_CHUNK_SIZE \<le> len"
  shows "canonical_chunks (k * META_ARRAY_CHUNK_SIZE) @ canonical_chunks (len - k * META_ARRAY_CHUNK_SIZE)
    = canonical_chunks len"
proof -
  obtain m where "len = k * META_ARRAY_CHUNK_SIZE + m" using assms le_Suc_ex by blast
  then show ?thesis
    by (simp add: canonical_chunks_def META_ARRAY_CHUNK_SIZE_def replicate_add)
qed

lemma meta_array_split_len_chunks:
  assumes "\<not> len \<le> META_ARRAY_CHUNK_SIZE"
  shows "meta_array_split_len len = div_ceil len META_ARRAY_CHUNK_SIZE div 2 * META_ARRAY_CHUNK_SIZE"
proof -
  let ?c = "div_ceil len META_ARRAY_CHUNK_SIZE"
  have c: "2 \<le> ?c"
  proof (rule ccontr)
    assume "\<not> 2 \<le> ?c"
    then have "?c * META_ARRAY_CHUNK_SIZE \<le> META_ARRAY_CHUNK_SIZE" by simp
    with div_ceil_lower [of META_ARRAY_CHUNK_SIZE len] assms show False
      by (simp add: META_ARRAY_CHUNK_SIZE_def)
  qed
  have "?c div 2 * META_ARRAY_CHUNK_SIZE \<le> (?c - 1) * META_ARRAY_CHUNK_SIZE"
    using c by (intro mult_le_mono1) simp
  also have "\<dots> < len"
  proof (cases "len mod META_ARRAY_CHUNK_SIZE = 0")
    case True
    then have "len div META_ARRAY_CHUNK_SIZE * META_ARRAY_CHUNK_SIZE = len" by auto
    with True assms show ?thesis
      by (simp add: div_ceil_def diff_mult_distrib META_ARRAY_CHUNK_SIZE_def)
  next
    case False
    then have "len div META_ARRAY_CHUNK_SIZE * META_ARRAY_CHUNK_SIZE <
        len div META_ARRAY_CHUNK_SIZE * META_ARRAY_CHUNK_SIZE + len mod META_ARRAY_CHUNK_SIZE"
      by (simp only: less_add_same_cancel1)
    also have "\<dots> = len" by (rule div_mult_mod_eq)
    finally show ?thesis using False by (simp add: div_ceil_def)
  qed
  finally have "?c div 2 * META_ARRAY_CHUNK_SIZE \<le> len - 1" by simp
  moreover have "1 \<le> ?c div 2 * META_ARRAY_CHUNK_SIZE"
    using c by (simp add: META_ARRAY_CHUNK_SIZE_def)
  ultimately show ?thesis using assms by (simp add: meta_array_split_len_def Let_def)
qed

lemma canonical_chunks_cat:
  assumes "\<not> len \<le> META_ARRAY_CHUNK_SIZE"
  shows "canonical_chunks (meta_array_split_len len) @
    canonical_chunks (len - meta_array_split_len len) = canonical_chunks len"
  using meta_array_split_len_bounds(2) [OF assms] meta_array_split_len_chunks [OF assms]
    canonical_chunks_split by simp

lemma array_repr_cat:
  assumes "\<not> len \<le> META_ARRAY_CHUNK_SIZE"
    and "array_repr item l (canonical_chunks (meta_array_split_len len))"
    and "array_repr item r (canonical_chunks (len - meta_array_split_len len))"
  shows "array_repr item (meta_named ''ArrayCat'' [l, r]) (canonical_chunks len)"
  using assms meta_array_split_len_bounds [OF assms(1)] canonical_chunks_cat [OF assms(1)]
    repr_cat [OF assms(2,3)] by (simp add: canonical_chunks_empty)

lemma meta_ref_array_repr:
  "array_repr (meta_repr_borrowed_array_item_ty elem) (meta_ref_array_repr_ty len elem)
     (canonical_chunks len)"
proof (induction len elem rule: meta_ref_array_repr_ty.induct)
  case (1 len elem)
  then show ?case
    by (subst meta_ref_array_repr_ty.simps)
       (auto simp: Let_def canonical_chunks_single canonical_chunks_empty [THEN iffD2]
         intro: repr_nil repr_chunk [simplified] array_repr_cat)
qed

lemma meta_array_repr:
  "array_repr (if borrowed then elem else leaf elem)
     (meta_array_repr_ty_with_leaf len elem borrowed leaf) (canonical_chunks len)"
proof (induction len elem borrowed leaf rule: meta_array_repr_ty_with_leaf.induct)
  case (1 len elem borrowed leaf)
  then show ?case
    by (subst meta_array_repr_ty_with_leaf.simps)
       (auto simp: Let_def canonical_chunks_single canonical_chunks_empty [THEN iffD2]
         meta_repr_borrowed_array_leaf_ty_def intro: repr_nil repr_chunk [simplified] array_repr_cat)
qed

section \<open>The expansion budget\<close>

text \<open>
  The number of nodes of an expanded array: per level, the chunks and the \<open>ArrayCat\<close> nodes of its
  representation, and every element's own expansion.
\<close>

fun expansion_nodes :: "nat \<Rightarrow> ty \<Rightarrow> nat" where
  "expansion_nodes len elem =
     (if len = 0 then 1
      else len * (case elem of Ty_Array l e \<Rightarrow> expansion_nodes l e | _ \<Rightarrow> 1) +
        length (canonical_chunks len) + (length (canonical_chunks len) - 1))"

fun expansion_fits :: "nat \<Rightarrow> ty \<Rightarrow> bool" where
  "expansion_fits len elem \<longleftrightarrow>
     (case elem of Ty_Array l e \<Rightarrow> expansion_fits l e | _ \<Rightarrow> True) \<and>
     expansion_nodes len elem \<le> usize_max"

declare expansion_nodes.simps [simp del] expansion_fits.simps [simp del]

lemma usize_max_pos: "0 < usize_max"
  by (simp add: usize_max_def usize_bits_def)

lemma meta_array_expansion_cost_nodes:
  "meta_array_expansion_cost len elem =
     (if expansion_fits len elem then Some (expansion_nodes len elem) else None)"
proof (induction len elem rule: meta_array_expansion_cost.induct)
  case (1 len elem)
  define inner where "inner = (case elem of Ty_Array l e \<Rightarrow> meta_array_expansion_cost l e | _ \<Rightarrow> Some 1)"
  define fits where "fits = (case elem of Ty_Array l e \<Rightarrow> expansion_fits l e | _ \<Rightarrow> True)"
  define nodes where "nodes = (case elem of Ty_Array l e \<Rightarrow> expansion_nodes l e | _ \<Rightarrow> 1)"
  have inner: "inner = (if fits then Some nodes else None)"
    using 1 by (cases elem) (auto simp: inner_def fits_def nodes_def)
  have "meta_array_expansion_cost len elem = Option.bind inner (\<lambda>elem_cost.
      Option.bind (checked_mul len elem_cost) (\<lambda>element_cost.
        if len = 0 then Some 1
        else Option.bind (checked_add element_cost (length (canonical_chunks len))) (\<lambda>sum.
          checked_add sum (length (canonical_chunks len) - 1))))"
    unfolding inner_def length_canonical_chunks
    by (rule meta_array_expansion_cost.simps [unfolded Let_def])
  moreover have "expansion_nodes len elem = (if len = 0 then 1
      else len * nodes + length (canonical_chunks len) + (length (canonical_chunks len) - 1))"
    by (subst expansion_nodes.simps) (simp add: nodes_def)
  moreover have "expansion_fits len elem \<longleftrightarrow> fits \<and> expansion_nodes len elem \<le> usize_max"
    by (subst expansion_fits.simps) (simp add: fits_def)
  ultimately show ?case
    using usize_max_pos by (auto simp: inner checked_mul_def checked_add_def)
qed

section \<open>Products, sums and markers\<close>

lemma meta_product_ty_simps:
  "meta_product_ty [] h = meta_named ''HNil'' []"
  "meta_product_ty (f # fs) h = meta_named ''HCons'' [meta_named h [f], meta_product_ty fs h]"
  by (simp_all add: meta_product_ty_def rev_fold_def)

lemma meta_sum_ty_simps:
  "meta_sum_ty [] borrowed = meta_named ''CoNil'' []"
  "meta_sum_ty (p # ps) borrowed = meta_named ''Coproduct''
     [meta_named (if borrowed then ''VariantRef'' else ''Variant'')
        [meta_product_ty p (if borrowed then ''PayloadRef'' else ''Payload'')],
      meta_sum_ty ps borrowed]"
  by (simp_all add: meta_sum_ty_def rev_fold_def)

lemma meta_product_ty_inj: "meta_product_ty fs h = meta_product_ty gs h \<longleftrightarrow> fs = gs"
proof (induction fs arbitrary: gs)
  case Nil
  then show ?case by (cases gs) (simp_all add: meta_product_ty_simps meta_named_def)
next
  case (Cons f fs)
  then show ?case by (cases gs) (simp_all add: meta_product_ty_simps meta_named_def)
qed

lemma meta_sum_ty_inj: "meta_sum_ty ps b = meta_sum_ty qs b \<longleftrightarrow> ps = qs"
proof (induction ps arbitrary: qs)
  case Nil
  then show ?case by (cases qs) (simp_all add: meta_sum_ty_simps meta_named_def)
next
  case (Cons p ps)
  then show ?case by (cases qs) (simp_all add: meta_sum_ty_simps meta_named_def meta_product_ty_inj)
qed

lemma meta_sum_ty_kind: "meta_sum_ty ps b = meta_sum_ty qs c \<Longrightarrow> ps \<noteq> [] \<Longrightarrow> b = c"
  by (cases ps; cases qs) (auto simp: meta_sum_ty_simps meta_named_def split: if_splits)

text \<open>Nodes reachable through the children that \<^const>\<open>map_ty_children\<close> visits.\<close>

inductive mapped_occurs :: "ty \<Rightarrow> ty \<Rightarrow> bool" for x where
  mapped_here: "mapped_occurs x x"
| mapped_below: "c \<in> set (ty_mapped_children t) \<Longrightarrow> mapped_occurs x c \<Longrightarrow> mapped_occurs x t"

definition marker_node :: "ty \<Rightarrow> bool" where
  "marker_node t \<longleftrightarrow> (\<exists>d name args. t = Ty_Named d name args \<and>
     (meta_repr_marker_name name \<noteq> None \<or> meta_schema_marker_name name))"

lemma contains_meta_marker_children:
  "contains_meta_marker t \<longleftrightarrow>
     marker_node t \<or> (\<exists>c \<in> set (ty_mapped_children t). contains_meta_marker c)"
  by (cases t) (auto simp: marker_node_def list_ex_iff bounds_args_iff)

lemma contains_meta_marker_occurs:
  "contains_meta_marker t \<longleftrightarrow> (\<exists>x. marker_node x \<and> mapped_occurs x t)"
proof
  show "contains_meta_marker t \<Longrightarrow> \<exists>x. marker_node x \<and> mapped_occurs x t"
  proof (induction t rule: ty_child_induct)
    case (node t)
    then show ?case
      using contains_meta_marker_children [of t] ty_mapped_children_subset [of t]
      by (blast intro: mapped_here mapped_below)
  qed
next
  assume "\<exists>x. marker_node x \<and> mapped_occurs x t"
  then obtain x where x: "mapped_occurs x t" "marker_node x" by blast
  then show "contains_meta_marker t"
  proof (induction rule: mapped_occurs.induct)
    case mapped_here
    then show ?case by (subst contains_meta_marker_children) simp
  next
    case (mapped_below c t)
    then show ?case by (subst contains_meta_marker_children) blast
  qed
qed

section \<open>Properties\<close>

text \<open>
  C12: the representation of an array of \<open>len\<close> elements is a tree of \<open>ArrayCat\<close> nodes over full
  chunks of 16 and at most one final partial chunk; together the chunks hold exactly \<open>len\<close>
  elements.
\<close>

theorem meta_array_repr_ty_chunks:
  "array_repr (if borrowed then elem else meta_repr_owned_leaf_ty elem)
     (meta_array_repr_ty len elem borrowed) (canonical_chunks len) \<and>
   sum_list (canonical_chunks len) = len"
  by (simp add: meta_array_repr_ty_def canonical_chunks_sum
      meta_array_repr [of borrowed elem meta_repr_owned_leaf_ty])

text \<open>
  C15: \<^const>\<open>meta_array_expansion_cost\<close> computes the exact number of nodes of the expanded
  representation, and answers \<open>None\<close> exactly when some level's count exceeds \<open>usize::MAX\<close>.
\<close>

theorem meta_array_expansion_cost_exact:
  "meta_array_expansion_cost len elem =
     (if expansion_fits len elem then Some (expansion_nodes len elem) else None)"
  by (rule meta_array_expansion_cost_nodes)

text \<open>
  C16: \<^const>\<open>check_meta_array_budget\<close> accepts exactly the arrays whose expansion fits and stays within
  the budget; a rejection is reported once when diagnostics are requested, except when the cost
  computation overflows: then nothing is reported.
\<close>

theorem check_meta_array_budget_spec:
  "(fst (check_meta_array_budget ds sp source_ty len elem emit) = Some () \<longleftrightarrow>
      expansion_fits len elem \<and> expansion_nodes len elem \<le> META_ARRAY_EXPANSION_BUDGET) \<and>
   length (snd (check_meta_array_budget ds sp source_ty len elem emit)) = length ds +
     (if emit \<and> expansion_fits len elem \<and> META_ARRAY_EXPANSION_BUDGET < expansion_nodes len elem
      then 1 else 0)"
  by (simp add: check_meta_array_budget_def meta_array_expansion_cost_nodes)



text \<open>
  C36: the structural sum of an enum determines its variants: the payload types of every variant, in
  order, can be recovered, and the owned and borrowed forms are never confused.
\<close>

theorem meta_sum_ty_injective:
  "meta_sum_ty ps b = meta_sum_ty qs c \<longleftrightarrow> ps = qs \<and> (ps = [] \<or> b = c)"
proof (cases "ps = []")
  case True
  then show ?thesis by (cases qs) (simp_all add: meta_sum_ty_simps meta_named_def)
next
  case False
  with meta_sum_ty_kind meta_sum_ty_inj show ?thesis by blast
qed

text \<open>
  C37: \<^const>\<open>contains_meta_marker\<close> finds a marker exactly when a node with a marker name is reachable
  through the children \<^const>\<open>map_ty_children\<close> visits, so an expansion pass built on that map meets every
  marker the test announces.
\<close>

theorem contains_meta_marker_reachable:
  "contains_meta_marker t \<longleftrightarrow> (\<exists>x. marker_node x \<and> mapped_occurs x t)"
  by (rule contains_meta_marker_occurs)

text \<open>
  reading a marker back: the source type and the ownership flag of a representation marker are
  those it was built with, and a schema marker is never mistaken for a representation marker.
\<close>

theorem meta_marker_roundtrip:
  "meta_repr_marker_source (std_meta_repr_marker_ty_with_def_id d borrowed t) = Some (borrowed, t) \<and>
   meta_schema_marker_source (std_meta_schema_marker_ty_with_def_id d t) = Some t \<and>
   meta_repr_marker_source (std_meta_schema_marker_ty_with_def_id d t) = None \<and>
   meta_schema_marker_source (std_meta_repr_marker_ty_with_def_id d borrowed t) = None"
  by (simp add: std_meta_repr_marker_ty_with_def_id_def std_meta_schema_marker_ty_with_def_id_def
      meta_repr_marker_name_def meta_schema_marker_name_def STD_META_REF_REPR_MARKER_def
      STD_META_REPR_MARKER_def STD_META_SCHEMA_MARKER_def)

end
