(* ===== verification/Ciel_Suggest.thy ===== *)
theory Ciel_Suggest
  imports Ciel_Prelude
begin

text \<open>
  Spelling suggestions for unknown names (\<open>src/suggest.rs\<close>): the edit distance computed with two
  rows, the ranking of candidates and the notes attached to diagnostics.
\<close>

section \<open>Definitions\<close>

definition MAX_SUGGESTIONS :: nat where
  "MAX_SUGGESTIONS = 5"

record ranked_suggestion =
  rs_distance :: nat
  rs_compare :: string
  rs_display :: string

definition max_distance_for :: "nat \<Rightarrow> nat" where
  "max_distance_for len = (if len \<le> 3 then 1 else if len \<le> 8 then 2 else 3)"

text \<open>The inner loop over \<open>right_chars.iter().enumerate()\<close>, which fills \<open>current\<close> from left to right.\<close>

fun levenshtein_inner :: "char \<Rightarrow> nat list \<Rightarrow> nat \<Rightarrow> char list \<Rightarrow> nat list \<Rightarrow> nat list" where
  "levenshtein_inner left_ch previous right_idx [] current = current"
| "levenshtein_inner left_ch previous right_idx (right_ch # rest) current =
     (let substitution = previous ! right_idx + (if left_ch \<noteq> right_ch then 1 else 0);
          insertion = current ! right_idx + 1;
          deletion = previous ! (right_idx + 1) + 1
      in levenshtein_inner left_ch previous (right_idx + 1) rest
           (current[right_idx + 1 := min (min substitution insertion) deletion]))"

text \<open>The outer loop; the two rows are swapped after each character.\<close>

fun levenshtein_outer :: "nat \<Rightarrow> char list \<Rightarrow> char list \<Rightarrow> nat list \<Rightarrow> nat list \<Rightarrow> nat list" where
  "levenshtein_outer left_idx [] right_chars previous current = previous"
| "levenshtein_outer left_idx (left_ch # rest) right_chars previous current =
     (let current = current[0 := left_idx + 1];
          current = levenshtein_inner left_ch previous 0 right_chars current
      in levenshtein_outer (left_idx + 1) rest right_chars current previous)"

definition levenshtein :: "string \<Rightarrow> string \<Rightarrow> nat" where
  "levenshtein left right =
     (if left = right then 0
      else if left = [] then length right
      else if right = [] then length left
      else levenshtein_outer 0 left right [0..<length right + 1] (replicate (length right + 1) 0)
             ! length right)"

definition starts_with :: "string \<Rightarrow> string \<Rightarrow> bool" where
  "starts_with s p \<longleftrightarrow> take (length p) s = p"

definition rank_candidate :: "string \<Rightarrow> nat \<Rightarrow> string \<times> string \<Rightarrow> ranked_suggestion option" where
  "rank_candidate needle_folded max_distance = (\<lambda>(compare, display).
     let compare_folded = map to_ascii_lowercase compare;
         distance = levenshtein needle_folded compare_folded;
         prefix_match = starts_with compare_folded needle_folded \<or>
           starts_with needle_folded compare_folded
     in if distance \<le> max_distance \<or> prefix_match
        then Some \<lparr>rs_distance = distance, rs_compare = compare, rs_display = display\<rparr>
        else None)"

text \<open>
  \<open>closest_suggestions\<close>: the first filter keeps the first candidate of every display name; the
  set \<open>seen_displays\<close> is only consulted for candidates that pass the other tests.
\<close>

definition closest_suggestions :: "string \<Rightarrow> (string \<times> string) list \<Rightarrow> ranked_suggestion list" where
  "closest_suggestions needle candidates =
     (if needle = [] then []
      else let needle_folded = map to_ascii_lowercase needle;
               max_distance = max_distance_for (str_len needle_folded);
               fresh = retain_first snd {}
                 (filter (\<lambda>(compare, display). compare \<noteq> [] \<and> compare \<noteq> needle \<and> display \<noteq> []) candidates);
               ranked = List.map_filter (rank_candidate needle_folded max_distance) fresh
           in take MAX_SUGGESTIONS
                (sort_key (\<lambda>r. (rs_distance r, rs_compare r, rs_display r)) ranked))"

definition did_you_mean_note_with_display :: "string \<Rightarrow> (string \<times> string) list \<Rightarrow> string option" where
  "did_you_mean_note_with_display needle candidates =
     (case closest_suggestions needle candidates of
        [] \<Rightarrow> None
      | [only] \<Rightarrow> Some (''did you mean `'' @ rs_display only @ ''`?'')
      | suggestions \<Rightarrow> Some (''did you mean one of: '' @
          join '', '' (map (\<lambda>s. ''`'' @ rs_display s @ ''`'') suggestions) @ ''?''))"

definition did_you_mean_note :: "string \<Rightarrow> string list \<Rightarrow> string option" where
  "did_you_mean_note needle candidates =
     did_you_mean_note_with_display needle (map (\<lambda>name. (name, name)) candidates)"

definition available_names_note :: "string \<Rightarrow> string list \<Rightarrow> string option" where
  "available_names_note label candidates =
     (let names = sort (retain_first (\<lambda>name. name) {} (filter (\<lambda>name. name \<noteq> []) candidates)) in
      if names = [] then None
      else let omitted = length names - MAX_SUGGESTIONS;
               parts = map (\<lambda>name. ''`'' @ name @ ''`'') (take MAX_SUGGESTIONS names);
               parts = (if omitted > 0 then parts @ [''and '' @ show_nat omitted @ '' more''] else parts)
           in Some (label @ '': '' @ join '', '' parts))"

section \<open>The edit distance\<close>

text \<open>
  \<open>edits n xs ys\<close>: \<open>ys\<close> is obtained from \<open>xs\<close> by keeping, replacing, inserting and deleting
  characters, where the last three cost one each and add up to \<open>n\<close>.
\<close>

inductive edits :: "nat \<Rightarrow> 'a list \<Rightarrow> 'a list \<Rightarrow> bool" where
  edits_nil: "edits 0 [] []"
| edits_keep: "edits n xs ys \<Longrightarrow> edits n (xs @ [x]) (ys @ [x])"
| edits_replace: "edits n xs ys \<Longrightarrow> edits (Suc n) (xs @ [x]) (ys @ [y])"
| edits_insert: "edits n xs ys \<Longrightarrow> edits (Suc n) xs (ys @ [y])"
| edits_delete: "edits n xs ys \<Longrightarrow> edits (Suc n) (xs @ [x]) ys"

text \<open>The recursive distance of two reversed words.\<close>

fun rdist :: "'a list \<Rightarrow> 'a list \<Rightarrow> nat" where
  "rdist [] ys = length ys"
| "rdist xs [] = length xs"
| "rdist (x # xs) (y # ys) =
     min (min (rdist xs ys + (if x \<noteq> y then 1 else 0)) (rdist (x # xs) ys + 1)) (rdist xs (y # ys) + 1)"

lemma rdist_Nil [simp]: "rdist xs [] = length xs"
  by (cases xs) auto

lemma rdist_same [simp]: "rdist xs xs = 0"
  by (induction xs) auto

lemma rdist_insert: "rdist xs (y # ys) \<le> Suc (rdist xs ys)"
  by (cases xs) auto

lemma rdist_delete: "rdist (x # xs) ys \<le> Suc (rdist xs ys)"
  by (cases ys) auto

lemma rdist_lower: "edits n xs ys \<Longrightarrow> rdist (rev xs) (rev ys) \<le> n"
proof (induction rule: edits.induct)
  case (edits_insert n xs ys y)
  then show ?case using rdist_insert [of "rev xs" y "rev ys"] by simp
next
  case (edits_delete n xs ys x)
  then show ?case using rdist_delete [of x "rev xs" "rev ys"] by simp
qed auto

lemma edits_insert_all: "edits (length ys) [] ys"
  by (induction ys rule: rev_induct) (auto intro: edits.intros)

lemma edits_delete_all: "edits (length xs) xs []"
  by (induction xs rule: rev_induct) (auto intro: edits.intros)

lemma edits_rdist: "edits (rdist xs ys) (rev xs) (rev ys)"
proof (induction xs ys rule: rdist.induct)
  case (3 x xs y ys)
  have 1: "edits (rdist xs ys + (if x \<noteq> y then 1 else 0)) (rev (x # xs)) (rev (y # ys))"
    using 3(1) by (auto intro: edits_keep edits_replace)
  have 2: "edits (rdist (x # xs) ys + 1) (rev (x # xs)) (rev (y # ys))"
    using edits_insert [OF 3(2)] by simp
  have 3: "edits (rdist xs (y # ys) + 1) (rev (x # xs)) (rev (y # ys))"
    using edits_delete [OF 3(3)] by simp
  from 1 2 3 show ?case by (simp add: min_def)
next
  case (1 ys)
  then show ?case using edits_insert_all [of "rev ys"] by simp
next
  case (2 v va)
  then show ?case using edits_delete_all [of "rev (v # va)"] by simp
qed

lemma rdist_least: "rdist (rev xs) (rev ys) = (LEAST n. edits n xs ys)"
  by (rule Least_equality [symmetric]) (use edits_rdist [of "rev xs" "rev ys"] rdist_lower in auto)

text \<open>
  \<open>is_row xs right row\<close>: the row holds the distances of the (reversed) prefix \<open>xs\<close> of the left word to
  all prefixes of the right word.
\<close>

definition is_row :: "char list \<Rightarrow> char list \<Rightarrow> nat list \<Rightarrow> bool" where
  "is_row xs right row \<longleftrightarrow> length row = Suc (length right) \<and>
     (\<forall>j \<le> length right. row ! j = rdist xs (rev (take j right)))"

lemma levenshtein_inner_row:
  assumes "is_row xs right previous" and "right = pre @ rest" and "length current = Suc (length right)"
    and "\<forall>j \<le> length pre. current ! j = rdist (c # xs) (rev (take j right))"
  shows "is_row (c # xs) right (levenshtein_inner c previous (length pre) rest current)"
  using assms(2-)
proof (induction rest arbitrary: pre current)
  case Nil
  then show ?case by (simp add: is_row_def)
next
  case (Cons y rest)
  let ?k = "length pre"
  define v where "v = min (min (previous ! ?k + (if c \<noteq> y then 1 else 0)) (current ! ?k + 1))
    (previous ! (?k + 1) + 1)"
  have k: "?k < length right" using Cons.prems by simp
  have takes: "take ?k right = pre" "take (Suc ?k) right = pre @ [y]" using Cons.prems by simp_all
  have "previous ! ?k = rdist xs (rev pre)" "previous ! (Suc ?k) = rdist xs (y # rev pre)"
    using assms(1) k takes unfolding is_row_def by (metis less_imp_le rev_append Suc_leI
      append_Cons append_Nil rev_singleton_conv rev.simps)+
  moreover have "current ! ?k = rdist (c # xs) (rev pre)" using Cons.prems(3) takes by auto
  ultimately have v: "v = rdist (c # xs) (y # rev pre)" by (simp add: v_def)
  have "\<forall>j \<le> length (pre @ [y]). current[Suc ?k := v] ! j = rdist (c # xs) (rev (take j right))"
  proof (intro allI impI)
    fix j assume j: "j \<le> length (pre @ [y])"
    show "current[Suc ?k := v] ! j = rdist (c # xs) (rev (take j right))"
    proof (cases "j = Suc ?k")
      case True
      with v takes k Cons.prems(2) show ?thesis by simp
    next
      case False
      with j Cons.prems(3) show ?thesis by simp
    qed
  qed
  then have "is_row (c # xs) right
      (levenshtein_inner c previous (length (pre @ [y])) rest (current[Suc ?k := v]))"
    using Cons.prems by (intro Cons.IH) simp_all
  then show ?case by (simp add: v_def Let_def)
qed

lemma levenshtein_outer_row:
  assumes "is_row xs right previous" and "length current = Suc (length right)" and "length xs = i"
  shows "is_row (rev left @ xs) right (levenshtein_outer i left right previous current)"
  using assms
proof (induction left arbitrary: xs i previous current)
  case (Cons c left)
  let ?current = "levenshtein_inner c previous 0 right (current[0 := i + 1])"
  have "is_row (c # xs) right ?current"
    using Cons.prems levenshtein_inner_row [of xs right previous "[]" right "current[0 := i + 1]" c]
    by simp
  then have "is_row (rev left @ c # xs) right (levenshtein_outer (i + 1) left right ?current previous)"
    using Cons.prems by (intro Cons.IH) (simp_all add: is_row_def)
  then show ?case by (simp add: Let_def)
qed simp

lemma levenshtein_rdist: "levenshtein left right = rdist (rev left) (rev right)"
proof -
  have "is_row [] right [0..<length right + 1]"
    by (simp add: is_row_def del: upt_Suc)
  then have "is_row (rev left) right
      (levenshtein_outer 0 left right [0..<length right + 1] (replicate (length right + 1) 0))"
    using levenshtein_outer_row [of "[]" right _ _ 0 left] by simp
  then show ?thesis by (auto simp: levenshtein_def is_row_def)
qed

section \<open>Ranking\<close>

definition suggestion_key :: "ranked_suggestion \<Rightarrow> nat \<times> string \<times> string" where
  "suggestion_key r = (rs_distance r, rs_compare r, rs_display r)"

text \<open>A suggestion is close when the folded names are within the distance bound or prefixes of each other.\<close>

definition close_suggestion :: "string \<Rightarrow> ranked_suggestion \<Rightarrow> bool" where
  "close_suggestion needle r \<longleftrightarrow>
     (let folded = map to_ascii_lowercase needle; compare = map to_ascii_lowercase (rs_compare r) in
      rs_distance r = (LEAST n. edits n folded compare) \<and>
      (rs_distance r \<le> max_distance_for (str_len folded) \<or>
       starts_with compare folded \<or> starts_with folded compare))"

lemma map_filter_keys:
  assumes "\<And>c r. f c = Some r \<Longrightarrow> g r = h c"
  shows "g ` set (List.map_filter f cs) \<subseteq> h ` set cs"
    and "distinct (map h cs) \<Longrightarrow> distinct (map g (List.map_filter f cs))"
proof (induction cs)
  case (Cons c cs)
  {
    case 1
    from Cons.IH(1) show ?case
      using assms [of c] by (auto simp: map_filter_simps split: option.splits)
  next
    case 2
    with Cons.IH show ?case
      using assms [of c] by (auto simp: map_filter_simps split: option.splits)
  }
qed (simp_all add: map_filter_simps)

lemma rank_candidate_display: "rank_candidate f m c = Some r \<Longrightarrow> rs_display r = snd c"
  by (auto simp: rank_candidate_def Let_def split: if_splits prod.splits)

lemma map_filter_display:
  "distinct (map snd cs) \<Longrightarrow> distinct (map rs_display (List.map_filter (rank_candidate f m) cs))"
  by (rule map_filter_keys(2)) (rule rank_candidate_display)

lemma rank_candidate_Some:
  assumes "rank_candidate (map to_ascii_lowercase needle)
      (max_distance_for (str_len (map to_ascii_lowercase needle))) c = Some r"
  shows "c = (rs_compare r, rs_display r)" and "close_suggestion needle r"
  using assms
  by (auto simp: rank_candidate_def close_suggestion_def Let_def levenshtein_rdist rdist_least [symmetric]
      split: if_splits prod.splits)

lemma closest_suggestions_sorted:
  "sorted (map suggestion_key (closest_suggestions needle cands))"
  using sorted_wrt_take [of "(\<le>)"]
  by (auto simp: closest_suggestions_def Let_def suggestion_key_def [abs_def] take_map [symmetric])

lemma closest_suggestions_length: "length (closest_suggestions needle cands) \<le> MAX_SUGGESTIONS"
  by (simp add: closest_suggestions_def Let_def)

lemma closest_suggestions_distinct:
  "distinct (map rs_display (closest_suggestions needle cands))"
proof -
  have "distinct (map rs_display (sort_key k (List.map_filter (rank_candidate f m)
      (retain_first snd {} cs))))" for f m cs and k :: "ranked_suggestion \<Rightarrow> nat \<times> string \<times> string"
    using map_filter_display [OF distinct_retain_first, of f m "{}" cs]
    by (metis distinct_map distinct_sort set_sort)
  then show ?thesis
    by (simp add: closest_suggestions_def Let_def take_map [symmetric] distinct_take)
qed

lemma closest_suggestions_sound:
  assumes "r \<in> set (closest_suggestions needle cands)"
  shows "(rs_compare r, rs_display r) \<in> set cands" and "rs_compare r \<noteq> needle"
    and "close_suggestion needle r"
proof -
  let ?f = "map to_ascii_lowercase needle"
  from assms obtain c where
    c: "c \<in> set (retain_first snd {} (filter (\<lambda>(c, d). c \<noteq> [] \<and> c \<noteq> needle \<and> d \<noteq> []) cands))"
    and r: "rank_candidate ?f (max_distance_for (str_len ?f)) c = Some r"
    by (auto simp: closest_suggestions_def Let_def List.map_filter_def split: if_splits
        dest!: in_set_takeD)
  from c have "c \<in> set cands" "fst c \<noteq> needle"
    using set_retain_first_subset by fastforce+
  with rank_candidate_Some [OF r] show "(rs_compare r, rs_display r) \<in> set cands" "rs_compare r \<noteq> needle"
    "close_suggestion needle r" by auto
qed

section \<open>Properties\<close>

text \<open>
  C24: the two-row computation of \<^const>\<open>levenshtein\<close>, with its early exits, returns the least number of
  insertions, deletions and replacements that turn one word into the other.
\<close>

theorem levenshtein_least_edits: "levenshtein left right = (LEAST n. edits n left right)"
  by (simp add: levenshtein_rdist rdist_least)

text \<open>
  C28: suggestions are at most five, ordered by distance, name and display, with distinct displays,
  and each of them is a candidate other than the misspelt name that is close to it.
\<close>

theorem closest_suggestions_wellformed:
  "length (closest_suggestions needle cands) \<le> MAX_SUGGESTIONS \<and>
   sorted (map suggestion_key (closest_suggestions needle cands)) \<and>
   distinct (map rs_display (closest_suggestions needle cands)) \<and>
   set (closest_suggestions needle cands) \<subseteq>
     {r. (rs_compare r, rs_display r) \<in> set cands \<and> rs_compare r \<noteq> needle \<and> close_suggestion needle r}"
  using closest_suggestions_length closest_suggestions_sorted closest_suggestions_distinct
    closest_suggestions_sound by blast

end
