(* ===== verification/Ciel_Thir.thy ===== *)
theory Ciel_Thir
  imports Ciel_Ast
begin

text \<open>
  The typed intermediate representation (\<open>src/thir/mod.rs\<close>) and its visitor (\<open>src/thir/visit.rs\<close>).
  A \<open>walk_*\<close> function of the source makes a sequence of \<open>visitor.visit_*\<close> calls; here it returns that
  sequence as a list of nodes, so that a visitor that handles a node and then walks it is the single
  traversal \<open>visit\<close>.
\<close>

section \<open>Checked declarations\<close>

record checked_opaque_struct =
  cos_name :: string

record checked_struct =
  cs_name :: string
  cs_is_resource :: bool
  cs_is_unsafe :: bool
  cs_fields :: "(string \<times> ty) list"

record checked_variant =
  cv_name :: string
  cv_payload :: "ty list"

record checked_enum =
  ce_name :: string
  ce_variants :: "checked_variant list"

record checked_interface =
  ci_def_id :: def_id
  ci_name :: string
  ci_is_unsafe :: bool
  ci_generics :: "string list"
  ci_ret :: ty
  ci_params :: "ty list"

record checked_interface_ref =
  cir_def_id :: def_id
  cir_name :: string
  cir_args :: "ty list"

record checked_interface_alias =
  cia_def_id :: def_id
  cia_name :: string
  cia_generics :: "string list"
  cia_positive :: "checked_interface_ref list"
  cia_negative :: "checked_interface_ref list"

record checked_impl =
  cim_interface_def :: def_id
  cim_interface_name :: string
  cim_interface_args :: "ty list"
  cim_receiver_ty :: "ty option"
  cim_function_def :: def_id
  cim_ret :: ty
  cim_params :: "ty list"

record async_frame_local =
  afl_id :: local_id
  afl_ty :: ty
  afl_field :: string
  afl_heap :: bool

record async_defer_arg =
  ada_ty :: ty
  ada_field :: string

record async_facts =
  af_frame_locals :: "async_frame_local list"
  af_live_across_await :: "local_id set"
  af_await_output_tys :: "ty list"
  af_defer_args :: "async_defer_arg list"

section \<open>Patterns, statements and expressions\<close>

datatype tpattern =
    TPat_Wildcard ty
  | TPat_Binding local_id string binding_mutability ty
  | TPat_Variant ty string string nat "tpattern list"

fun tpattern_ty :: "tpattern \<Rightarrow> ty" where
  "tpattern_ty (TPat_Wildcard t) = t"
| "tpattern_ty (TPat_Binding _ _ _ t) = t"
| "tpattern_ty (TPat_Variant t _ _ _ _) = t"

fun collect_bindings ::
    "tpattern \<Rightarrow> (local_id \<times> string \<times> binding_mutability \<times> ty) list \<Rightarrow>
      (local_id \<times> string \<times> binding_mutability \<times> ty) list" where
  "collect_bindings (TPat_Wildcard _) out = out"
| "collect_bindings (TPat_Binding local_id name mutability t) out = out @ [(local_id, name, mutability, t)]"
| "collect_bindings (TPat_Variant _ _ _ _ payload) out = fold collect_bindings payload out"

datatype actor_spawn_mode = Spawn_Cloned | Spawn_State

datatype try_propagation = Prop_Exact | Prop_ErrorBox | Prop_ReportBox

record tclosure_capture =
  tcc_local_id :: local_id
  tcc_name :: string
  tcc_ty :: ty

datatype (plugins only: size) 's tblock_of =
  TBlock (tblock_span: span) (tblock_statements: "'s list")

datatype (plugins only: size) 'e tfor_init_of =
    TFI_VarDecl ty string local_id "'e option"
  | TFI_Assign 'e 'e
  | TFI_Expr 'e

datatype (plugins only: size) 's tcase_of =
  TCase (tcase_variant_name: string) (tcase_variant_index: nat) (tcase_pattern: tpattern)
    (tcase_statements: "'s list")

datatype (plugins only: size) 'e tselect_arm_of =
  TSelectArm (arm_binding_local: local_id) (arm_binding_name: string) (arm_future: 'e)
    (arm_future_output_ty: ty) (arm_body: 'e)

datatype (plugins only: size) ('s, 'e) tclosure_body_of =
    TCB_Expr 'e
  | TCB_Block "'s tblock_of"

datatype (plugins only: size) tstmt = TStmt (tstmt_span: span) (tstmt_kind: tstmt_kind)
and tstmt_kind =
    TSK_Block "tstmt tblock_of"
  | TSK_VarDecl ty string local_id "texpr option"
  | TSK_Assign texpr texpr
  | TSK_If texpr "tstmt tblock_of" "tstmt option"
  | TSK_While texpr "tstmt tblock_of"
  | TSK_For "texpr tfor_init_of option" "texpr option" "texpr tfor_init_of option" "tstmt tblock_of"
  | TSK_Switch texpr string "tstmt tcase_of list" bool "tstmt list" bool
  | TSK_Defer texpr
  | TSK_ResourceCleanup texpr
  | TSK_Return "texpr option"
  | TSK_Break
  | TSK_Continue
  | TSK_Expr texpr
  | TSK_Unsupported
and texpr = TExpr (texpr_span: span) (texpr_ty: ty) (texpr_kind: texpr_kind)
and texpr_kind =
    TEK_Local local_id string
  | TEK_Move texpr
  | TEK_Function def_id string
  | TEK_GenericFunction def_id string "ty list"
  | TEK_Literal literal
  | TEK_StructLiteral string "(string \<times> texpr) list"
  | TEK_EnumLiteral string string nat "texpr list"
  | TEK_ArrayLiteral "texpr list"
  | TEK_ArrayRepeat texpr nat
  | TEK_Closure bool closure_instance_id "(local_id \<times> string \<times> ty) list" "tclosure_capture list"
      "(tstmt, texpr) tclosure_body_of" "async_facts option"
  | TEK_FunctionToClosure texpr
  | TEK_RetainClosure texpr ty
  | TEK_Unary unary_op texpr
  | TEK_Binary binary_op texpr texpr
  | TEK_Cast texpr ty
  | TEK_UnsafeBlock "tstmt list" "texpr option"
  | TEK_Call texpr "texpr list"
  | TEK_ArrayToSlice texpr
  | TEK_SliceToConst texpr
  | TEK_RawSliceFromPtr texpr texpr ty
  | TEK_MakeDynamicInterface texpr ty
  | TEK_ErrorBox texpr ty
  | TEK_ReportBox texpr ty
  | TEK_DynamicInterfaceCall def_id string texpr "texpr list"
  | TEK_RetainedClosureInterfaceCall def_id string "ty list" texpr "texpr list"
  | TEK_CloneMessage texpr ty
  | TEK_Field texpr string
  | TEK_Arrow texpr string
  | TEK_Index texpr texpr
  | TEK_Slice texpr "texpr option" "texpr option"
  | TEK_Try texpr try_propagation
  | TEK_Await texpr
  | TEK_AsyncSelect bool "texpr tselect_arm_of list"
  | TEK_AsyncBlockOn texpr
  | TEK_AsyncSleep texpr ty
  | TEK_AsyncSpawn texpr ty ty
  | TEK_AsyncTaskCancel texpr ty ty
  | TEK_AsyncTaskIsFinished texpr ty ty
  | TEK_MetaAsRefRepr texpr ty
  | TEK_MetaIntoRepr texpr ty
  | TEK_MetaFromRepr texpr ty
  | TEK_MetaSchema ty
  | TEK_ActorSpawn actor_spawn_mode texpr texpr ty ty ty ty
  | TEK_ActorSend texpr texpr ty
  | TEK_ActorStop texpr ty
  | TEK_ActorJoin texpr ty
  | TEK_TypeSize ty
  | TEK_TypeAlign ty
  | TEK_TypeNeedsGcScan ty
  | TEK_TypeId ty

type_synonym tblock = "tstmt tblock_of"
type_synonym tfor_init = "texpr tfor_init_of"
type_synonym tcase = "tstmt tcase_of"
type_synonym tselect_arm = "texpr tselect_arm_of"
type_synonym tclosure_body = "(tstmt, texpr) tclosure_body_of"

definition texpr_is_never :: "texpr \<Rightarrow> bool" where
  "texpr_is_never e = is_never (texpr_ty e)"

record checked_function =
  cf_def_id :: def_id
  cf_name :: string
  cf_is_unsafe :: bool
  cf_is_async :: bool
  cf_async_facts :: "async_facts option"
  cf_abi :: "string option"
  cf_noescape :: bool
  cf_exported :: bool
  cf_ret :: ty
  cf_params :: "(local_id option \<times> string \<times> ty \<times> binding_mutability) list"
  cf_body :: "tblock option"

end
