(* ===== verification/Ciel_Layout.thy ===== *)
theory Ciel_Layout
  imports Ciel_Mangle Ciel_Thir "HOL-Library.AList"
begin

text \<open>
  Layout check of monomorphic aggregates (\<open>src/layout.rs\<close>): the graph of by-value containment
  between struct and enum instances and the depth-first search that reports its cycles. Hash maps
  are association lists with \<open>AList.update\<close>, hash sets are lists with \<open>List.insert\<close>; both are
  only ever read by key, by membership or after sorting.
\<close>

section \<open>Definitions\<close>

record layout_graph =
  lg_edges :: "(string \<times> string list) list"
  lg_display_names :: "(string \<times> string) list"

text \<open>\<open>entry(key).or_insert_with(|| value)\<close>.\<close>

definition entry_or_insert :: "'k \<Rightarrow> 'v \<Rightarrow> ('k \<times> 'v) list \<Rightarrow> ('k \<times> 'v) list" where
  "entry_or_insert k v m = (case map_of m k of None \<Rightarrow> AList.update k v m | Some _ \<Rightarrow> m)"

definition ensure_node :: "string \<Rightarrow> layout_graph \<Rightarrow> layout_graph" where
  "ensure_node name g =
     g\<lparr>lg_edges := entry_or_insert name [] (lg_edges g),
       lg_display_names := entry_or_insert name name (lg_display_names g)\<rparr>"

definition set_display_name :: "string \<Rightarrow> string \<Rightarrow> layout_graph \<Rightarrow> layout_graph" where
  "set_display_name name display g =
     g\<lparr>lg_display_names := AList.update name display (lg_display_names g)\<rparr>"

definition display_name :: "layout_graph \<Rightarrow> string \<Rightarrow> string" where
  "display_name g name = (case map_of (lg_display_names g) name of Some d \<Rightarrow> d | None \<Rightarrow> name)"

text \<open>The diagnostic for one cycle; the cycle ends with the repeated name.\<close>

definition cycle_diagnostic :: "layout_graph \<Rightarrow> string list \<Rightarrow> diagnostic" where
  "cycle_diagnostic g cyc =
     diagnostic_new None (''recursive by-value type is not supported: `'' @ display_name g (last cyc) @
       ''` (layout cycle: '' @ join '' -> '' (map (display_name g) cyc) @ '')'')"

type_synonym search_state = "string list \<times> diagnostic list"

function (sequential) detect_cycle_from ::
  "layout_graph \<Rightarrow> string \<Rightarrow> string list \<Rightarrow> search_state \<Rightarrow> search_state"
  and detect_cycle_edges ::
  "layout_graph \<Rightarrow> string list \<Rightarrow> string list \<Rightarrow> search_state \<Rightarrow> search_state" where
  "detect_cycle_from g name visiting (visited, diagnostics) =
     (if name \<in> set visited then (visited, diagnostics)
      else if name \<in> set visiting
        then (visited, diagnostics @
               [cycle_diagnostic g (dropWhile (\<lambda>entry. entry \<noteq> name) visiting @ [name])])
      else case map_of (lg_edges g) name of
          Some edges \<Rightarrow>
            (case detect_cycle_edges g (sort edges) (visiting @ [name]) (visited, diagnostics) of
               (visited, diagnostics) \<Rightarrow> (List.insert name visited, diagnostics))
        | None \<Rightarrow> (List.insert name visited, diagnostics))"
| "detect_cycle_edges g [] visiting st = st"
| "detect_cycle_edges g (next # rest) visiting st =
     detect_cycle_edges g rest visiting (detect_cycle_from g next visiting st)"
  by pat_completeness auto
termination
proof (relation "measures [
    case_sum (\<lambda>(g, _, visiting, _). card (fst ` set (lg_edges g) - set visiting))
      (\<lambda>(g, _, visiting, _). card (fst ` set (lg_edges g) - set visiting)),
    case_sum (\<lambda>_. 0) (\<lambda>(_, names, _, _). Suc (length names))]", goal_cases)
  case (2 g name visiting visited diagnostics edges)
  then have "name \<in> fst ` set (lg_edges g)" by (force dest: map_of_SomeD)
  with 2 have "fst ` set (lg_edges g) - set (visiting @ [name]) \<subset> fst ` set (lg_edges g) - set visiting"
    by auto
  then have "card (fst ` set (lg_edges g) - set (visiting @ [name])) <
      card (fst ` set (lg_edges g) - set visiting)"
    by (intro psubset_card_mono) auto
  then show ?case by simp
qed auto

declare detect_cycle_from.simps [simp del]

definition detect_cycles :: "layout_graph \<Rightarrow> diagnostic list" where
  "detect_cycles g = snd (detect_cycle_edges g (sort (map fst (lg_edges g))) [] ([], []))"

text \<open>
  \<open>collect_layout_edges_from_ty\<close> threads the graph and the edge set; the list version is the loop
  over the hidden state, the fields or the payload types.
\<close>

fun collect_layout_edges_from_ty ::
  "string set \<Rightarrow> ty \<Rightarrow> layout_graph \<times> string list \<Rightarrow> layout_graph \<times> string list"
  and collect_layout_edges_from_tys ::
  "string set \<Rightarrow> ty list \<Rightarrow> layout_graph \<times> string list \<Rightarrow> layout_graph \<times> string list"
  and collect_layout_edges_from_state ::
  "string set \<Rightarrow> (string \<times> ty) list \<Rightarrow> layout_graph \<times> string list \<Rightarrow> layout_graph \<times> string list"
  where
  "collect_layout_edges_from_ty names (Ty_Named d name args) (g, edges) =
     (let instance_name = aggregate_instance_name name args in
      if instance_name \<in> names
      then (set_display_name instance_name (display_ty (Ty_Named d name args))
              (ensure_node instance_name g), List.insert instance_name edges)
      else (g, edges))"
| "collect_layout_edges_from_ty names (Ty_Array _ elem) st = collect_layout_edges_from_ty names elem st"
| "collect_layout_edges_from_ty names (Ty_OpaqueState base state) st =
     collect_layout_edges_from_state names state (collect_layout_edges_from_ty names base st)"
| "collect_layout_edges_from_ty names _ st = st"
| "collect_layout_edges_from_tys names [] st = st"
| "collect_layout_edges_from_tys names (t # ts) st =
     collect_layout_edges_from_tys names ts (collect_layout_edges_from_ty names t st)"
| "collect_layout_edges_from_state names [] st = st"
| "collect_layout_edges_from_state names ((_, t) # state) st =
     collect_layout_edges_from_state names state (collect_layout_edges_from_ty names t st)"

text \<open>One iteration of the loops over structs and enums: \<open>graph.edges.insert(name, edges)\<close> comes last.\<close>

definition add_aggregate :: "string set \<Rightarrow> string \<Rightarrow> ty list \<Rightarrow> layout_graph \<Rightarrow> layout_graph" where
  "add_aggregate names name parts g =
     (let (g, edges) = collect_layout_edges_from_tys names parts (ensure_node name g, [])
      in g\<lparr>lg_edges := AList.update name edges (lg_edges g)\<rparr>)"

definition build_layout_graph :: "checked_struct list \<Rightarrow> checked_enum list \<Rightarrow> layout_graph" where
  "build_layout_graph structs enums =
     (let names = set (map cs_name structs) \<union> set (map ce_name enums);
          g = \<lparr>lg_edges = [], lg_display_names = []\<rparr>;
          g = foldl (\<lambda>g s. add_aggregate names (cs_name s) (map snd (cs_fields s)) g) g structs
      in foldl (\<lambda>g e. add_aggregate names (ce_name e) (concat (map cv_payload (ce_variants e))) g) g enums)"

definition check_checked_aggregate_layouts ::
  "checked_struct list \<Rightarrow> checked_enum list \<Rightarrow> diagnostic list" where
  "check_checked_aggregate_layouts structs enums = detect_cycles (build_layout_graph structs enums)"

section \<open>The search finds a cycle exactly when there is one\<close>

definition layout_edges :: "layout_graph \<Rightarrow> (string \<times> string) set" where
  "layout_edges g = {(a, b). \<exists>es. map_of (lg_edges g) a = Some es \<and> b \<in> set es}"

text \<open>A set of finished nodes: closed under successors and without nodes on a cycle.\<close>

definition settled :: "layout_graph \<Rightarrow> string set \<Rightarrow> bool" where
  "settled g V \<longleftrightarrow> (\<forall>a \<in> V. layout_edges g `` {a} \<subseteq> V) \<and> (\<forall>a \<in> V. (a, a) \<notin> (layout_edges g)\<^sup>+)"

lemma settled_closed: "settled g V \<Longrightarrow> a \<in> V \<Longrightarrow> (a, b) \<in> (layout_edges g)\<^sup>* \<Longrightarrow> b \<in> V"
  by (erule rtrancl_induct [where P = "\<lambda>b. b \<in> V", rotated]) (auto simp: settled_def)

lemma settled_insert:
  assumes "settled g V" and "layout_edges g `` {a} \<subseteq> V"
  shows "settled g (insert a V)"
proof -
  have "(a, a) \<notin> (layout_edges g)\<^sup>+" if "a \<notin> V"
  proof
    assume "(a, a) \<in> (layout_edges g)\<^sup>+"
    then obtain b where "(a, b) \<in> layout_edges g" "(b, a) \<in> (layout_edges g)\<^sup>*"
      by (meson tranclD)
    with assms settled_closed have "a \<in> V" by blast
    with that show False by simp
  qed
  with assms show ?thesis unfolding settled_def by blast
qed

lemma detect_grows:
  "\<exists>more. snd (detect_cycle_from g name visiting st) = snd st @ more"
  "\<exists>more. snd (detect_cycle_edges g names visiting st) = snd st @ more"
proof (induction g name visiting st and g names visiting st
    rule: detect_cycle_from_detect_cycle_edges.induct)
  case (1 g name visiting visited diagnostics)
  then show ?case by (subst detect_cycle_from.simps) (auto split: option.splits prod.splits)
qed auto

lemma detect_silent_step:
  "detect_cycle_edges g (n # ns) visiting (V, D) = (V', D) \<Longrightarrow>
     \<exists>V1. detect_cycle_from g n visiting (V, D) = (V1, D) \<and>
       detect_cycle_edges g ns visiting (V1, D) = (V', D)"
  using detect_grows(1) [of g n visiting "(V, D)"]
    detect_grows(2) [of g ns visiting "detect_cycle_from g n visiting (V, D)"]
  by (cases "detect_cycle_from g n visiting (V, D)") auto

lemma detect_silent:
  "detect_cycle_from g name visiting st = (V', D) \<Longrightarrow> st = (V, D) \<Longrightarrow> settled g (set V) \<Longrightarrow>
     settled g (set V') \<and> insert name (set V) \<subseteq> set V'"
  "detect_cycle_edges g names visiting st' = (V', D) \<Longrightarrow> st' = (V, D) \<Longrightarrow> settled g (set V) \<Longrightarrow>
     settled g (set V') \<and> set names \<union> set V \<subseteq> set V'"
proof (induction g name visiting st and g names visiting st' arbitrary: V V' and V V'
    rule: detect_cycle_from_detect_cycle_edges.induct)
  case (1 g name visiting visited diagnostics)
  then have st: "visited = V" "diagnostics = D" by auto
  show ?case
  proof (cases "name \<in> set V")
    case True
    with 1(2,4) st show ?thesis by (simp add: detect_cycle_from.simps)
  next
    case False
    then have notin: "name \<notin> set visiting" using 1(2) st by (simp add: detect_cycle_from.simps split: if_splits)
    show ?thesis
    proof (cases "map_of (lg_edges g) name")
      case None
      then have "V' = List.insert name V" using 1(2) False notin st by (simp add: detect_cycle_from.simps)
      moreover have "layout_edges g `` {name} = {}" using None by (auto simp: layout_edges_def)
      ultimately show ?thesis using settled_insert [of g "set V" name] 1(4) by simp
    next
      case (Some es)
      obtain V1 where sub: "detect_cycle_edges g (sort es) (visiting @ [name]) (V, D) = (V1, D)"
        and V': "V' = List.insert name V1"
        using 1(2) False notin Some st by (auto simp: detect_cycle_from.simps split: prod.splits)
      have "settled g (set V1) \<and> set (sort es) \<union> set V \<subseteq> set V1"
        using 1(1) [OF _ _ Some, of V1 V] sub st False notin 1(4) by simp
      moreover have "layout_edges g `` {name} = set es" using Some by (auto simp: layout_edges_def)
      ultimately show ?thesis using V' settled_insert [of g "set V1" name] by auto
    qed
  qed
next
  case (3 g n ns visiting st)
  from detect_silent_step [OF 3(3) [unfolded 3(4)]]
  obtain V1 where V1: "detect_cycle_from g n visiting (V, D) = (V1, D)"
    "detect_cycle_edges g ns visiting (V1, D) = (V', D)" by blast
  have a: "settled g (set V1) \<and> insert n (set V) \<subseteq> set V1" 
    using 3(1) [of V1 V] V1(1) 3(4,5) by simp
  have "settled g (set V') \<and> set ns \<union> set V1 \<subseteq> set V'" 
    using 3(2) [of V' V1] V1 a 3(4) by simp
  with a show ?case by auto
qed auto

lemma settled_acyclic:
  assumes "settled g V" and "fst ` set (lg_edges g) \<subseteq> V"
  shows "acyclic (layout_edges g)"
proof (rule acyclicI, rule allI, rule notI)
  fix x assume x: "(x, x) \<in> (layout_edges g)\<^sup>+"
  then obtain y where "(x, y) \<in> layout_edges g" by (meson tranclD)
  then have "x \<in> fst ` set (lg_edges g)" by (force simp: layout_edges_def dest: map_of_SomeD)
  with assms x show False by (auto simp: settled_def)
qed

text \<open>
  A path of the graph, and a cycle: a path of at least two nodes with equal ends. The search keeps
  the names being visited as a path, so what it reports is a cycle.
\<close>

fun is_path :: "layout_graph \<Rightarrow> string list \<Rightarrow> bool" where
  "is_path g (a # b # rest) \<longleftrightarrow> (a, b) \<in> layout_edges g \<and> is_path g (b # rest)"
| "is_path g _ \<longleftrightarrow> True"

definition is_cycle :: "layout_graph \<Rightarrow> string list \<Rightarrow> bool" where
  "is_cycle g cyc \<longleftrightarrow> is_path g cyc \<and> 2 \<le> length cyc \<and> hd cyc = last cyc"

lemma is_path_snoc:
  "is_path g (p @ [a, b]) \<longleftrightarrow> is_path g (p @ [a]) \<and> (a, b) \<in> layout_edges g"
  by (induction g p rule: is_path.induct) auto

lemma is_path_extend:
  "is_path g p \<Longrightarrow> (p \<noteq> [] \<Longrightarrow> (last p, b) \<in> layout_edges g) \<Longrightarrow> is_path g (p @ [b])"
  by (cases p rule: rev_cases) (auto simp: is_path_snoc)

lemma is_path_drop: "is_path g p \<Longrightarrow> is_path g (dropWhile P p)"
  by (induction p) (auto elim: is_path.elims)

lemma is_path_trancl: "is_path g (a # p) \<Longrightarrow> p \<noteq> [] \<Longrightarrow> (a, last (a # p)) \<in> (layout_edges g)\<^sup>+"
proof (induction p arbitrary: a)
  case (Cons b p)
  then show ?case by (cases p) (auto intro: trancl_into_trancl2)
qed simp

lemma is_cycle_cyclic: "is_cycle g cyc \<Longrightarrow> \<not> acyclic (layout_edges g)"
proof -
  assume c: "is_cycle g cyc"
  then obtain a p where "cyc = a # p" "p \<noteq> []"
    by (cases cyc; cases "tl cyc") (auto simp: is_cycle_def)
  with c is_path_trancl [of g a p] have "(a, a) \<in> (layout_edges g)\<^sup>+" by (auto simp: is_cycle_def)
  then show ?thesis by (auto simp: acyclic_def)
qed

lemma dropWhile_cycle:
  assumes "is_path g (visiting @ [name])" and "name \<in> set visiting"
  shows "is_cycle g (dropWhile (\<lambda>entry. entry \<noteq> name) visiting @ [name])"
proof -
  let ?d = "dropWhile (\<lambda>entry. entry \<noteq> name) visiting"
  have d: "?d \<noteq> []" "hd ?d = name"
    using assms(2) hd_dropWhile [of "\<lambda>entry. entry \<noteq> name" visiting] by (auto simp: dropWhile_eq_Nil_conv)
  have "dropWhile (\<lambda>entry. entry \<noteq> name) (visiting @ [name]) = ?d @ [name]"
    using assms(2) by (auto intro: dropWhile_append1)
  then have "is_path g (?d @ [name])" using is_path_drop [OF assms(1)] by metis
  then show ?thesis using d by (cases ?d) (auto simp: is_cycle_def)
qed

lemma detect_reports_cycles:
  "is_path g (visiting @ [name]) \<Longrightarrow> set (snd (detect_cycle_from g name visiting st)) \<subseteq>
     set (snd st) \<union> cycle_diagnostic g ` Collect (is_cycle g)"
  "\<forall>n \<in> set names. is_path g (visiting @ [n]) \<Longrightarrow>
     set (snd (detect_cycle_edges g names visiting st')) \<subseteq>
     set (snd st') \<union> cycle_diagnostic g ` Collect (is_cycle g)"
proof (induction g name visiting st and g names visiting st'
    rule: detect_cycle_from_detect_cycle_edges.induct)
  case (1 g name visiting visited diagnostics)
  have sub: "set (snd (detect_cycle_edges g (sort es) (visiting @ [name]) (visited, diagnostics))) \<subseteq>
      set diagnostics \<union> cycle_diagnostic g ` Collect (is_cycle g)"
    if "name \<notin> set visited" "name \<notin> set visiting" "map_of (lg_edges g) name = Some es" for es
  proof -
    have "\<forall>n \<in> set (sort es). is_path g ((visiting @ [name]) @ [n])"
      using that(3) 1(2) by (auto simp: is_path_snoc layout_edges_def)
    from 1(1) [OF that this] show ?thesis by simp
  qed
  show ?case
    using dropWhile_cycle [OF 1(2)] sub
    by (subst detect_cycle_from.simps) (auto split: option.splits prod.splits; force)
next
  case (3 g n ns visiting st)
  then show ?case by auto
qed auto

lemma detect_cycles_iff: "detect_cycles g = [] \<longleftrightarrow> acyclic (layout_edges g)"
proof
  assume "detect_cycles g = []"
  then obtain V where "detect_cycle_edges g (sort (map fst (lg_edges g))) [] ([], []) = (V, [])"
    unfolding detect_cycles_def by (metis prod.collapse)
  from detect_silent(2) [OF this refl]
  have "settled g (set V)" "fst ` set (lg_edges g) \<subseteq> set V" by (auto simp: settled_def)
  then show "acyclic (layout_edges g)" by (rule settled_acyclic)
next
  assume "acyclic (layout_edges g)"
  then have "Collect (is_cycle g) = {}" using is_cycle_cyclic by blast
  with detect_reports_cycles(2) [of "sort (map fst (lg_edges g))" g "[]" "([], [])"]
  show "detect_cycles g = []" by (simp add: detect_cycles_def)
qed

section \<open>The graph is by-value containment\<close>

text \<open>The nominal types stored by value inside a type.\<close>

fun by_value_parts :: "ty \<Rightarrow> ty set" where
  "by_value_parts (Ty_Named d name args) = {Ty_Named d name args}"
| "by_value_parts (Ty_Array _ elem) = by_value_parts elem"
| "by_value_parts (Ty_OpaqueState base state) =
     by_value_parts base \<union> (\<Union>entry \<in> set state. by_value_parts (snd entry))"
| "by_value_parts _ = {}"

fun instance_of :: "ty \<Rightarrow> string" where
  "instance_of (Ty_Named _ name args) = aggregate_instance_name name args"
| "instance_of _ = []"

definition by_value_names :: "string set \<Rightarrow> ty \<Rightarrow> string set" where
  "by_value_names names t = names \<inter> instance_of ` by_value_parts t"

definition aggregates :: "checked_struct list \<Rightarrow> checked_enum list \<Rightarrow> (string \<times> ty list) list" where
  "aggregates structs enums =
     map (\<lambda>s. (cs_name s, map snd (cs_fields s))) structs @
     map (\<lambda>e. (ce_name e, concat (map cv_payload (ce_variants e)))) enums"

definition contains_by_value :: "checked_struct list \<Rightarrow> checked_enum list \<Rightarrow> (string \<times> string) set" where
  "contains_by_value structs enums =
     {(a, b). \<exists>parts. (a, parts) \<in> set (aggregates structs enums) \<and>
        (\<exists>t \<in> set parts. b \<in> by_value_names (fst ` set (aggregates structs enums)) t)}"

definition successors :: "layout_graph \<Rightarrow> string \<Rightarrow> string set" where
  "successors g a = (case map_of (lg_edges g) a of Some es \<Rightarrow> set es | None \<Rightarrow> {})"

lemma layout_edges_successors: "layout_edges g = {(a, b). b \<in> successors g a}"
  by (auto simp: layout_edges_def successors_def split: option.splits)

lemma successors_ensure_node [simp]: "successors (ensure_node name g) = successors g"
  by (rule ext) (auto simp: successors_def ensure_node_def entry_or_insert_def update_conv
      split: option.splits)

lemma successors_set_display_name [simp]: "successors (set_display_name name d g) = successors g"
  by (rule ext) (simp add: successors_def set_display_name_def)

lemma by_value_names_simps [simp]:
  "by_value_names names (Ty_Named d name args) = names \<inter> {aggregate_instance_name name args}"
  "by_value_names names (Ty_Array n t) = by_value_names names t"
  "by_value_names names (Ty_OpaqueState b st) =
     by_value_names names b \<union> (\<Union>entry \<in> set st. by_value_names names (snd entry))"
  by (auto simp: by_value_names_def image_Un image_UN)

lemma collect_layout_edges:
  "successors (fst (collect_layout_edges_from_ty names t st)) = successors (fst st) \<and>
     set (snd (collect_layout_edges_from_ty names t st)) = set (snd st) \<union> by_value_names names t"
  "successors (fst (collect_layout_edges_from_tys names ts st')) = successors (fst st') \<and>
     set (snd (collect_layout_edges_from_tys names ts st')) =
       set (snd st') \<union> (\<Union>t \<in> set ts. by_value_names names t)"
  "successors (fst (collect_layout_edges_from_state names state st'')) = successors (fst st'') \<and>
     set (snd (collect_layout_edges_from_state names state st'')) =
       set (snd st'') \<union> (\<Union>e \<in> set state. by_value_names names (snd e))"
  by (induction names t st and names ts st' and names state st''
      rule: collect_layout_edges_from_ty_collect_layout_edges_from_tys_collect_layout_edges_from_state.induct)
     (simp_all add: Let_def by_value_names_def image_Un image_UN Un_assoc Int_Un_distrib
       insert_absorb Int_absorb)

lemma successors_add_aggregate:
  "successors (add_aggregate names name parts g) =
     (successors g)(name := \<Union>t \<in> set parts. by_value_names names t)"
proof -
  let ?r = "collect_layout_edges_from_tys names parts (ensure_node name g, [])"
  have "successors (fst ?r) = successors g"
    and "set (snd ?r) = (\<Union>t \<in> set parts. by_value_names names t)"
    using collect_layout_edges(2) [of names parts "(ensure_node name g, [])"] by simp_all
  then show ?thesis
    by (cases ?r) (auto simp: add_aggregate_def successors_def fun_eq_iff update_conv split: option.splits)
qed

lemma foldl_add_aggregate:
  "distinct (map fst aggs) \<Longrightarrow> a \<in> fst ` set aggs \<Longrightarrow>
     successors (foldl (\<lambda>g (name, parts). add_aggregate names name parts g) g aggs) a =
       {b. \<exists>parts. (a, parts) \<in> set aggs \<and> (\<exists>t \<in> set parts. b \<in> by_value_names names t)}"
  "a \<notin> fst ` set aggs \<Longrightarrow>
     successors (foldl (\<lambda>g (name, parts). add_aggregate names name parts g) g aggs) a = successors g a"
  by (induction aggs rule: rev_induct) (auto simp: successors_add_aggregate split: prod.splits; force)+

lemma build_layout_graph_aggregates:
  "build_layout_graph structs enums =
     foldl (\<lambda>g (name, parts). add_aggregate (fst ` set (aggregates structs enums)) name parts g)
       \<lparr>lg_edges = [], lg_display_names = []\<rparr> (aggregates structs enums)"
  by (simp add: build_layout_graph_def aggregates_def foldl_map image_Un image_image Let_def)

lemma layout_edges_build:
  assumes "distinct (map fst (aggregates structs enums))"
  shows "layout_edges (build_layout_graph structs enums) = contains_by_value structs enums"
proof -
  have "b \<in> successors (build_layout_graph structs enums) a \<longleftrightarrow> (a, b) \<in> contains_by_value structs enums"
    for a b
  proof (cases "a \<in> fst ` set (aggregates structs enums)")
    case True
    then show ?thesis
      using foldl_add_aggregate(1) [OF assms True]
      by (simp add: build_layout_graph_aggregates contains_by_value_def)
  next
    case False
    then have "successors (build_layout_graph structs enums) a = {}"
      using foldl_add_aggregate(2) [OF False]
      by (simp add: build_layout_graph_aggregates successors_def [of "\<lparr>lg_edges = [], lg_display_names = []\<rparr>"])
    moreover have "(a, b) \<notin> contains_by_value structs enums"
      using False by (force simp: contains_by_value_def)
    ultimately show ?thesis by simp
  qed
  then show ?thesis by (auto simp: layout_edges_successors)
qed

section \<open>Properties\<close>

text \<open>
  C23: the layout check accepts a program exactly when no aggregate instance contains itself by value,
  directly or through arrays, hidden state and other aggregates (instance names being distinct).
\<close>

theorem aggregate_layouts_accepted:
  assumes "distinct (map fst (aggregates structs enums))"
  shows "check_checked_aggregate_layouts structs enums = [] \<longleftrightarrow>
    acyclic (contains_by_value structs enums)"
  unfolding check_checked_aggregate_layouts_def detect_cycles_iff layout_edges_build [OF assms] ..

theorem aggregate_layouts_accepted_witness:
  "let s = \<lparr>cs_name = ''Node'', cs_is_resource = False, cs_is_unsafe = False,
       cs_fields = [(''next'', Ty_Pointer True Writable (Ty_Named (Some 1) ''Node'' []))]\<rparr>
   in check_checked_aggregate_layouts [s] [] = [] \<longleftrightarrow> acyclic (contains_by_value [s] [])"
  unfolding Let_def by (rule aggregate_layouts_accepted) (simp add: aggregates_def)

text \<open>
  C26: every diagnostic of the layout check describes a real cycle of the containment graph: a path of
  edges that starts and ends with the reported type.
\<close>

theorem aggregate_layouts_reports_real:
  "set (check_checked_aggregate_layouts structs enums) \<subseteq>
     cycle_diagnostic (build_layout_graph structs enums) `
       Collect (is_cycle (build_layout_graph structs enums))"
  using detect_reports_cycles(2) [of _ "build_layout_graph structs enums" "[]" "([], [])"]
  by (simp add: check_checked_aggregate_layouts_def detect_cycles_def)

end
