(* ===== verification/Ciel_Closure.thy ===== *)
theory Ciel_Closure
  imports Ciel_Assign
begin

text \<open>
  Identities of closure owners (\<open>ClosureOwnerTable\<close> in \<open>src/types.rs\<close>) and the witnesses that a
  retained closure carries for its capabilities (\<open>src/types.rs\<close>, \<open>src/retained.rs\<close>).
\<close>

section \<open>Definitions\<close>

record closure_owner_table =
  generic_instances :: "(def_id \<times> ty list) \<rightharpoonup> nat"
  next_generic_instance :: nat

definition closure_owner_table_default :: closure_owner_table where
  "closure_owner_table_default = \<lparr>generic_instances = Map.empty, next_generic_instance = 0\<rparr>"

definition intern_generic_instance ::
  "closure_owner_table \<Rightarrow> def_id \<Rightarrow> ty list \<Rightarrow> closure_owner_id \<times> closure_owner_table" where
  "intern_generic_instance self template instance_args =
     (let key = (template, instance_args) in
      case generic_instances self key of
        Some cid \<Rightarrow> (Owner_GenericInstance template cid, self)
      | None \<Rightarrow>
          let cid = next_generic_instance self
          in (Owner_GenericInstance template cid,
              self\<lparr>next_generic_instance := next_generic_instance self + 1,
                   generic_instances := (generic_instances self)(key \<mapsto> cid)\<rparr>))"

fun retained_closure_capabilities :: "ty \<Rightarrow> constraint_ref list" where
  "retained_closure_capabilities (Ty_Closure _ _ constraints) = positive constraints"
| "retained_closure_capabilities _ = []"

fun retained_closure_has_capability :: "ty \<Rightarrow> constraint_ref \<Rightarrow> bool" where
  "retained_closure_has_capability (Ty_Closure _ _ constraints) capability =
     list_ex (\<lambda>entry. entry = capability) (positive constraints)"
| "retained_closure_has_capability _ _ = False"

fun retained_closure_proves_capability :: "ty \<Rightarrow> def_id \<Rightarrow> ty list \<Rightarrow> bool" where
  "retained_closure_proves_capability (Ty_Closure _ _ constraints) interface_def args =
     list_ex (\<lambda>entry. cref_def_id entry = interface_def \<and> cref_args entry = args) (positive constraints)"
| "retained_closure_proves_capability _ _ _ = False"

fun is_closure_ty :: "ty \<Rightarrow> bool" where
  "is_closure_ty (Ty_Closure _ _ _) = True"
| "is_closure_ty _ = False"

definition retained_closure_missing_capabilities :: "ty \<Rightarrow> ty \<Rightarrow> constraint_ref list" where
  "retained_closure_missing_capabilities target_ty source_ty =
     filter (\<lambda>capability. \<not> retained_closure_has_capability source_ty capability)
       (retained_closure_capabilities target_ty)"

definition retained_closure_can_forward_source_witness :: "ty \<Rightarrow> constraint_ref \<Rightarrow> bool" where
  "retained_closure_can_forward_source_witness source_ty capability \<longleftrightarrow>
     is_closure_ty source_ty \<and> retained_closure_has_capability source_ty capability"

definition retained_closure_can_reuse_source_witness_field :: "ty \<Rightarrow> ty \<Rightarrow> constraint_ref \<Rightarrow> bool" where
  "retained_closure_can_reuse_source_witness_field target_ty source_ty capability \<longleftrightarrow>
     retained_closure_can_forward_source_witness source_ty capability \<and> source_ty = target_ty"

definition retained_closure_required_witnesses :: "ty \<Rightarrow> ty \<Rightarrow> constraint_ref list" where
  "retained_closure_required_witnesses target_ty source_ty =
     filter (\<lambda>capability.
         \<not> retained_closure_can_reuse_source_witness_field target_ty source_ty capability)
       (retained_closure_capabilities target_ty)"

definition retained_closure_needs_wrapper :: "ty \<Rightarrow> ty \<Rightarrow> bool" where
  "retained_closure_needs_wrapper target_ty source_ty \<longleftrightarrow>
     is_closure_ty source_ty \<and> source_ty \<noteq> target_ty \<and> retained_closure_capabilities target_ty \<noteq> []"

section \<open>Interning\<close>

text \<open>
  The contract of an interner: what it handed out for a key stays, different keys never share an
  identity. \<open>run_intern\<close> is a client that interns a whole list of keys.
\<close>

fun run_intern :: "('s \<Rightarrow> 'k \<Rightarrow> 'i \<times> 's) \<Rightarrow> 's \<Rightarrow> 'k list \<Rightarrow> 'i list \<times> 's" where
  "run_intern step s [] = ([], s)"
| "run_intern step s (k # ks) =
     (let (i, s1) = step s k; (is, s2) = run_intern step s1 ks in (i # is, s2))"

locale interner =
  fixes step :: "'s \<Rightarrow> 'k \<Rightarrow> 'i \<times> 's" and look :: "'s \<Rightarrow> 'k \<Rightarrow> 'i option" and inv :: "'s \<Rightarrow> bool"
  assumes step_inv: "inv s \<Longrightarrow> inv (snd (step s k))"
    and look_new: "inv s \<Longrightarrow> look (snd (step s k)) k = Some (fst (step s k))"
    and look_kept: "inv s \<Longrightarrow> look s k' = Some i \<Longrightarrow> look (snd (step s k)) k' = Some i"
    and look_inj: "inv s \<Longrightarrow> look s k = Some i \<Longrightarrow> look s k' = Some i \<Longrightarrow> k = k'"
begin

lemma run_Cons:
  "fst (run_intern step s (k # ks)) = fst (step s k) # fst (run_intern step (snd (step s k)) ks)"
  "snd (run_intern step s (k # ks)) = snd (run_intern step (snd (step s k)) ks)"
  by (auto split: prod.splits)

lemma run_inv: "inv s \<Longrightarrow> inv (snd (run_intern step s ks))"
proof (induction ks arbitrary: s)
  case (Cons k ks)
  then show ?case using step_inv unfolding run_Cons by blast
qed simp

lemma run_kept: "inv s \<Longrightarrow> look s k' = Some i \<Longrightarrow> look (snd (run_intern step s ks)) k' = Some i"
proof (induction ks arbitrary: s)
  case (Cons k ks)
  then show ?case using step_inv look_kept unfolding run_Cons by blast
qed simp

lemma run_look:
  "inv s \<Longrightarrow> list_all2 (\<lambda>i k. look (snd (run_intern step s ks)) k = Some i) (fst (run_intern step s ks)) ks"
proof (induction ks arbitrary: s)
  case (Cons k ks)
  then show ?case
    unfolding run_Cons using step_inv look_new run_kept by auto
qed simp

lemma run_identifies:
  assumes "inv s" and "a < length ks" and "b < length ks"
  shows "fst (run_intern step s ks) ! a = fst (run_intern step s ks) ! b \<longleftrightarrow> ks ! a = ks ! b"
proof -
  let ?s = "snd (run_intern step s ks)"
  have "look ?s (ks ! a) = Some (fst (run_intern step s ks) ! a)"
    "look ?s (ks ! b) = Some (fst (run_intern step s ks) ! b)"
    using run_look [OF assms(1), of ks] assms(2,3) by (auto simp: list_all2_conv_all_nth)
  with look_inj [OF run_inv [OF assms(1), of ks]] show ?thesis by (metis option.inject)
qed

end

definition intern_key :: "closure_owner_table \<Rightarrow> def_id \<times> ty list \<Rightarrow> closure_owner_id \<times> closure_owner_table"
  where "intern_key s k = intern_generic_instance s (fst k) (snd k)"

definition look_key :: "closure_owner_table \<Rightarrow> def_id \<times> ty list \<Rightarrow> closure_owner_id option" where
  "look_key s k = map_option (Owner_GenericInstance (fst k)) (generic_instances s k)"

text \<open>Identities are below the counter and no two keys share one.\<close>

definition owner_table_ok :: "closure_owner_table \<Rightarrow> bool" where
  "owner_table_ok s \<longleftrightarrow> (\<forall>k i. generic_instances s k = Some i \<longrightarrow> i < next_generic_instance s) \<and>
     inj_on (generic_instances s) (dom (generic_instances s))"

lemma owner_table_ok_default: "owner_table_ok closure_owner_table_default"
  by (simp add: owner_table_ok_def closure_owner_table_default_def)

lemma owner_table_ok_step: "owner_table_ok s \<Longrightarrow> owner_table_ok (snd (intern_key s k))"
  by (auto simp: owner_table_ok_def intern_key_def intern_generic_instance_def Let_def inj_on_def dom_def
      less_Suc_eq split: option.splits; force)

lemmas intern_simps = look_key_def intern_key_def intern_generic_instance_def Let_def

interpretation owners: interner intern_key look_key owner_table_ok
proof unfold_locales
  fix s k k' i
  show "owner_table_ok s \<Longrightarrow> owner_table_ok (snd (intern_key s k))" by (rule owner_table_ok_step)
  show "look_key (snd (intern_key s k)) k = Some (fst (intern_key s k))"
    by (simp add: intern_simps split: option.splits)
  show "look_key s k' = Some i \<Longrightarrow> look_key (snd (intern_key s k)) k' = Some i"
    by (auto simp: intern_simps split: option.splits)
  show "k = k'" if "owner_table_ok s" "look_key s k = Some i" "look_key s k' = Some i"
  proof -
    from that(2,3) have "generic_instances s k = generic_instances s k'" "k \<in> dom (generic_instances s)"
      "k' \<in> dom (generic_instances s)" by (auto simp: look_key_def)
    with that(1) show ?thesis by (auto simp: owner_table_ok_def dest: inj_onD)
  qed
qed

section \<open>Witnesses\<close>

lemma has_capability_iff:
  "retained_closure_has_capability t c \<longleftrightarrow> c \<in> set (retained_closure_capabilities t)"
  by (cases t) (auto simp: list_ex_iff)

lemma required_witnesses_eq:
  "retained_closure_required_witnesses t s = (if s = t then [] else retained_closure_capabilities t)"
  by (cases t) (auto simp: retained_closure_required_witnesses_def list_ex_iff filter_empty_conv
      retained_closure_can_reuse_source_witness_field_def retained_closure_can_forward_source_witness_def)

section \<open>Properties\<close>

text \<open>
  C25: over any sequence of requests, two generic instances receive the same closure owner exactly when
  template and arguments are equal.
\<close>

theorem intern_generic_instance_identifies:
  assumes "a < length ks" and "b < length ks"
  shows "fst (run_intern intern_key closure_owner_table_default ks) ! a =
    fst (run_intern intern_key closure_owner_table_default ks) ! b \<longleftrightarrow> ks ! a = ks ! b"
  using owners.run_identifies [OF owner_table_ok_default assms] .

theorem intern_generic_instance_identifies_witness:
  "let ks = [(3, [Ty_I32]), (3, [Ty_Bool]), (3, [Ty_I32])] in
   fst (run_intern intern_key closure_owner_table_default ks) ! 0 =
     fst (run_intern intern_key closure_owner_table_default ks) ! 2 \<and>
   fst (run_intern intern_key closure_owner_table_default ks) ! 0 \<noteq>
     fst (run_intern intern_key closure_owner_table_default ks) ! 1"
  unfolding Let_def
  using intern_generic_instance_identifies [of 0 "[(3, [Ty_I32]), (3, [Ty_Bool]), (3, [Ty_I32])]" 2]
    intern_generic_instance_identifies [of 0 "[(3, [Ty_I32]), (3, [Ty_Bool]), (3, [Ty_I32])]" 1]
  by simp

text \<open>
  C27: when one closure type may be assigned to another, no capability of the target is missing from the
  source, and the witnesses to be supplied anew are none for equal types and all capabilities of the
  target otherwise.
\<close>

theorem retained_closure_assignable:
  assumes "can_assign_from (Ty_Closure ret params cs) (Ty_Closure ret' params' cs')"
  shows "retained_closure_missing_capabilities (Ty_Closure ret params cs) (Ty_Closure ret' params' cs') = []
    \<and> retained_closure_required_witnesses (Ty_Closure ret params cs) (Ty_Closure ret' params' cs') =
      (if Ty_Closure ret' params' cs' = Ty_Closure ret params cs then [] else positive cs)"
proof -
  have "assignable (erase_state (Ty_Closure ret params cs)) (erase_state (Ty_Closure ret' params' cs'))"
    using assms by (simp only: can_assign_from_assignable)
  then have "cs = cs' \<or> proves_all cs' cs" by (auto elim!: assignable_closureE)
  then have "set (positive cs) \<subseteq> set (positive cs')" by (auto simp: proves_all_def list_all_iff)
  then show ?thesis
    by (auto simp: retained_closure_missing_capabilities_def filter_empty_conv list_ex_iff
        required_witnesses_eq)
qed

theorem retained_closure_assignable_witness:
  "let c = ConstraintRef 4 ''clone_message'' []; t = Ty_Closure Ty_I32 [] (ConstraintBounds [c] []) in
   retained_closure_missing_capabilities t t = [] \<and>
   retained_closure_required_witnesses t t = (if t = t then [] else [c])"
  unfolding Let_def
  using retained_closure_assignable [of Ty_I32 "[]" "ConstraintBounds [ConstraintRef 4 ''clone_message'' []] []"
      Ty_I32 "[]" "ConstraintBounds [ConstraintRef 4 ''clone_message'' []] []"]
  by (simp add: can_assign_from.simps same_ignoring_opaque_state.simps)

end
