(* ===== verification/Ciel_Search.thy ===== *)
theory Ciel_Search
  imports Ciel_Prelude
begin

text \<open>
  The search shared by several analyses of the compiler: walk the components of a type, cut a branch
  when a tracked node is met that is already on the current path, and stop at the first hit. The
  code removes a node from its \<open>visiting\<close> set when it leaves it, so the set is the path. Recursion is
  bounded by fuel; \<^const>\<open>None\<close> is running out of it. The laws say that the answer is reachability of a
  hit whatever the cuts, and that enough fuel exists when finitely many nodes can be reached.
\<close>

section \<open>Definitions\<close>

text \<open>\<open>iter().any(f)\<close> for a callback that may not return.\<close>

fun any_opt :: "('a \<Rightarrow> bool option) \<Rightarrow> 'a list \<Rightarrow> bool option" where
  "any_opt f [] = Some False"
| "any_opt f (x # xs) =
     (case f x of None \<Rightarrow> None | Some True \<Rightarrow> Some True | Some False \<Rightarrow> any_opt f xs)"

lemma any_opt_cong [fundef_cong]:
  "xs = ys \<Longrightarrow> (\<And>x. x \<in> set ys \<Longrightarrow> f x = g x) \<Longrightarrow> any_opt f xs = any_opt g ys"
  by (induction xs arbitrary: ys) (auto split: option.splits bool.splits)

fun path_search :: "('n \<Rightarrow> bool) \<Rightarrow> ('n \<Rightarrow> bool) \<Rightarrow> ('n \<Rightarrow> bool) \<Rightarrow> ('n \<Rightarrow> 'n list) \<Rightarrow>
    nat \<Rightarrow> 'n set \<Rightarrow> 'n \<Rightarrow> bool option" where
  "path_search pre tracked post succ 0 V t = None"
| "path_search pre tracked post succ (Suc n) V t =
     (if pre t then Some True
      else if tracked t then
        (if t \<in> V then Some False
         else if post t then Some True
         else any_opt (path_search pre tracked post succ n (insert t V)) (succ t))
      else any_opt (path_search pre tracked post succ n V) (succ t))"

section \<open>The answer is reachability\<close>

lemma any_opt_Some:
  "any_opt f xs = Some b \<Longrightarrow> b \<longleftrightarrow> (\<exists>x \<in> set xs. f x = Some True)"
  "any_opt f xs = Some False \<Longrightarrow> x \<in> set xs \<Longrightarrow> f x = Some False"
  by (induction xs) (auto split: option.splits bool.splits)

lemma any_opt_total: "(\<And>x. x \<in> set xs \<Longrightarrow> f x \<noteq> None) \<Longrightarrow> any_opt f xs \<noteq> None"
  by (induction xs) (auto split: option.splits bool.splits)

lemma any_opt_mono:
  "any_opt f xs = Some b \<Longrightarrow> (\<And>x c. x \<in> set xs \<Longrightarrow> f x = Some c \<Longrightarrow> g x = Some c) \<Longrightarrow> any_opt g xs = Some b"
  by (induction xs) (auto split: option.splits bool.splits)

text \<open>What the search can find from a node with the path \<open>V\<close>.\<close>

inductive finds :: "('n \<Rightarrow> bool) \<Rightarrow> ('n \<Rightarrow> bool) \<Rightarrow> ('n \<Rightarrow> bool) \<Rightarrow> ('n \<Rightarrow> 'n list) \<Rightarrow> 'n set \<Rightarrow> 'n \<Rightarrow> bool"
  for pre tracked post succ where
  finds_pre: "pre t \<Longrightarrow> finds pre tracked post succ V t"
| finds_post: "tracked t \<Longrightarrow> t \<notin> V \<Longrightarrow> post t \<Longrightarrow> finds pre tracked post succ V t"
| finds_tracked: "tracked t \<Longrightarrow> t \<notin> V \<Longrightarrow> v \<in> set (succ t) \<Longrightarrow>
    finds pre tracked post succ (insert t V) v \<Longrightarrow> finds pre tracked post succ V t"
| finds_untracked: "\<not> tracked t \<Longrightarrow> v \<in> set (succ t) \<Longrightarrow>
    finds pre tracked post succ V v \<Longrightarrow> finds pre tracked post succ V t"

inductive_simps finds_unfold: "finds pre tracked post succ V t"

lemma path_search_finds:
  "path_search pre tracked post succ n V t = Some b \<Longrightarrow> b \<longleftrightarrow> finds pre tracked post succ V t"
proof (induction n arbitrary: V t b)
  case (Suc n)
  have branch: "b \<longleftrightarrow> (\<exists>v \<in> set (succ t). finds pre tracked post succ W v)"
    if any: "any_opt (path_search pre tracked post succ n W) (succ t) = Some b" for W
  proof (cases b)
    case True
    then have "\<exists>v \<in> set (succ t). path_search pre tracked post succ n W v = Some True"
      using any_opt_Some(1) [OF any] by simp
    with True Suc.IH [of W _ True] show ?thesis by auto
  next
    case False
    then have "path_search pre tracked post succ n W v = Some False" if "v \<in> set (succ t)" for v
      using any_opt_Some(2) [of _ _ v] any that by simp
    with False Suc.IH [of W _ False] show ?thesis by auto
  qed
  show ?case
  proof (cases "pre t \<or> tracked t \<and> (t \<in> V \<or> post t)")
    case True
    with Suc.prems show ?thesis by (subst finds_unfold) (auto split: if_splits)
  next
    case False
    show ?thesis
    proof (cases "tracked t")
      case True
      with False Suc.prems
      have "any_opt (path_search pre tracked post succ n (insert t V)) (succ t) = Some b" by simp
      from branch [OF this] False True show ?thesis by (subst finds_unfold) blast
    next
      case untracked: False
      with False Suc.prems have "any_opt (path_search pre tracked post succ n V) (succ t) = Some b" by simp
      from branch [OF this] False untracked show ?thesis by (subst finds_unfold) blast
    qed
  qed
qed simp

text \<open>
  A hit is a node where the search stops with success; \<open>hit_path V n t\<close> is a path of length \<open>n\<close> to
  one that meets no tracked node of \<open>V\<close>.
\<close>

inductive hit_path :: "('n \<Rightarrow> bool) \<Rightarrow> ('n \<Rightarrow> bool) \<Rightarrow> ('n \<Rightarrow> bool) \<Rightarrow> ('n \<Rightarrow> 'n list) \<Rightarrow>
    'n set \<Rightarrow> nat \<Rightarrow> 'n \<Rightarrow> bool"
  for pre tracked post succ V where
  hit_pre: "pre t \<Longrightarrow> hit_path pre tracked post succ V 0 t"
| hit_post: "tracked t \<Longrightarrow> post t \<Longrightarrow> t \<notin> V \<Longrightarrow> hit_path pre tracked post succ V 0 t"
| hit_step: "(tracked t \<Longrightarrow> t \<notin> V) \<Longrightarrow> v \<in> set (succ t) \<Longrightarrow> hit_path pre tracked post succ V n v \<Longrightarrow>
    hit_path pre tracked post succ V (Suc n) t"

lemma hit_path_avoid:
  "hit_path pre tracked post succ V n v \<Longrightarrow>
     hit_path pre tracked post succ (insert t V) n v \<or>
     (\<exists>m \<le> n. hit_path pre tracked post succ V m t)"
proof (induction rule: hit_path.induct)
  case (hit_step u w n)
  show ?case
  proof (cases "u = t")
    case True
    with hit_step show ?thesis by (metis hit_path.hit_step order_refl)
  next
    case False
    with hit_step show ?thesis by (metis hit_path.hit_step insertE le_SucI)
  qed
next
  case (hit_post u)
  then show ?case by (metis hit_path.hit_post insertE le0)
qed (auto intro: hit_path.intros)

lemma hit_path_finds: "hit_path pre tracked post succ V n t \<Longrightarrow> finds pre tracked post succ V t"
proof (induction n arbitrary: V t rule: less_induct)
  case (less n)
  from less.prems show ?case
  proof (cases rule: hit_path.cases)
    case (hit_step v m)
    show ?thesis
    proof (cases "tracked t")
      case True
      from hit_path_avoid [OF hit_step(4), of t] show ?thesis
      proof
        assume "hit_path pre tracked post succ (insert t V) m v"
        then have "finds pre tracked post succ (insert t V) v" using less.IH hit_step(1) by blast
        with True hit_step show ?thesis by (blast intro: finds_tracked)
      next
        assume "\<exists>k \<le> m. hit_path pre tracked post succ V k t"
        then show ?thesis using less.IH hit_step(1) by (meson le_imp_less_Suc)
      qed
    next
      case False
      then show ?thesis using hit_step less.IH by (blast intro: finds_untracked)
    qed
  qed (auto intro: finds.intros)
qed

definition search_edges :: "('n \<Rightarrow> 'n list) \<Rightarrow> ('n \<times> 'n) set" where
  "search_edges succ = {(u, v). v \<in> set (succ u)}"

definition search_hit :: "('n \<Rightarrow> bool) \<Rightarrow> ('n \<Rightarrow> bool) \<Rightarrow> ('n \<Rightarrow> bool) \<Rightarrow> 'n \<Rightarrow> bool" where
  "search_hit pre tracked post t \<longleftrightarrow> pre t \<or> (tracked t \<and> post t)"

lemma finds_reachable:
  "finds pre tracked post succ V t \<Longrightarrow>
     \<exists>h. (t, h) \<in> (search_edges succ)\<^sup>* \<and> search_hit pre tracked post h"
proof (induction rule: finds.induct)
  case (finds_tracked t V v)
  then have "(t, v) \<in> search_edges succ" by (simp add: search_edges_def)
  with finds_tracked.IH show ?case by (meson converse_rtrancl_into_rtrancl)
next
  case (finds_untracked t v V)
  then have "(t, v) \<in> search_edges succ" by (simp add: search_edges_def)
  with finds_untracked.IH show ?case by (meson converse_rtrancl_into_rtrancl)
qed (auto simp: search_hit_def)

lemma reachable_finds:
  assumes "(t, h) \<in> (search_edges succ)\<^sup>*" and "search_hit pre tracked post h"
  shows "finds pre tracked post succ {} t"
proof -
  from assms have "\<exists>n. hit_path pre tracked post succ {} n t"
    by (induction rule: converse_rtrancl_induct)
       (auto simp: search_edges_def search_hit_def intro: hit_path.intros)
  then show ?thesis by (auto dest: hit_path_finds)
qed

lemma path_search_reachable:
  assumes "path_search pre tracked post succ n {} t = Some b"
  shows "b \<longleftrightarrow> (\<exists>h. (t, h) \<in> (search_edges succ)\<^sup>* \<and> search_hit pre tracked post h)"
  using path_search_finds [OF assms] finds_reachable [of pre tracked post succ "{}" t] reachable_finds
  by metis

section \<open>Enough fuel\<close>

lemma path_search_mono:
  "path_search pre tracked post succ n V t = Some b \<Longrightarrow> n \<le> m \<Longrightarrow>
     path_search pre tracked post succ m V t = Some b"
proof (induction n arbitrary: m V t b)
  case (Suc n)
  then obtain k where k: "m = Suc k" "n \<le> k" by (cases m) auto
  have "any_opt (path_search pre tracked post succ k W) (succ t) = Some b"
    if "any_opt (path_search pre tracked post succ n W) (succ t) = Some b" for W
    using that by (rule any_opt_mono) (use Suc.IH k in blast)
  with Suc.prems k show ?case by (auto split: if_splits)
qed simp

text \<open>
  Finitely many nodes, closed under successors, and no infinite descent through untracked nodes:
  then the search returns.
\<close>

lemma path_search_returns:
  assumes fin: "finite F" and closed: "\<And>u. u \<in> F \<Longrightarrow> set (succ u) \<subseteq> F"
    and desc: "acyclic {(u, v). u \<in> F \<and> \<not> tracked u \<and> v \<in> set (succ u)}"
    and t: "t \<in> F"
  shows "\<exists>n. path_search pre tracked post succ n V t \<noteq> None"
proof -
  define D where "D = {(v, u). u \<in> F \<and> \<not> tracked u \<and> v \<in> set (succ u)}"
  have D: "D = {(u, v). u \<in> F \<and> \<not> tracked u \<and> v \<in> set (succ u)}\<inverse>" by (auto simp: D_def)
  have "D \<subseteq> F \<times> F" using closed by (auto simp: D_def)
  then have "finite D" using fin by (meson finite_SigmaI finite_subset)
  then have wf: "wf D" using desc unfolding D by (simp add: finite_acyclic_wf_converse)
  have lists: "\<exists>n. any_opt (path_search pre tracked post succ n W) xs \<noteq> None"
    if "\<And>x. x \<in> set xs \<Longrightarrow> \<exists>n. path_search pre tracked post succ n W x \<noteq> None" for W xs
  proof -
    from that have "\<forall>x \<in> set xs. \<exists>n. path_search pre tracked post succ n W x \<noteq> None" by blast
    then obtain f where f: "\<forall>x \<in> set xs. path_search pre tracked post succ (f x) W x \<noteq> None"
      by (rule bchoice [THEN exE])
    define N where "N = Max (insert 0 (f ` set xs))"
    have "path_search pre tracked post succ N W x \<noteq> None" if "x \<in> set xs" for x
    proof -
      have "f x \<le> N" using that by (simp add: N_def)
      with f that path_search_mono [of pre tracked post succ "f x" W x] show ?thesis by fastforce
    qed
    then show ?thesis using any_opt_total by blast
  qed
  have "wf (inv_image (less_than <*lex*> D) (\<lambda>(V, t). (card (F - V), t)))"
    using wf by (intro wf_inv_image wf_lex_prod) auto
  then have "t \<in> F \<longrightarrow> (\<exists>n. path_search pre tracked post succ n V t \<noteq> None)" for V t
  proof (induction "(V, t)" arbitrary: V t rule: wf_induct_rule)
    case less
    show ?case
    proof
      assume tF: "t \<in> F"
      consider "pre t" | "\<not> pre t" "tracked t" "t \<in> V" | "\<not> pre t" "tracked t" "t \<notin> V"
        | "\<not> pre t" "\<not> tracked t" by blast
      then show "\<exists>n. path_search pre tracked post succ n V t \<noteq> None"
      proof cases
        case 1
        then show ?thesis by (intro exI [of _ 1]) simp
      next
        case 2
        then show ?thesis by (intro exI [of _ 1]) simp
      next
        case 3
        then have "F - insert t V \<subset> F - V" using tF by blast
        then have "card (F - insert t V) < card (F - V)" using fin by (intro psubset_card_mono) auto
        then have "\<exists>n. path_search pre tracked post succ n (insert t V) x \<noteq> None"
          if "x \<in> set (succ t)" for x
          using less [of "insert t V" x] that closed [OF tF] by auto
        from lists [OF this] obtain n
          where "any_opt (path_search pre tracked post succ n (insert t V)) (succ t) \<noteq> None" by blast
        with 3 show ?thesis by (intro exI [of _ "Suc n"]) auto
      next
        case 4
        then have "\<exists>n. path_search pre tracked post succ n V x \<noteq> None" if "x \<in> set (succ t)" for x
          using less [of V x] that closed [OF tF] tF by (auto simp: D_def)
        from lists [OF this] obtain n
          where "any_opt (path_search pre tracked post succ n V) (succ t) \<noteq> None" by blast
        with 4 show ?thesis by (intro exI [of _ "Suc n"]) simp
      qed
    qed
  qed
  with t show ?thesis by blast
qed

end
