(* ===== verification/Ciel_Affine.thy ===== *)
theory Ciel_Affine
  imports Ciel_Ty Ciel_Search
begin

text \<open>
  Affine types (\<open>src/affine.rs\<close>): a type is affine when a resource handle, a future or a resource
  struct can be reached by value. The trait \<open>AffineTypeEnv\<close>, implemented by the type checker and by
  the monomorphiser, is a record of functions; its \<open>&mut self\<close> methods only fill caches and are
  functions of the type here. The recursion through field types is not structural, so the model
  has fuel.
\<close>

section \<open>Definitions\<close>

record affine_struct_info =
  asi_is_resource :: bool
  asi_fields :: "ty list"

record affine_env =
  is_resource_handle_leaf :: "ty \<Rightarrow> bool"
  named_type_is_async_future :: "ty \<Rightarrow> bool"
  opaque_return_concrete :: "ty \<Rightarrow> ty option"
  generic_is_resource_only :: "string \<Rightarrow> bool"
  named_struct_info :: "ty \<Rightarrow> affine_struct_info option"
  named_enum_payloads :: "ty \<Rightarrow> ty list option"

text \<open>
  The set \<open>visiting\<close> is passed down: the source inserts a nominal type before it looks at the
  components and removes it on every way out.
\<close>

fun type_is_affine_inner :: "nat \<Rightarrow> affine_env \<Rightarrow> ty \<Rightarrow> ty set \<Rightarrow> bool option" where
  "type_is_affine_inner 0 env t visiting = None"
| "type_is_affine_inner (Suc n) env t visiting =
     (if is_resource_handle_leaf env t then Some True
      else case t of
        Ty_OpaqueReturn _ _ \<Rightarrow>
          (case opaque_return_concrete env t of
             Some concrete \<Rightarrow>
               if concrete \<noteq> t then type_is_affine_inner n env concrete visiting else Some False
           | None \<Rightarrow> Some False)
      | Ty_Generic name \<Rightarrow> Some (generic_is_resource_only env name)
      | Ty_Array _ elem \<Rightarrow> type_is_affine_inner n env elem visiting
      | Ty_GeneratedFuture _ _ _ _ _ _ \<Rightarrow> Some True
      | Ty_OpaqueState base state \<Rightarrow>
          (case type_is_affine_inner n env base visiting of
             None \<Rightarrow> None
           | Some True \<Rightarrow> Some True
           | Some False \<Rightarrow>
               any_opt (\<lambda>(_, t). type_is_affine_inner n env t visiting) state)
      | Ty_ClosureInstance _ _ _ captures \<Rightarrow>
          any_opt (\<lambda>capture. type_is_affine_inner n env capture visiting) captures
      | Ty_Named _ _ _ \<Rightarrow>
          (if named_type_is_async_future env t then Some True
           else if t \<in> visiting then Some False
           else (case named_struct_info env t of
               Some info \<Rightarrow>
                 if asi_is_resource info then Some True
                 else any_opt (\<lambda>field_ty. type_is_affine_inner n env field_ty (insert t visiting))
                        (asi_fields info)
             | None \<Rightarrow>
                 (case named_enum_payloads env t of
                    Some payloads \<Rightarrow>
                      any_opt (\<lambda>payload_ty. type_is_affine_inner n env payload_ty (insert t visiting))
                        payloads
                  | None \<Rightarrow> Some False)))
      | _ \<Rightarrow> Some False)"

definition type_is_affine :: "nat \<Rightarrow> affine_env \<Rightarrow> ty \<Rightarrow> bool option" where
  "type_is_affine fuel env t = type_is_affine_inner fuel env t {}"

section \<open>Affinity is reachability by value\<close>

fun is_named :: "ty \<Rightarrow> bool" where
  "is_named (Ty_Named _ _ _) = True"
| "is_named _ = False"

text \<open>The components of a type that are part of its value.\<close>

definition affine_parts :: "affine_env \<Rightarrow> ty \<Rightarrow> ty list" where
  "affine_parts env t = (case t of
       Ty_OpaqueReturn _ _ \<Rightarrow>
         (case opaque_return_concrete env t of Some c \<Rightarrow> if c \<noteq> t then [c] else [] | None \<Rightarrow> [])
     | Ty_Array _ elem \<Rightarrow> [elem]
     | Ty_OpaqueState base state \<Rightarrow> base # map snd state
     | Ty_ClosureInstance _ _ _ captures \<Rightarrow> captures
     | Ty_Named _ _ _ \<Rightarrow>
         (case named_struct_info env t of
            Some info \<Rightarrow> asi_fields info
          | None \<Rightarrow> (case named_enum_payloads env t of Some ps \<Rightarrow> ps | None \<Rightarrow> []))
     | _ \<Rightarrow> [])"

definition affine_pre :: "affine_env \<Rightarrow> ty \<Rightarrow> bool" where
  "affine_pre env t \<longleftrightarrow> is_resource_handle_leaf env t \<or> (case t of
       Ty_Generic name \<Rightarrow> generic_is_resource_only env name
     | Ty_GeneratedFuture _ _ _ _ _ _ \<Rightarrow> True
     | Ty_Named _ _ _ \<Rightarrow> named_type_is_async_future env t
     | _ \<Rightarrow> False)"

definition affine_resource :: "affine_env \<Rightarrow> ty \<Rightarrow> bool" where
  "affine_resource env t \<longleftrightarrow>
     (case named_struct_info env t of Some info \<Rightarrow> asi_is_resource info | None \<Rightarrow> False)"

text \<open>A type that is affine by itself.\<close>

definition affine_leaf :: "affine_env \<Rightarrow> ty \<Rightarrow> bool" where
  "affine_leaf env t \<longleftrightarrow> affine_pre env t \<or> (is_named t \<and> affine_resource env t)"

lemma any_opt_map: "any_opt f (map g xs) = any_opt (\<lambda>x. f (g x)) xs"
  by (induction xs) (auto split: option.splits bool.splits)

lemma any_opt_single [simp]: "any_opt f [x] = f x"
  by (auto split: option.splits bool.splits)

lemma type_is_affine_search:
  "type_is_affine_inner n env t V =
     path_search (affine_pre env) is_named (affine_resource env) (affine_parts env) n V t"
proof (induction n arbitrary: t V)
  case (Suc n)
  show ?case
    by (cases t) (auto simp: Suc affine_pre_def affine_parts_def affine_resource_def any_opt_map
        case_prod_unfold split: option.splits bool.splits)
qed simp

section \<open>Properties\<close>

text \<open>
  C22: when finitely many types can be reached by value and there is no cycle through anonymous types
  alone, \<^const>\<open>type_is_affine\<close> returns with enough fuel, and it answers whether some type that is affine by
  itself is reachable; the cut at types already being visited never changes the answer.
\<close>

theorem type_is_affine_reachable:
  assumes "finite F" and "t \<in> F" and "\<forall>u \<in> F. set (affine_parts env u) \<subseteq> F"
    and "acyclic {(u, v). u \<in> F \<and> \<not> is_named u \<and> v \<in> set (affine_parts env u)}"
  shows "\<exists>fuel. type_is_affine fuel env t =
    Some (\<exists>h. (t, h) \<in> {(u, v). v \<in> set (affine_parts env u)}\<^sup>* \<and> affine_leaf env h)"
proof -
  obtain fuel b where b: "type_is_affine fuel env t = Some b"
    using path_search_returns [of F "affine_parts env" is_named t "affine_pre env" "affine_resource env" "{}"]
      assms by (auto simp: type_is_affine_def type_is_affine_search)
  then have "b \<longleftrightarrow> (\<exists>h. (t, h) \<in> (search_edges (affine_parts env))\<^sup>* \<and>
      search_hit (affine_pre env) is_named (affine_resource env) h)"
    by (intro path_search_reachable) (simp add: type_is_affine_def type_is_affine_search)
  with b show ?thesis by (auto simp: search_edges_def search_hit_def affine_leaf_def)
qed

text \<open>An environment with a recursive list type of file handles, for the witness.\<close>

definition example_env :: affine_env where
  "example_env = \<lparr>is_resource_handle_leaf = (\<lambda>t. t = Ty_Named (Some 9) ''File'' []),
     named_type_is_async_future = (\<lambda>_. False), opaque_return_concrete = (\<lambda>_. None),
     generic_is_resource_only = (\<lambda>_. False),
     named_struct_info = (\<lambda>t. if t = Ty_Named (Some 1) ''Node'' []
       then Some \<lparr>asi_is_resource = False,
              asi_fields = [Ty_Named (Some 1) ''Node'' [], Ty_Named (Some 9) ''File'' []]\<rparr>
       else None),
     named_enum_payloads = (\<lambda>_. None)\<rparr>"

theorem type_is_affine_reachable_witness:
  "\<exists>fuel. type_is_affine fuel example_env (Ty_Named (Some 1) ''Node'' []) =
     Some (\<exists>h. (Ty_Named (Some 1) ''Node'' [], h) \<in>
       {(u, v). v \<in> set (affine_parts example_env u)}\<^sup>* \<and> affine_leaf example_env h)"
proof (rule type_is_affine_reachable [where F = "{Ty_Named (Some 1) ''Node'' [], Ty_Named (Some 9) ''File'' []}"])
  show "acyclic {(u, v). u \<in> {Ty_Named (Some 1) ''Node'' [], Ty_Named (Some 9) ''File'' []} \<and>
      \<not> is_named u \<and> v \<in> set (affine_parts example_env u)}"
    by (rule acyclic_subset [of "{}"]) (auto simp: acyclic_def)
qed (auto simp: affine_parts_def example_env_def)

end
