(* ===== verification/Ciel_Visit.thy ===== *)
theory Ciel_Visit
  imports Ciel_Thir
begin

text \<open>
  The visitor of the typed representation (\<open>src/thir/visit.rs\<close>) and the capture sets of closures
  computed with it (\<open>src/capture.rs\<close>). A \<open>walk_*\<close> function of the source makes a sequence of
  \<open>visitor.visit_*\<close> calls; here it returns that sequence as a list of nodes. A visitor whose overridden
  methods do something and then call the corresponding \<open>walk_*\<close> is the traversal \<open>visit\<close>.
\<close>

section \<open>Walking\<close>

datatype (plugins only: size) thir_node =
    N_Block tblock
  | N_Stmt tstmt
  | N_ForInit tfor_init
  | N_Case tcase
  | N_Pattern tpattern
  | N_Expr texpr
  | N_ClosureBody tclosure_body

fun opt_node :: "('a \<Rightarrow> thir_node) \<Rightarrow> 'a option \<Rightarrow> thir_node list" where
  "opt_node f None = []"
| "opt_node f (Some x) = [f x]"

fun walk_block :: "tblock \<Rightarrow> thir_node list" where
  "walk_block (TBlock _ statements) = map N_Stmt statements"

fun walk_stmt_kind :: "tstmt_kind \<Rightarrow> thir_node list" where
  "walk_stmt_kind (TSK_Block block) = [N_Block block]"
| "walk_stmt_kind (TSK_VarDecl _ _ _ init) = opt_node N_Expr init"
| "walk_stmt_kind (TSK_Assign target val) = [N_Expr target, N_Expr val]"
| "walk_stmt_kind (TSK_If cond then_block else_branch) =
     [N_Expr cond, N_Block then_block] @ opt_node N_Stmt else_branch"
| "walk_stmt_kind (TSK_While cond body) = [N_Expr cond, N_Block body]"
| "walk_stmt_kind (TSK_For init cond step body) =
     opt_node N_ForInit init @ opt_node N_Expr cond @ opt_node N_ForInit step @ [N_Block body]"
| "walk_stmt_kind (TSK_Switch expr _ cases _ default_stmts _) =
     N_Expr expr # map N_Case cases @ map N_Stmt default_stmts"
| "walk_stmt_kind (TSK_Defer expr) = [N_Expr expr]"
| "walk_stmt_kind (TSK_ResourceCleanup expr) = [N_Expr expr]"
| "walk_stmt_kind (TSK_Return expr) = opt_node N_Expr expr"
| "walk_stmt_kind (TSK_Expr expr) = [N_Expr expr]"
| "walk_stmt_kind TSK_Break = []"
| "walk_stmt_kind TSK_Continue = []"
| "walk_stmt_kind TSK_Unsupported = []"

definition walk_stmt :: "tstmt \<Rightarrow> thir_node list" where
  "walk_stmt stmt = walk_stmt_kind (tstmt_kind stmt)"

fun walk_for_init :: "tfor_init \<Rightarrow> thir_node list" where
  "walk_for_init (TFI_VarDecl _ _ _ init) = opt_node N_Expr init"
| "walk_for_init (TFI_Assign target val) = [N_Expr target, N_Expr val]"
| "walk_for_init (TFI_Expr expr) = [N_Expr expr]"

fun walk_case :: "tcase \<Rightarrow> thir_node list" where
  "walk_case (TCase _ _ pattern statements) = N_Pattern pattern # map N_Stmt statements"

fun walk_pattern :: "tpattern \<Rightarrow> thir_node list" where
  "walk_pattern (TPat_Wildcard _) = []"
| "walk_pattern (TPat_Binding _ _ _ _) = []"
| "walk_pattern (TPat_Variant _ _ _ _ payload) = map N_Pattern payload"

fun walk_expr_kind :: "texpr_kind \<Rightarrow> thir_node list" where
  "walk_expr_kind (TEK_Local _ _) = []"
| "walk_expr_kind (TEK_Function _ _) = []"
| "walk_expr_kind (TEK_GenericFunction _ _ _) = []"
| "walk_expr_kind (TEK_Literal _) = []"
| "walk_expr_kind (TEK_TypeSize _) = []"
| "walk_expr_kind (TEK_TypeAlign _) = []"
| "walk_expr_kind (TEK_TypeNeedsGcScan _) = []"
| "walk_expr_kind (TEK_TypeId _) = []"
| "walk_expr_kind (TEK_StructLiteral _ field_inits) = map (N_Expr \<circ> snd) field_inits"
| "walk_expr_kind (TEK_EnumLiteral _ _ _ payload) = map N_Expr payload"
| "walk_expr_kind (TEK_ArrayLiteral elements) = map N_Expr elements"
| "walk_expr_kind (TEK_ArrayRepeat element _) = [N_Expr element]"
| "walk_expr_kind (TEK_Closure _ _ _ _ body _) = [N_ClosureBody body]"
| "walk_expr_kind (TEK_Move inner) = [N_Expr inner]"
| "walk_expr_kind (TEK_FunctionToClosure inner) = [N_Expr inner]"
| "walk_expr_kind (TEK_RetainClosure inner _) = [N_Expr inner]"
| "walk_expr_kind (TEK_Unary _ inner) = [N_Expr inner]"
| "walk_expr_kind (TEK_Cast inner _) = [N_Expr inner]"
| "walk_expr_kind (TEK_Try inner _) = [N_Expr inner]"
| "walk_expr_kind (TEK_AsyncBlockOn inner) = [N_Expr inner]"
| "walk_expr_kind (TEK_ArrayToSlice inner) = [N_Expr inner]"
| "walk_expr_kind (TEK_SliceToConst inner) = [N_Expr inner]"
| "walk_expr_kind (TEK_MakeDynamicInterface inner _) = [N_Expr inner]"
| "walk_expr_kind (TEK_ErrorBox inner _) = [N_Expr inner]"
| "walk_expr_kind (TEK_ReportBox inner _) = [N_Expr inner]"
| "walk_expr_kind (TEK_RawSliceFromPtr ptr len _) = [N_Expr ptr, N_Expr len]"
| "walk_expr_kind (TEK_Await inner) = [N_Expr inner]"
| "walk_expr_kind (TEK_AsyncSelect _ arms) =
     concat (map (\<lambda>arm. [N_Expr (arm_future arm), N_Expr (arm_body arm)]) arms)"
| "walk_expr_kind (TEK_AsyncSleep ms _) = [N_Expr ms]"
| "walk_expr_kind (TEK_AsyncSpawn body _ _) = [N_Expr body]"
| "walk_expr_kind (TEK_AsyncTaskCancel task _ _) = [N_Expr task]"
| "walk_expr_kind (TEK_AsyncTaskIsFinished task _ _) = [N_Expr task]"
| "walk_expr_kind (TEK_UnsafeBlock statements val) = map N_Stmt statements @ opt_node N_Expr val"
| "walk_expr_kind (TEK_Binary _ left right) = [N_Expr left, N_Expr right]"
| "walk_expr_kind (TEK_Call callee args) = N_Expr callee # map N_Expr args"
| "walk_expr_kind (TEK_DynamicInterfaceCall _ _ receiver args) = N_Expr receiver # map N_Expr args"
| "walk_expr_kind (TEK_RetainedClosureInterfaceCall _ _ _ receiver args) =
     N_Expr receiver # map N_Expr args"
| "walk_expr_kind (TEK_CloneMessage val _) = [N_Expr val]"
| "walk_expr_kind (TEK_Field base _) = [N_Expr base]"
| "walk_expr_kind (TEK_Arrow base _) = [N_Expr base]"
| "walk_expr_kind (TEK_Index base index) = [N_Expr base, N_Expr index]"
| "walk_expr_kind (TEK_Slice base from to) =
     N_Expr base # opt_node N_Expr from @ opt_node N_Expr to"
| "walk_expr_kind (TEK_MetaAsRefRepr val _) = [N_Expr val]"
| "walk_expr_kind (TEK_MetaIntoRepr val _) = [N_Expr val]"
| "walk_expr_kind (TEK_MetaFromRepr val _) = [N_Expr val]"
| "walk_expr_kind (TEK_MetaSchema _) = []"
| "walk_expr_kind (TEK_ActorSpawn _ state_arg handler _ _ _ _) = [N_Expr state_arg, N_Expr handler]"
| "walk_expr_kind (TEK_ActorSend actor val _) = [N_Expr actor, N_Expr val]"
| "walk_expr_kind (TEK_ActorStop actor _) = [N_Expr actor]"
| "walk_expr_kind (TEK_ActorJoin actor _) = [N_Expr actor]"

definition walk_expr :: "texpr \<Rightarrow> thir_node list" where
  "walk_expr expr = walk_expr_kind (texpr_kind expr)"

fun walk_closure_body :: "tclosure_body \<Rightarrow> thir_node list" where
  "walk_closure_body (TCB_Expr expr) = [N_Expr expr]"
| "walk_closure_body (TCB_Block block) = [N_Block block]"

fun walk :: "thir_node \<Rightarrow> thir_node list" where
  "walk (N_Block block) = walk_block block"
| "walk (N_Stmt stmt) = walk_stmt stmt"
| "walk (N_ForInit init) = walk_for_init init"
| "walk (N_Case clause) = walk_case clause"
| "walk (N_Pattern pattern) = walk_pattern pattern"
| "walk (N_Expr expr) = walk_expr expr"
| "walk (N_ClosureBody body) = walk_closure_body body"

fun node_size :: "thir_node \<Rightarrow> nat" where
  "node_size (N_Block block) = size_tblock_of size block"
| "node_size (N_Stmt stmt) = size stmt"
| "node_size (N_ForInit init) = size_tfor_init_of size init"
| "node_size (N_Case clause) = size_tcase_of size clause"
| "node_size (N_Pattern pattern) = size pattern"
| "node_size (N_Expr expr) = size expr"
| "node_size (N_ClosureBody body) = size_tclosure_body_of size size body"

text \<open>Only patterns are below patterns; the other nodes are measured without their patterns.\<close>

fun is_pattern_node :: "thir_node \<Rightarrow> bool" where
  "is_pattern_node (N_Pattern _) = True"
| "is_pattern_node _ = False"

definition node_order :: "(thir_node \<times> thir_node) set" where
  "node_order = measures [\<lambda>n. if is_pattern_node n then 0 else 1, node_size]"

lemma wf_node_order: "wf node_order"
  by (simp add: node_order_def)

lemma node_orderI:
  "node_size c < node_size n \<Longrightarrow> \<not> is_pattern_node n \<or> is_pattern_node c \<Longrightarrow> (c, n) \<in> node_order"
  "is_pattern_node c \<Longrightarrow> \<not> is_pattern_node n \<Longrightarrow> (c, n) \<in> node_order"
  by (auto simp: node_order_def)

lemma opt_node_member [simp]: "c \<in> set (opt_node f m) \<longleftrightarrow> (\<exists>x. m = Some x \<and> c = f x)"
  by (cases m) auto

lemma size_list_member: "x \<in> set xs \<Longrightarrow> f x < Suc (size_list f xs)"
  by (induction xs) auto

lemma size_field_member:
  "(name, e) \<in> set xs \<Longrightarrow> f e < Suc (size_list (size_prod (\<lambda>_. 0) f) xs)"
  using size_list_member [of "(name, e)" xs "size_prod (\<lambda>_. 0) f"] by simp

lemma size_arm_member:
  assumes "a \<in> set xs"
  shows "f (arm_future a) < Suc (size_list (size_tselect_arm_of f) xs)"
    and "f (arm_body a) < Suc (size_list (size_tselect_arm_of f) xs)"
  using size_list_member [OF assms, of "size_tselect_arm_of f"] by (cases a; simp)+

lemma size_case_member:
  assumes "c \<in> set xs" and "s \<in> set (tcase_statements c)"
  shows "f s < Suc (size_list (size_tcase_of f) xs)"
  using size_list_member [OF assms(1), of "size_tcase_of f"] size_list_member [OF assms(2), of f]
  by (cases c) simp

lemmas size_members =
  size_list_member [where f = "size :: tstmt \<Rightarrow> nat"]
  size_list_member [where f = "size :: texpr \<Rightarrow> nat"]
  size_list_member [where f = "size :: tpattern \<Rightarrow> nat"]
  size_list_member [where f = "size_tcase_of (size :: tstmt \<Rightarrow> nat)"]
  size_field_member [where f = "size :: texpr \<Rightarrow> nat"]
  size_arm_member [where f = "size :: texpr \<Rightarrow> nat"]
  size_case_member [where f = "size :: tstmt \<Rightarrow> nat"]

text \<open>For recursion through a fold that is not applied to its start value.\<close>

lemma fold_fun_cong [fundef_cong]:
  "xs = ys \<Longrightarrow> (\<And>x. x \<in> set ys \<Longrightarrow> f x = g x) \<Longrightarrow> fold f xs = fold g ys"
  by (rule ext) (auto intro: List.fold_cong)

lemma walk_stmt_kind_smaller: "c \<in> set (walk_stmt_kind k) \<Longrightarrow> node_size c < Suc (size k)"
  by (cases k) (auto dest: size_members)

lemma walk_expr_kind_smaller: "c \<in> set (walk_expr_kind k) \<Longrightarrow> node_size c < Suc (size k)"
  by (cases k) (auto dest: size_members)

lemma walk_smaller:
  assumes "c \<in> set (walk n)"
  shows "(c, n) \<in> node_order"
proof (cases n)
  case (N_Block b)
  with assms show ?thesis by (cases b) (auto dest: size_members intro!: node_orderI(1))
next
  case (N_Stmt s)
  with assms show ?thesis
    by (cases s) (auto simp: walk_stmt_def dest: walk_stmt_kind_smaller intro!: node_orderI(1))
next
  case (N_ForInit i)
  with assms show ?thesis by (cases i) (auto intro!: node_orderI(1))
next
  case (N_Case i)
  with assms show ?thesis by (cases i) (auto simp: node_order_def dest: size_members)
next
  case (N_Pattern i)
  with assms show ?thesis by (cases i) (auto dest: size_members intro!: node_orderI(1))
next
  case (N_Expr e)
  with assms show ?thesis
    by (cases e) (auto simp: walk_expr_def dest: walk_expr_kind_smaller intro!: node_orderI(1))
next
  case (N_ClosureBody i)
  with assms show ?thesis by (cases i) (auto intro!: node_orderI(1))
qed

text \<open>
  A visitor with state \<open>st\<close> whose methods run \<open>f\<close> on a node and then walk it.
\<close>

function visit :: "(thir_node \<Rightarrow> 's \<Rightarrow> 's) \<Rightarrow> thir_node \<Rightarrow> 's \<Rightarrow> 's" where
  "visit f n st = fold (visit f) (walk n) (f n st)"
  by auto
termination
  by (relation "inv_image node_order (\<lambda>(_, n, _). n)") (auto simp: wf_node_order walk_smaller)

declare visit.simps [simp del]

text \<open>
  \<open>walk_expr_children\<close>: the visitor that stops at expressions, so its callback sees the expressions
  directly below a node, looking through blocks, statements, cases and closure bodies.
\<close>

function child_exprs :: "thir_node \<Rightarrow> texpr list" where
  "child_exprs n = concat (map (\<lambda>c. case c of N_Expr e \<Rightarrow> [e] | _ \<Rightarrow> child_exprs c) (walk n))"
  by auto
termination
  by (relation node_order) (auto simp: wf_node_order walk_smaller)

declare child_exprs.simps [simp del]

definition walk_expr_children :: "texpr \<Rightarrow> texpr list" where
  "walk_expr_children expr = child_exprs (N_Expr expr)"

section \<open>Traversal order\<close>

function preorder :: "thir_node \<Rightarrow> thir_node list" where
  "preorder n = n # concat (map preorder (walk n))"
  by auto
termination
  by (relation node_order) (auto simp: wf_node_order walk_smaller)

declare preorder.simps [simp del]

lemma fold_concat: "fold g (concat xss) st = fold (\<lambda>xs. fold g xs) xss st"
  by (induction xss arbitrary: st) auto

lemma visit_fold: "visit f n st = fold f (preorder n) st"
proof (induction f n st rule: visit.induct)
  case (1 f n st)
  have "fold (visit f) ns st' = fold (fold f) (map preorder ns) st'" if "set ns \<subseteq> set (walk n)" for ns st'
    using that 1 by (induction ns arbitrary: st') auto
  from this [of "walk n" "f n st"] show ?case
    by (subst visit.simps, subst preorder.simps) (simp add: fold_concat)
qed

section \<open>Closure captures\<close>

fun declared_locals_step :: "thir_node \<Rightarrow> local_id set \<Rightarrow> local_id set" where
  "declared_locals_step (N_Stmt (TStmt _ (TSK_VarDecl _ _ local_id _))) declared = insert local_id declared"
| "declared_locals_step (N_ForInit (TFI_VarDecl _ _ local_id _)) declared = insert local_id declared"
| "declared_locals_step (N_Pattern (TPat_Binding local_id _ _ _)) declared = insert local_id declared"
| "declared_locals_step (N_Expr (TExpr _ _ (TEK_Closure _ _ params _ _ _))) declared =
     fold (\<lambda>(local_id, _, _). insert local_id) params declared"
| "declared_locals_step _ declared = declared"

fun local_ref_step :: "local_id set \<Rightarrow> thir_node \<Rightarrow> local_id list \<Rightarrow> local_id list" where
  "local_ref_step declared (N_Expr (TExpr _ _ (TEK_Local local_id _))) captures =
     (if local_id \<notin> declared \<and> local_id \<notin> set captures then captures @ [local_id] else captures)"
| "local_ref_step declared _ captures = captures"

definition collect_closure_capture_ids ::
    "(local_id \<times> string \<times> ty) list \<Rightarrow> tclosure_body \<Rightarrow> local_id list" where
  "collect_closure_capture_ids params body =
     (let declared = visit declared_locals_step (N_ClosureBody body) (set (map fst params))
      in visit (local_ref_step declared) (N_ClosureBody body) [])"

fun local_refs :: "thir_node \<Rightarrow> local_id list" where
  "local_refs (N_Expr (TExpr _ _ (TEK_Local local_id _))) = [local_id]"
| "local_refs _ = []"

fun binders :: "thir_node \<Rightarrow> local_id set" where
  "binders (N_Stmt (TStmt _ (TSK_VarDecl _ _ local_id _))) = {local_id}"
| "binders (N_ForInit (TFI_VarDecl _ _ local_id _)) = {local_id}"
| "binders (N_Pattern (TPat_Binding local_id _ _ _)) = {local_id}"
| "binders (N_Expr (TExpr _ _ (TEK_Closure _ _ params _ _ _))) = fst ` set params"
| "binders _ = {}"

lemma declared_locals_step_binders: "declared_locals_step n declared = declared \<union> binders n"
proof (induction n declared rule: declared_locals_step.induct)
  case (4 _ _ _ _ params _ _ _ declared)
  show ?case by (induction params arbitrary: declared) auto
qed auto

lemma fold_declared_locals: "fold declared_locals_step ns declared = declared \<union> (\<Union>n \<in> set ns. binders n)"
  by (induction ns arbitrary: declared) (auto simp: declared_locals_step_binders)

text \<open>The first occurrences of the elements of a list, in order.\<close>

definition first_occurrences :: "'a list \<Rightarrow> 'a list" where
  "first_occurrences xs = rev (remdups (rev xs))"

lemma first_occurrences_append:
  "first_occurrences (xs @ [x]) = (if x \<in> set xs then first_occurrences xs else first_occurrences xs @ [x])"
  by (simp add: first_occurrences_def)

lemma set_first_occurrences [simp]: "set (first_occurrences xs) = set xs"
  by (simp add: first_occurrences_def)

lemma distinct_first_occurrences [simp]: "distinct (first_occurrences xs)"
  by (simp add: first_occurrences_def)

lemma local_ref_step_refs:
  "local_ref_step declared n (first_occurrences (filter (\<lambda>i. i \<notin> declared) refs)) =
     first_occurrences (filter (\<lambda>i. i \<notin> declared) (refs @ local_refs n))"
  by (induction n rule: local_refs.induct) (auto simp: first_occurrences_append)

lemma fold_local_ref_step:
  "fold (local_ref_step declared) ns (first_occurrences (filter (\<lambda>i. i \<notin> declared) refs)) =
     first_occurrences (filter (\<lambda>i. i \<notin> declared) (refs @ concat (map local_refs ns)))"
proof (induction ns arbitrary: refs)
  case (Cons n ns)
  then show ?case using Cons [of "refs @ local_refs n"] by (simp add: local_ref_step_refs del: filter_append)
qed simp


fun is_expr_node :: "thir_node \<Rightarrow> bool" where
  "is_expr_node (N_Expr _) = True"
| "is_expr_node _ = False"

definition expr_nodes :: "thir_node \<Rightarrow> thir_node list" where
  "expr_nodes n = filter is_expr_node (preorder n)"

lemma expr_nodes_walk:
  "expr_nodes n = (if is_expr_node n then [n] else []) @ concat (map expr_nodes (walk n))"
  unfolding expr_nodes_def by (subst preorder.simps) (simp add: filter_concat comp_def)

lemma concat_concat_map: "concat (concat xsss) = concat (map concat xsss)"
  by (induction xsss) simp_all

lemma expr_nodes_child_exprs:
  "expr_nodes n = (if is_expr_node n then [n] else []) @
     concat (map (\<lambda>e. expr_nodes (N_Expr e)) (child_exprs n))"
proof (induction n rule: child_exprs.induct)
  case (1 n)
  have "expr_nodes c = concat (map (\<lambda>e. expr_nodes (N_Expr e))
      (case c of N_Expr e \<Rightarrow> [e] | _ \<Rightarrow> child_exprs c))" if "c \<in> set (walk n)" for c
    using 1 that by (cases c) simp_all
  then have "map expr_nodes (walk n) = map (\<lambda>c. concat (map (\<lambda>e. expr_nodes (N_Expr e))
      (case c of N_Expr e \<Rightarrow> [e] | _ \<Rightarrow> child_exprs c))) (walk n)"
    by (rule map_cong [OF refl])
  then show ?case
    by (subst expr_nodes_walk, subst child_exprs.simps) (simp add: map_concat concat_concat_map comp_def cong: map_cong)
qed


end
