(* ===== verification/Ciel_Fixpoint.thy ===== *)
theory Ciel_Fixpoint
  imports Main "HOL-Library.While_Combinator"
begin

text \<open>
  Round-robin iteration of equations to their least solution, the scheme of the whole-program
  analyses: each round recomputes the value of every key in turn from the current values, in place,
  and rounds are repeated until one of them changes nothing. The locale states what the equations
  must satisfy for the iteration to end in the least solution.
\<close>

definition update_key ::
  "('a \<Rightarrow> 'k) \<Rightarrow> ('a \<Rightarrow> ('k \<Rightarrow> 'v) \<Rightarrow> 'v) \<Rightarrow> 'a \<Rightarrow> ('k \<Rightarrow> 'v) \<times> bool \<Rightarrow> ('k \<Rightarrow> 'v) \<times> bool" where
  "update_key key step a sc =
     (let next = step a (fst sc)
      in if fst sc (key a) \<noteq> next then ((fst sc)(key a := next), True) else sc)"

lemma update_key_pair:
  "update_key key step a (s, c) =
     (if s (key a) \<noteq> step a s then (s(key a := step a s), True) else (s, c))"
  by (simp add: update_key_def)

definition iterate_round ::
  "('a \<Rightarrow> 'k) \<Rightarrow> ('a \<Rightarrow> ('k \<Rightarrow> 'v) \<Rightarrow> 'v) \<Rightarrow> 'a list \<Rightarrow> ('k \<Rightarrow> 'v) \<Rightarrow> ('k \<Rightarrow> 'v) \<times> bool" where
  "iterate_round key step eqs s = fold (update_key key step) eqs (s, False)"

definition iterate_rounds ::
  "('a \<Rightarrow> 'k) \<Rightarrow> ('a \<Rightarrow> ('k \<Rightarrow> 'v) \<Rightarrow> 'v) \<Rightarrow> 'a list \<Rightarrow> ('k \<Rightarrow> 'v) \<Rightarrow> ('k \<Rightarrow> 'v) option" where
  "iterate_rounds key step eqs s =
     map_option fst (while_option snd (\<lambda>(s, _). iterate_round key step eqs s) (s, True))"

text \<open>Two loop bodies that agree on an invariant give the same loop.\<close>

lemma while_option_cong_inv:
  assumes "I s" and "\<And>s. I s \<Longrightarrow> body s = body' s" and "\<And>s. I s \<Longrightarrow> I (body s)"
  shows "while_option b body s = while_option b body' s"
proof -
  have "(body ^^ k) s = (body' ^^ k) s \<and> I ((body ^^ k) s)" for k
    by (induction k) (auto simp: assms(1) assms(2) [symmetric] assms(3))
  then show ?thesis by (simp add: while_option_def)
qed

locale monotone_equations =
  fixes le :: "'v \<Rightarrow> 'v \<Rightarrow> bool"
    and key :: "'a \<Rightarrow> 'k"
    and step :: "'a \<Rightarrow> ('k \<Rightarrow> 'v) \<Rightarrow> 'v"
    and bound :: "'a \<Rightarrow> 'v"
  assumes le_refl: "le v v"
    and le_trans: "le u v \<Longrightarrow> le v w \<Longrightarrow> le u w"
    and le_antisym: "le u v \<Longrightarrow> le v u \<Longrightarrow> u = v"
    and step_mono: "(\<And>k. le (s k) (s' k)) \<Longrightarrow> le (step a s) (step a s')"
    and step_bound: "le (step a s) (bound a)"
    and finite_below: "finite {v. le v (bound a)}"
begin

definition below :: "('k \<Rightarrow> 'v) \<Rightarrow> ('k \<Rightarrow> 'v) \<Rightarrow> bool" where
  "below s s' \<longleftrightarrow> (\<forall>k. le (s k) (s' k))"

text \<open>Values only grow when every one of them is below what its equation gives.\<close>

definition ascending :: "'a list \<Rightarrow> ('k \<Rightarrow> 'v) \<Rightarrow> bool" where
  "ascending eqs s \<longleftrightarrow> (\<forall>a \<in> set eqs. le (s (key a)) (step a s))"

definition slack :: "'a list \<Rightarrow> ('k \<Rightarrow> 'v) \<Rightarrow> nat" where
  "slack eqs s = (\<Sum>a \<leftarrow> eqs. card {v. le v (bound a) \<and> \<not> le v (s (key a))})"

lemma key_eq: "distinct (map key eqs) \<Longrightarrow> a \<in> set eqs \<Longrightarrow> b \<in> set eqs \<Longrightarrow> key a = key b \<Longrightarrow> a = b"
  by (auto simp: distinct_map dest: inj_onD)

lemma below_refl: "below s s"
  by (simp add: below_def le_refl)

lemma below_trans: "below s t \<Longrightarrow> below t u \<Longrightarrow> below s u"
  by (meson below_def le_trans)

lemma step_below: "below s s' \<Longrightarrow> le (step a s) (step a s')"
  by (simp add: below_def step_mono)

lemma update_below:
  assumes "ascending eqs s" and "a \<in> set eqs"
  shows "below s (s(key a := step a s))"
  using assms by (auto simp: below_def ascending_def le_refl)

lemma update_ascending:
  assumes d: "distinct (map key eqs)" and s: "ascending eqs s" and a: "a \<in> set eqs"
  shows "ascending eqs (s(key a := step a s))"
  unfolding ascending_def
proof
  fix b assume b: "b \<in> set eqs"
  have "le (step b s) (step b (s(key a := step a s)))"
    by (rule step_below [OF update_below [OF s a]])
  moreover have "le ((s(key a := step a s)) (key b)) (step b s)"
    using s b key_eq [OF d b a] le_refl by (auto simp: ascending_def)
  ultimately show "le ((s(key a := step a s)) (key b)) (step b (s(key a := step a s)))"
    using le_trans by blast
qed

lemma update_slack:
  assumes s: "ascending eqs s" and a: "a \<in> set eqs" and ch: "s (key a) \<noteq> step a s"
  shows "slack eqs (s(key a := step a s)) < slack eqs s"
proof -
  define s1 where "s1 = s(key a := step a s)"
  define gap where "gap b u = {v. le v (bound b) \<and> \<not> le v (u (key b))}" for b and u :: "'k \<Rightarrow> 'v"
  have fin: "finite (gap b u)" for b u
    by (rule finite_subset [OF _ finite_below [of b]]) (auto simp: gap_def)
  have up: "le (s (key a)) (step a s)" using s a by (simp add: ascending_def)
  have sub: "gap b s1 \<subseteq> gap b s" for b
    using update_below [OF s a] le_trans by (fastforce simp: gap_def below_def s1_def)
  have "step a s \<in> gap a s - gap a s1"
    using ch up le_antisym step_bound le_refl by (auto simp: gap_def s1_def)
  then have less: "card (gap a s1) < card (gap a s)"
    using sub [of a] fin by (intro psubset_card_mono) auto
  have "(\<Sum>b \<leftarrow> eqs. card (gap b s1)) < (\<Sum>b \<leftarrow> eqs. card (gap b s))"
    using a
  proof (induction eqs)
    case (Cons b bs)
    have rest: "(\<Sum>b \<leftarrow> bs. card (gap b s1)) \<le> (\<Sum>b \<leftarrow> bs. card (gap b s))"
      by (rule sum_list_mono) (simp add: card_mono fin sub)
    have first: "card (gap b s1) \<le> card (gap b s)" by (simp add: card_mono fin sub)
    show ?case using Cons less rest first by (cases "a = b") auto
  qed simp
  then show ?thesis by (simp add: slack_def gap_def s1_def)
qed

text \<open>What a whole round keeps, and what it tells when nothing changed.\<close>

lemma round_steps:
  assumes d: "distinct (map key eqs)" and "ascending eqs s" and "set as \<subseteq> set eqs"
    and "\<forall>a \<in> set eqs. le (step a t) (t (key a))" and "below s t"
    and "fold (update_key key step) as (s, c) = (s', c')"
  shows "ascending eqs s' \<and> below s' t \<and>
    (s' = s \<and> c' = c \<and> (\<forall>a \<in> set as. s (key a) = step a s) \<or> c' \<and> slack eqs s' < slack eqs s)"
  using assms(2-)
proof (induction as arbitrary: s c)
  case Nil
  then show ?case by simp
next
  case (Cons a as)
  have a: "a \<in> set eqs" using Cons.prems by simp
  define u where "u = s(key a := step a s)"
  show ?case
  proof (cases "s (key a) = step a s")
    case True
    then have "fold (update_key key step) as (s, c) = (s', c')"
      using Cons.prems by (simp add: update_key_pair)
    then show ?thesis using Cons.IH [of s c] Cons.prems True by auto
  next
    case False
    then have step: "fold (update_key key step) as (u, True) = (s', c')"
      using Cons.prems by (simp add: update_key_pair u_def)
    have "le (step a s) (t (key a))"
      using step_below [OF Cons.prems(4), of a] Cons.prems(3) a le_trans by blast
    then have "below u t" using Cons.prems(4) by (simp add: below_def u_def)
    then have "ascending eqs s' \<and> below s' t \<and> (s' = u \<and> c' \<or> c' \<and> slack eqs s' < slack eqs u)"
      using Cons.IH [of u True] step update_ascending [OF d Cons.prems(1) a, folded u_def] Cons.prems(2,3)
      by auto
    then show ?thesis using update_slack [OF Cons.prems(1) a False, folded u_def] by auto
  qed
qed

text \<open>
  The iteration ends, in a solution of the equations that is below every solution above the start.
\<close>

theorem iterate_rounds_least:
  assumes d: "distinct (map key eqs)" and start: "ascending eqs s"
  shows "\<exists>s'. iterate_rounds key step eqs s = Some s' \<and> (\<forall>a \<in> set eqs. s' (key a) = step a s') \<and>
    (\<forall>t. below s t \<longrightarrow> (\<forall>a \<in> set eqs. le (step a t) (t (key a))) \<longrightarrow> below s' t)"
proof -
  let ?body = "\<lambda>(s, _). iterate_round key step eqs s"
  let ?I = "\<lambda>t (u, c). ascending eqs u \<and> below u t \<and> (c \<or> (\<forall>a \<in> set eqs. u (key a) = step a u))"
  define top where "top k = (if k \<in> key ` set eqs then bound (inv_into (set eqs) key k) else s k)" for k
  have inv_key: "inv_into (set eqs) key (key a) = a" if "a \<in> set eqs" for a
    using that d by (simp add: distinct_map inv_into_f_f)
  have below_top: "below s top"
    using start inv_key step_bound le_trans le_refl by (fastforce simp: below_def top_def ascending_def)
  have top_sol: "\<forall>a \<in> set eqs. le (step a top) (top (key a))"
    using inv_key step_bound by (simp add: top_def)
  have round: "?I t (?body p) \<and>
      (2 * slack eqs (fst (?body p)) + (if snd (?body p) then 1 else 0) <
       2 * slack eqs (fst p) + (if snd p then 1 else 0))"
    if "?I t p" "snd p" "\<forall>a \<in> set eqs. le (step a t) (t (key a))" for t p
  proof -
    obtain u c where p: "p = (u, c)" by force
    obtain u' c' where b: "fold (update_key key step) eqs (u, False) = (u', c')" by force
    show ?thesis
      using round_steps [OF d _ subset_refl that(3) _ b] that(1,2) b by (auto simp: p iterate_round_def)
  qed
  obtain s' c' where res: "while_option snd ?body (s, True) = Some (s', c')"
    using measure_while_option_Some [of "?I top" snd ?body
        "\<lambda>p. 2 * slack eqs (fst p) + (if snd p then 1 else 0)" "(s, True)"] round [of top] top_sol
      start below_top by (auto simp: case_prod_beta)
  have I: "?I t (s', c')" if "below s t" "\<forall>a \<in> set eqs. le (step a t) (t (key a))" for t
    using while_option_rule [of "?I t" snd ?body, OF _ res] round [of t] that start by auto
  have "\<not> c'" using while_option_stop [OF res] by simp
  with I [OF below_top top_sol] I have "\<forall>a \<in> set eqs. s' (key a) = step a s'"
    and "\<forall>t. below s t \<longrightarrow> (\<forall>a \<in> set eqs. le (step a t) (t (key a))) \<longrightarrow> below s' t"
    by auto
  with res show ?thesis by (simp add: iterate_rounds_def)
qed

end

end
