(* ===== verification/Ciel_Escape.thy ===== *)
theory Ciel_Escape
  imports Ciel_Visit Ciel_Fixpoint
begin

text \<open>
  Escape analysis (\<open>src/escape.rs\<close>): which locals of a function must live on the garbage-collected
  heap and which parameters escape. \<open>FunctionAnalyzer\<close> is the record \<open>analyzer\<close>; its methods are
  functions on it. The sets of the source are iterated in index order, which their users cannot
  observe. The whole-program loop is the round-robin iteration of \<open>Ciel_Fixpoint\<close>.
\<close>

section \<open>Summaries and sources\<close>

record function_escape =
  heap_locals :: "local_id set"
  escaping_params :: "nat set"

definition function_escape_default :: function_escape where
  "function_escape_default = \<lparr>heap_locals = {}, escaping_params = {}\<rparr>"

datatype storage_source = Src_Local local_id | Src_Param nat

fun storage_source_key :: "storage_source \<Rightarrow> nat \<times> nat" where
  "storage_source_key (Src_Local id') = (0, id')"
| "storage_source_key (Src_Param idx) = (1, idx)"

fun ty_can_carry_pointer :: "ty \<Rightarrow> bool" where
  "ty_can_carry_pointer (Ty_Pointer _ _ _) = True"
| "ty_can_carry_pointer (Ty_Slice _ _) = True"
| "ty_can_carry_pointer (Ty_DynamicInterface _ _ _) = True"
| "ty_can_carry_pointer (Ty_Function _ _ _ _) = True"
| "ty_can_carry_pointer (Ty_Closure _ _ _) = True"
| "ty_can_carry_pointer (Ty_ClosureInstance _ _ _ _) = True"
| "ty_can_carry_pointer (Ty_Array _ elem) = ty_can_carry_pointer elem"
| "ty_can_carry_pointer (Ty_Named _ _ _) = True"
| "ty_can_carry_pointer _ = False"

definition extern_escape_summary :: "checked_function \<Rightarrow> function_escape" where
  "extern_escape_summary function =
     (if cf_noescape function then function_escape_default
      else \<lparr>heap_locals = {},
        escaping_params = set [idx \<leftarrow> [0..<length (cf_params function)].
          case cf_params function ! idx of (_, _, t, _) \<Rightarrow> ty_can_carry_pointer t]\<rparr>)"

section \<open>The analyzer\<close>

record analyzer =
  an_functions :: "def_id \<rightharpoonup> checked_function"
  an_summaries :: "def_id \<rightharpoonup> function_escape"
  an_escape :: function_escape
  an_local_to_param :: "local_id \<rightharpoonup> nat"
  an_aliases :: "local_id \<rightharpoonup> storage_source list"

text \<open>The storage of a local itself: a parameter slot or a local variable.\<close>

definition local_storage :: "analyzer \<Rightarrow> local_id \<Rightarrow> storage_source" where
  "local_storage an local_id =
     (case an_local_to_param an local_id of
        Some param_idx \<Rightarrow> Src_Param param_idx
      | None \<Rightarrow> Src_Local local_id)"

fun is_array_ty :: "ty \<Rightarrow> bool" where
  "is_array_ty (Ty_Array _ _) = True"
| "is_array_ty _ = False"

text \<open>The tests \<open>if let TExprKind::Local(local_id, _) = &expr.kind\<close> and the match on the callee of a call.\<close>

definition as_local :: "texpr \<Rightarrow> local_id option" where
  "as_local expr = (case texpr_kind expr of TEK_Local local_id _ \<Rightarrow> Some local_id | _ \<Rightarrow> None)"

definition as_function :: "texpr \<Rightarrow> def_id option" where
  "as_function expr = (case texpr_kind expr of TEK_Function def_id _ \<Rightarrow> Some def_id | _ \<Rightarrow> None)"

text \<open>
  \<open>collect_storage_sources\<close>; in the source the capture of a closure is looked up as an expression
  \<open>Local\<close> built on the spot.
\<close>

function (sequential) collect_storage_sources ::
    "analyzer \<Rightarrow> texpr \<Rightarrow> storage_source list \<Rightarrow> storage_source list" where
  "collect_storage_sources an (TExpr sp t (TEK_Unary op expr)) out =
     (if op = Op_Addr
      then (case as_local expr of
          Some local_id \<Rightarrow> out @ [local_storage an local_id]
        | None \<Rightarrow> collect_storage_sources an expr out)
      else out)"
| "collect_storage_sources an (TExpr sp t (TEK_ArrayToSlice inner)) out =
     (case as_local inner of
        Some local_id \<Rightarrow> out @ [local_storage an local_id]
      | None \<Rightarrow> collect_storage_sources an inner out)"
| "collect_storage_sources an (TExpr sp t (TEK_Move inner)) out = collect_storage_sources an inner out"
| "collect_storage_sources an (TExpr sp t (TEK_SliceToConst inner)) out =
     collect_storage_sources an inner out"
| "collect_storage_sources an (TExpr sp t (TEK_RawSliceFromPtr ptr len _)) out =
     collect_storage_sources an len (collect_storage_sources an ptr out)"
| "collect_storage_sources an (TExpr sp t (TEK_Slice base _ _)) out =
     (case (if is_array_ty (texpr_ty base) then as_local base else None) of
        Some local_id \<Rightarrow> out @ [local_storage an local_id]
      | None \<Rightarrow> collect_storage_sources an base out)"
| "collect_storage_sources an (TExpr sp t (TEK_Local local_id _)) out =
     (case an_aliases an local_id of
        Some sources \<Rightarrow> out @ sources
      | None \<Rightarrow>
          (case an_local_to_param an local_id of
             Some param_idx \<Rightarrow> if ty_can_carry_pointer t then out @ [Src_Param param_idx] else out
           | None \<Rightarrow> out))"
| "collect_storage_sources an (TExpr sp t (TEK_StructLiteral _ field_inits)) out =
     fold (\<lambda>field_init. collect_storage_sources an (snd field_init)) field_inits out"
| "collect_storage_sources an (TExpr sp t (TEK_Closure _ _ _ captures _ _)) out =
     fold (\<lambda>capture out.
       case an_aliases an (tcc_local_id capture) of
         Some sources \<Rightarrow> out @ sources
       | None \<Rightarrow> collect_storage_sources an
           (TExpr sp (tcc_ty capture) (TEK_Local (tcc_local_id capture) (tcc_name capture))) out)
       captures out"
| "collect_storage_sources an (TExpr sp t (TEK_FunctionToClosure expr)) out =
     collect_storage_sources an expr out"
| "collect_storage_sources an (TExpr sp t (TEK_RetainClosure expr _)) out =
     collect_storage_sources an expr out"
| "collect_storage_sources an (TExpr sp t (TEK_ArrayLiteral elements)) out =
     fold (\<lambda>element. collect_storage_sources an element) elements out"
| "collect_storage_sources an (TExpr sp t (TEK_ArrayRepeat element _)) out =
     collect_storage_sources an element out"
| "collect_storage_sources an (TExpr sp t (TEK_EnumLiteral _ _ _ payload)) out =
     fold (\<lambda>val. collect_storage_sources an val) payload out"
| "collect_storage_sources an (TExpr sp t (TEK_Cast expr _)) out = collect_storage_sources an expr out"
| "collect_storage_sources an (TExpr sp t (TEK_Try expr _)) out = collect_storage_sources an expr out"
| "collect_storage_sources an (TExpr sp t (TEK_Await future)) out = collect_storage_sources an future out"
| "collect_storage_sources an (TExpr sp t (TEK_AsyncBlockOn future)) out =
     collect_storage_sources an future out"
| "collect_storage_sources an (TExpr sp t (TEK_AsyncSelect _ arms)) out =
     fold (\<lambda>arm out. collect_storage_sources an (arm_body arm)
       (collect_storage_sources an (arm_future arm) out)) arms out"
| "collect_storage_sources an (TExpr sp t (TEK_AsyncSleep ms _)) out = collect_storage_sources an ms out"
| "collect_storage_sources an (TExpr sp t (TEK_AsyncSpawn body _ _)) out =
     collect_storage_sources an body out"
| "collect_storage_sources an (TExpr sp t (TEK_AsyncTaskCancel task _ _)) out =
     collect_storage_sources an task out"
| "collect_storage_sources an (TExpr sp t (TEK_AsyncTaskIsFinished task _ _)) out =
     collect_storage_sources an task out"
| "collect_storage_sources an (TExpr sp t (TEK_Binary _ left right)) out =
     collect_storage_sources an right (collect_storage_sources an left out)"
| "collect_storage_sources an (TExpr sp t (TEK_MetaAsRefRepr val _)) out =
     collect_storage_sources an val out"
| "collect_storage_sources an (TExpr sp t (TEK_MetaIntoRepr val _)) out =
     collect_storage_sources an val out"
| "collect_storage_sources an (TExpr sp t (TEK_MetaFromRepr val _)) out =
     collect_storage_sources an val out"
| "collect_storage_sources an (TExpr sp t (TEK_ActorSpawn _ state_arg handler _ _ _ _)) out =
     collect_storage_sources an handler (collect_storage_sources an state_arg out)"
| "collect_storage_sources an (TExpr sp t (TEK_ActorSend actor val _)) out =
     collect_storage_sources an val (collect_storage_sources an actor out)"
| "collect_storage_sources an (TExpr sp t (TEK_ActorStop actor _)) out =
     collect_storage_sources an actor out"
| "collect_storage_sources an (TExpr sp t (TEK_ActorJoin actor _)) out =
     collect_storage_sources an actor out"
| "collect_storage_sources an (TExpr sp t (TEK_UnsafeBlock _ val)) out =
     (case val of Some val \<Rightarrow> collect_storage_sources an val out | None \<Rightarrow> out)"
| "collect_storage_sources an _ out = out"
  by pat_completeness auto
termination
  by (relation "measure (\<lambda>(_, e, _). size e)") (auto dest: size_members)

text \<open>Sorting by key and dropping adjacent duplicates (\<open>sort_by_key\<close>, \<open>dedup\<close>).\<close>

definition storage_sources :: "analyzer \<Rightarrow> texpr \<Rightarrow> storage_source list" where
  "storage_sources an expr =
     remdups_adj (sort_key storage_source_key (collect_storage_sources an expr []))"

fun insert_source :: "storage_source \<Rightarrow> function_escape \<Rightarrow> function_escape" where
  "insert_source (Src_Local local_id) esc = esc\<lparr>heap_locals := insert local_id (heap_locals esc)\<rparr>"
| "insert_source (Src_Param idx) esc = esc\<lparr>escaping_params := insert idx (escaping_params esc)\<rparr>"

definition escape_sources :: "texpr \<Rightarrow> analyzer \<Rightarrow> analyzer" where
  "escape_sources expr an = an\<lparr>an_escape := fold insert_source (storage_sources an expr) (an_escape an)\<rparr>"

definition remove_alias :: "local_id \<Rightarrow> analyzer \<Rightarrow> analyzer" where
  "remove_alias local_id an = an\<lparr>an_aliases := (an_aliases an)(local_id := None)\<rparr>"

definition insert_alias :: "local_id \<Rightarrow> storage_source list \<Rightarrow> analyzer \<Rightarrow> analyzer" where
  "insert_alias local_id sources an = an\<lparr>an_aliases := (an_aliases an)(local_id \<mapsto> sources)\<rparr>"

definition update_alias :: "local_id \<Rightarrow> texpr \<Rightarrow> analyzer \<Rightarrow> analyzer" where
  "update_alias local_id val an =
     (let sources = storage_sources an val
      in if sources = [] then remove_alias local_id an else insert_alias local_id sources an)"

definition escape_pointer_args :: "texpr list \<Rightarrow> analyzer \<Rightarrow> analyzer" where
  "escape_pointer_args args an =
     fold (\<lambda>arg an. if ty_can_carry_pointer (texpr_ty arg) then escape_sources arg an else an) args an"

definition apply_call_escape :: "texpr \<Rightarrow> texpr list \<Rightarrow> analyzer \<Rightarrow> analyzer" where
  "apply_call_escape callee args an =
     (case as_function callee of
        Some def_id \<Rightarrow>
          (case an_functions an def_id of
             None \<Rightarrow> escape_pointer_args args an
           | Some callee_function \<Rightarrow>
               (let summary = (case an_summaries an def_id of
                      Some summary \<Rightarrow> summary
                    | None \<Rightarrow> extern_escape_summary callee_function)
                in fold (\<lambda>param_idx. escape_sources (args ! param_idx))
                     [param_idx \<leftarrow> [0..<length args]. param_idx \<in> escaping_params summary] an))
      | None \<Rightarrow> escape_pointer_args args an)"

fun update_pattern_aliases :: "tpattern \<Rightarrow> storage_source list \<Rightarrow> analyzer \<Rightarrow> analyzer" where
  "update_pattern_aliases (TPat_Wildcard _) sources an = an"
| "update_pattern_aliases (TPat_Binding local_id _ _ t) sources an =
     (if ty_can_carry_pointer t then insert_alias local_id sources an else remove_alias local_id an)"
| "update_pattern_aliases (TPat_Variant _ _ _ _ payload) sources an =
     fold (\<lambda>pattern. update_pattern_aliases pattern sources) payload an"

text \<open>\<open>Assign\<close> to a local renames its sources, any other target lets the value escape.\<close>

definition assign_effect :: "texpr \<Rightarrow> texpr \<Rightarrow> analyzer \<Rightarrow> analyzer" where
  "assign_effect target val an =
     (case as_local target of
        Some local_id \<Rightarrow> update_alias local_id val an
      | None \<Rightarrow> escape_sources val an)"

section \<open>Scanning a body\<close>

text \<open>
  The \<open>scan_*\<close> methods as functions from analyzers to analyzers. The \<open>captures\<close> of a closure are
  scanned as expressions \<open>Local\<close>, which does nothing.
\<close>

function (sequential) scan_block :: "tblock \<Rightarrow> analyzer \<Rightarrow> analyzer"
  and scan_stmt :: "tstmt \<Rightarrow> analyzer \<Rightarrow> analyzer"
  and scan_for_clause :: "tfor_init \<Rightarrow> analyzer \<Rightarrow> analyzer"
  and scan_closure_body :: "tclosure_body \<Rightarrow> analyzer \<Rightarrow> analyzer"
  and scan_expr :: "texpr \<Rightarrow> analyzer \<Rightarrow> analyzer" where
  "scan_block (TBlock _ statements) = (\<lambda>an. fold (\<lambda>stmt. scan_stmt stmt) statements an)"
| "scan_stmt (TStmt _ (TSK_Block block)) = scan_block block"
| "scan_stmt (TStmt _ (TSK_VarDecl _ _ local_id init)) = (\<lambda>an.
     case init of
       Some init \<Rightarrow> update_alias local_id init (scan_expr init an)
     | None \<Rightarrow> remove_alias local_id an)"
| "scan_stmt (TStmt _ (TSK_Assign target val)) = (\<lambda>an.
     assign_effect target val (scan_expr val (scan_expr target an)))"
| "scan_stmt (TStmt _ (TSK_If cond then_block else_branch)) = (\<lambda>an.
     let an = scan_block then_block (scan_expr cond an)
     in case else_branch of Some else_branch \<Rightarrow> scan_stmt else_branch an | None \<Rightarrow> an)"
| "scan_stmt (TStmt _ (TSK_While cond body)) = (\<lambda>an. scan_block body (scan_expr cond an))"
| "scan_stmt (TStmt _ (TSK_For init cond step body)) = (\<lambda>an.
     let an = (case init of Some init \<Rightarrow> scan_for_clause init an | None \<Rightarrow> an);
         an = (case cond of Some cond \<Rightarrow> scan_expr cond an | None \<Rightarrow> an);
         an = (case step of Some step \<Rightarrow> scan_for_clause step an | None \<Rightarrow> an)
     in scan_block body an)"
| "scan_stmt (TStmt _ (TSK_Switch expr _ cases _ default_stmts _)) = (\<lambda>an.
     let an = scan_expr expr an;
         sources = collect_storage_sources an expr [];
         an = fold (\<lambda>clause an. fold (\<lambda>stmt. scan_stmt stmt) (tcase_statements clause)
                (update_pattern_aliases (tcase_pattern clause) sources an)) cases an
     in fold (\<lambda>stmt. scan_stmt stmt) default_stmts an)"
| "scan_stmt (TStmt _ (TSK_Defer expr)) = scan_expr expr"
| "scan_stmt (TStmt _ (TSK_ResourceCleanup expr)) = scan_expr expr"
| "scan_stmt (TStmt _ (TSK_Expr expr)) = scan_expr expr"
| "scan_stmt (TStmt _ (TSK_Return expr)) = (\<lambda>an.
     case expr of Some expr \<Rightarrow> escape_sources expr (scan_expr expr an) | None \<Rightarrow> an)"
| "scan_stmt _ = (\<lambda>an. an)"
| "scan_for_clause (TFI_VarDecl _ _ local_id init) = (\<lambda>an.
     case init of
       Some init \<Rightarrow> update_alias local_id init (scan_expr init an)
     | None \<Rightarrow> remove_alias local_id an)"
| "scan_for_clause (TFI_Assign target val) = (\<lambda>an.
     assign_effect target val (scan_expr val (scan_expr target an)))"
| "scan_for_clause (TFI_Expr expr) = scan_expr expr"
| "scan_closure_body (TCB_Expr expr) = scan_expr expr"
| "scan_closure_body (TCB_Block block) = scan_block block"
| "scan_expr (TExpr _ _ (TEK_Move expr)) = scan_expr expr"
| "scan_expr (TExpr _ _ (TEK_Unary _ expr)) = scan_expr expr"
| "scan_expr (TExpr _ _ (TEK_Cast expr _)) = scan_expr expr"
| "scan_expr (TExpr _ _ (TEK_Try expr _)) = scan_expr expr"
| "scan_expr (TExpr _ _ (TEK_Await future)) = scan_expr future"
| "scan_expr (TExpr _ _ (TEK_AsyncBlockOn future)) = scan_expr future"
| "scan_expr (TExpr _ _ (TEK_AsyncSelect _ arms)) = (\<lambda>an.
     fold (\<lambda>arm an. scan_expr (arm_body arm) (scan_expr (arm_future arm) an)) arms an)"
| "scan_expr (TExpr _ _ (TEK_AsyncSleep ms _)) = scan_expr ms"
| "scan_expr (TExpr _ _ (TEK_AsyncSpawn body _ _)) = scan_expr body"
| "scan_expr (TExpr _ _ (TEK_AsyncTaskCancel task _ _)) = scan_expr task"
| "scan_expr (TExpr _ _ (TEK_AsyncTaskIsFinished task _ _)) = scan_expr task"
| "scan_expr (TExpr _ _ (TEK_Binary _ left right)) = (\<lambda>an. scan_expr right (scan_expr left an))"
| "scan_expr (TExpr _ _ (TEK_Call callee args)) = (\<lambda>an.
     apply_call_escape callee args (fold (\<lambda>arg. scan_expr arg) args (scan_expr callee an)))"
| "scan_expr (TExpr _ _ (TEK_UnsafeBlock statements val)) = (\<lambda>an.
     let an = fold (\<lambda>stmt. scan_stmt stmt) statements an
     in case val of Some val \<Rightarrow> scan_expr val an | None \<Rightarrow> an)"
| "scan_expr (TExpr sp _ (TEK_Closure _ _ _ captures body _)) = (\<lambda>an.
     scan_closure_body body (fold (\<lambda>capture. scan_expr
       (TExpr sp (tcc_ty capture) (TEK_Local (tcc_local_id capture) (tcc_name capture)))) captures an))"
| "scan_expr (TExpr _ _ (TEK_FunctionToClosure inner)) = scan_expr inner"
| "scan_expr (TExpr _ _ (TEK_RetainClosure inner _)) = scan_expr inner"
| "scan_expr (TExpr _ _ (TEK_SliceToConst inner)) = scan_expr inner"
| "scan_expr (TExpr _ _ (TEK_ArrayToSlice expr)) = scan_expr expr"
| "scan_expr (TExpr _ _ (TEK_RawSliceFromPtr ptr len _)) = (\<lambda>an. scan_expr len (scan_expr ptr an))"
| "scan_expr (TExpr _ _ (TEK_MakeDynamicInterface expr _)) = (\<lambda>an.
     escape_sources expr (scan_expr expr an))"
| "scan_expr (TExpr _ _ (TEK_ErrorBox expr _)) = (\<lambda>an. escape_sources expr (scan_expr expr an))"
| "scan_expr (TExpr _ _ (TEK_ReportBox expr _)) = (\<lambda>an. escape_sources expr (scan_expr expr an))"
| "scan_expr (TExpr _ _ (TEK_DynamicInterfaceCall _ _ receiver args)) = (\<lambda>an.
     fold (\<lambda>arg an. escape_sources arg (scan_expr arg an)) args
       (escape_sources receiver (scan_expr receiver an)))"
| "scan_expr (TExpr _ _ (TEK_RetainedClosureInterfaceCall _ _ _ receiver args)) = (\<lambda>an.
     fold (\<lambda>arg an. escape_sources arg (scan_expr arg an)) args
       (escape_sources receiver (scan_expr receiver an)))"
| "scan_expr (TExpr _ _ (TEK_CloneMessage val _)) = (\<lambda>an. escape_sources val (scan_expr val an))"
| "scan_expr (TExpr _ _ (TEK_Field base _)) = scan_expr base"
| "scan_expr (TExpr _ _ (TEK_Arrow base _)) = scan_expr base"
| "scan_expr (TExpr _ _ (TEK_Index base index)) = (\<lambda>an. scan_expr index (scan_expr base an))"
| "scan_expr (TExpr _ _ (TEK_Slice base from to)) = (\<lambda>an.
     let an = scan_expr base an;
         an = (case from of Some from \<Rightarrow> scan_expr from an | None \<Rightarrow> an)
     in case to of Some to \<Rightarrow> scan_expr to an | None \<Rightarrow> an)"
| "scan_expr (TExpr _ _ (TEK_MetaIntoRepr val _)) = scan_expr val"
| "scan_expr (TExpr _ _ (TEK_MetaFromRepr val _)) = scan_expr val"
| "scan_expr (TExpr _ _ (TEK_MetaAsRefRepr val _)) = (\<lambda>an. escape_sources val (scan_expr val an))"
| "scan_expr (TExpr _ _ (TEK_ActorSpawn _ state_arg handler _ _ _ _)) = (\<lambda>an.
     scan_expr handler (scan_expr state_arg an))"
| "scan_expr (TExpr _ _ (TEK_ActorSend actor val _)) = (\<lambda>an. scan_expr val (scan_expr actor an))"
| "scan_expr (TExpr _ _ (TEK_ActorStop actor _)) = scan_expr actor"
| "scan_expr (TExpr _ _ (TEK_ActorJoin actor _)) = scan_expr actor"
| "scan_expr (TExpr _ _ (TEK_StructLiteral _ field_inits)) = (\<lambda>an.
     fold (\<lambda>field_init. scan_expr (snd field_init)) field_inits an)"
| "scan_expr (TExpr _ _ (TEK_ArrayLiteral elements)) = (\<lambda>an.
     fold (\<lambda>element. scan_expr element) elements an)"
| "scan_expr (TExpr _ _ (TEK_ArrayRepeat element _)) = scan_expr element"
| "scan_expr (TExpr _ _ (TEK_EnumLiteral _ _ _ payload)) = (\<lambda>an.
     fold (\<lambda>val. scan_expr val) payload an)"
| "scan_expr _ = (\<lambda>an. an)"
  by pat_completeness auto
termination
  by (relation "measure (case_sum (case_sum (size_tblock_of size) size)
        (case_sum (size_tfor_init_of size) (case_sum (size_tclosure_body_of size size) size)))")
     (auto dest: size_members)

section \<open>Functions and programs\<close>

text \<open>Collecting pairs into a \<open>HashMap\<close>: a later entry replaces an earlier one with the same key.\<close>

definition collect_map :: "('k \<times> 'v) list \<Rightarrow> 'k \<rightharpoonup> 'v" where
  "collect_map entries = map_of (rev entries)"

definition local_to_param :: "checked_function \<Rightarrow> local_id \<rightharpoonup> nat" where
  "local_to_param function =
     collect_map (List.map_filter (\<lambda>(idx, (local_id, _, _, _)). map_option (\<lambda>i. (i, idx)) local_id)
       (enumerate 0 (cf_params function)))"

definition analyze_function ::
    "checked_function \<Rightarrow> (def_id \<rightharpoonup> checked_function) \<Rightarrow> (def_id \<rightharpoonup> function_escape) \<Rightarrow> function_escape" where
  "analyze_function function functions summaries =
     (let an = \<lparr>an_functions = functions, an_summaries = summaries,
                an_escape = function_escape_default, an_local_to_param = local_to_param function,
                an_aliases = Map.empty\<rparr>
      in an_escape (case cf_body function of Some body \<Rightarrow> scan_block body an | None \<Rightarrow> an))"

definition initial_summary :: "checked_function \<Rightarrow> function_escape" where
  "initial_summary function =
     (if cf_body function = None then extern_escape_summary function else function_escape_default)"

text \<open>One pass of the loop over the functions; \<open>entry(..).or_default()\<close> adds a missing summary.\<close>

definition analyze_step ::
    "(def_id \<rightharpoonup> checked_function) \<Rightarrow> checked_function \<Rightarrow> (def_id \<rightharpoonup> function_escape) \<times> bool \<Rightarrow>
      (def_id \<rightharpoonup> function_escape) \<times> bool" where
  "analyze_step functions function sc =
     (case sc of (summaries, changed) \<Rightarrow>
        if cf_body function = None then (summaries, changed)
        else let next = analyze_function function functions summaries;
                 entry = (case summaries (cf_def_id function) of
                     Some entry \<Rightarrow> entry | None \<Rightarrow> function_escape_default)
             in if entry \<noteq> next then (summaries(cf_def_id function \<mapsto> next), True)
                else (summaries(cf_def_id function \<mapsto> entry), changed))"

definition analyze_round ::
    "checked_function list \<Rightarrow> (def_id \<rightharpoonup> checked_function) \<Rightarrow> (def_id \<rightharpoonup> function_escape) \<Rightarrow>
      (def_id \<rightharpoonup> function_escape) \<times> bool" where
  "analyze_round fs functions summaries = fold (analyze_step functions) fs (summaries, False)"

definition analyze_escapes :: "checked_function list \<Rightarrow> (def_id \<rightharpoonup> function_escape) option" where
  "analyze_escapes fs =
     (let functions = collect_map (map (\<lambda>function. (cf_def_id function, function)) fs);
          summaries = collect_map (map (\<lambda>function. (cf_def_id function, initial_summary function)) fs)
      in map_option fst
           (while_option snd (\<lambda>(summaries, _). analyze_round fs functions summaries) (summaries, True)))"

end
