(* ===== verification/Ciel_Escape_Facts.thy ===== *)
theory Ciel_Escape_Facts
  imports Ciel_Escape
begin

text \<open>
  What the escape analysis guarantees: a relation kept by the primitive operations of the analyzer is
  kept by the whole scan (\<open>scan_relation\<close>); from its instances follow that summaries are monotone and
  well formed and that the whole-program loop ends in the least solution.
\<close>

section \<open>Relations kept by a scan\<close>

lemma fold_ignore [simp]: "fold (\<lambda>_ an. an) xs an = an"
  by (induction xs) simp_all

locale scan_relation =
  fixes R :: "analyzer \<Rightarrow> analyzer \<Rightarrow> bool"
    and source_ok :: "storage_source \<Rightarrow> bool"
  assumes sources_eq: "R an an' \<Longrightarrow> collect_storage_sources an e [] = collect_storage_sources an' e []"
    and sources_ok: "R an an' \<Longrightarrow> list_all source_ok (collect_storage_sources an e [])"
    and escape_sources_R: "R an an' \<Longrightarrow> R (escape_sources e an) (escape_sources e an')"
    and insert_alias_R:
      "R an an' \<Longrightarrow> list_all source_ok sources \<Longrightarrow> R (insert_alias i sources an) (insert_alias i sources an')"
    and remove_alias_R: "R an an' \<Longrightarrow> R (remove_alias i an) (remove_alias i an')"
    and apply_call_R: "R an an' \<Longrightarrow> R (apply_call_escape callee args an) (apply_call_escape callee args an')"
begin

lemma storage_sources_eq: "R an an' \<Longrightarrow> storage_sources an e = storage_sources an' e"
  by (simp add: storage_sources_def sources_eq)

lemma storage_sources_ok: "R an an' \<Longrightarrow> list_all source_ok (storage_sources an e)"
  using sources_ok [of an an' e] by (simp add: storage_sources_def list_all_iff)

lemma update_alias_R: "R an an' \<Longrightarrow> R (update_alias i e an) (update_alias i e an')"
  using storage_sources_ok [of an an' e]
  by (simp add: update_alias_def Let_def storage_sources_eq remove_alias_R insert_alias_R)

lemma assign_effect_R: "R an an' \<Longrightarrow> R (assign_effect t e an) (assign_effect t e an')"
  by (simp add: assign_effect_def update_alias_R escape_sources_R split: option.split)

lemma fold_R:
  assumes "\<And>x u u'. x \<in> set xs \<Longrightarrow> R u u' \<Longrightarrow> R (f x u) (f x u')" and "R an an'"
  shows "R (fold f xs an) (fold f xs an')"
  using assms by (induction xs arbitrary: an an') simp_all

lemma update_pattern_aliases_R:
  "list_all source_ok sources \<Longrightarrow> R an an' \<Longrightarrow>
     R (update_pattern_aliases p sources an) (update_pattern_aliases p sources an')"
  by (induction p arbitrary: an an') (auto simp: insert_alias_R remove_alias_R intro!: fold_R)

lemma scan_R:
  shows "R an an' \<Longrightarrow> R (scan_block b an) (scan_block b an')"
    and "R an an' \<Longrightarrow> R (scan_stmt s an) (scan_stmt s an')"
    and "R an an' \<Longrightarrow> R (scan_for_clause i an) (scan_for_clause i an')"
    and "R an an' \<Longrightarrow> R (scan_closure_body c an) (scan_closure_body c an')"
    and "R an an' \<Longrightarrow> R (scan_expr e an) (scan_expr e an')"
proof (induction b and s and i and c and e arbitrary: an an' and an an' and an an' and an an' and an an'
    rule: scan_block_scan_stmt_scan_for_clause_scan_closure_body_scan_expr.induct)
  case (8 sp expr n cases d default_stmts f)
  let ?src = "collect_storage_sources (scan_expr expr an) expr []"
  have expr: "R (scan_expr expr an) (scan_expr expr an')" by (rule 8(1) [OF 8(4)])
  have clause: "R (fold scan_stmt (tcase_statements c) (update_pattern_aliases (tcase_pattern c) ?src u))
      (fold scan_stmt (tcase_statements c) (update_pattern_aliases (tcase_pattern c) ?src u'))"
    if "c \<in> set cases" "R u u'" for c u u'
    by (rule fold_R) (rule 8(2) [OF refl refl that(1)],
      auto intro: update_pattern_aliases_R sources_ok [OF expr] that(2))
  have rest: "R (scan_stmt x u) (scan_stmt x u')" if "x \<in> set default_stmts" "R u u'" for x u u'
    by (rule 8(3) [OF refl refl refl that])
  have "R (fold scan_stmt default_stmts (fold (\<lambda>clause an. fold scan_stmt (tcase_statements clause)
        (update_pattern_aliases (tcase_pattern clause) ?src an)) cases (scan_expr expr an)))
      (fold scan_stmt default_stmts (fold (\<lambda>clause an. fold scan_stmt (tcase_statements clause)
        (update_pattern_aliases (tcase_pattern clause) ?src an)) cases (scan_expr expr an')))"
    by (intro fold_R rest clause expr)
  then show ?case using sources_eq [OF expr] by (simp add: Let_def)
next
  case (32 sp t statements val)
  have "R (fold scan_stmt statements an) (fold scan_stmt statements an')"
    using 32 by (intro fold_R) blast+
  then show ?case using 32(2) by (auto simp: Let_def split: option.split)
qed (auto simp: Let_def escape_sources_R update_alias_R assign_effect_R remove_alias_R fold_ignore
    split: option.split intro!: fold_R apply_call_R)

end

section \<open>Primitive operations\<close>

lemma collect_storage_sources_cong:
  assumes "an_aliases an = an_aliases an'" and "an_local_to_param an = an_local_to_param an'"
  shows "collect_storage_sources an e out = collect_storage_sources an' e out"
  using assms
  by (induction an e out rule: collect_storage_sources.induct)
     (auto simp: local_storage_def split: option.split intro!: List.fold_cong)

definition add_sources :: "storage_source set \<Rightarrow> function_escape \<Rightarrow> function_escape" where
  "add_sources S esc = \<lparr>heap_locals = heap_locals esc \<union> {l. Src_Local l \<in> S},
     escaping_params = escaping_params esc \<union> {p. Src_Param p \<in> S}\<rparr>"

lemma add_sources_empty [simp]: "add_sources {} esc = esc"
  by (simp add: add_sources_def)

lemma add_sources_union: "add_sources S (add_sources T esc) = add_sources (T \<union> S) esc"
  by (auto simp: add_sources_def)

lemma insert_source_add: "insert_source x esc = add_sources {x} esc"
  by (cases x) (auto simp: add_sources_def)

lemma fold_insert_source: "fold insert_source xs esc = add_sources (set xs) esc"
  by (induction xs arbitrary: esc) (auto simp: insert_source_add add_sources_union)

lemma escape_sources_add:
  "escape_sources e an = an\<lparr>an_escape := add_sources (set (storage_sources an e)) (an_escape an)\<rparr>"
  by (simp add: escape_sources_def fold_insert_source)

lemma storage_sources_escape [simp]:
  "storage_sources (an\<lparr>an_escape := esc\<rparr>) e = storage_sources an e"
  unfolding storage_sources_def by (subst collect_storage_sources_cong [where an' = an]) simp_all

lemma fold_escape_sources:
  "fold (\<lambda>x. escape_sources (g x)) xs an =
     an\<lparr>an_escape := add_sources (\<Union>x \<in> set xs. set (storage_sources an (g x))) (an_escape an)\<rparr>"
  by (induction xs arbitrary: an) (simp_all add: escape_sources_add add_sources_union)

lemma escape_pointer_args_add:
  "escape_pointer_args args an = an\<lparr>an_escape := add_sources
     (\<Union>arg \<in> {arg \<in> set args. ty_can_carry_pointer (texpr_ty arg)}. set (storage_sources an arg)) (an_escape an)\<rparr>"
proof -
  have "escape_pointer_args args an = fold escape_sources (filter (\<lambda>arg. ty_can_carry_pointer (texpr_ty arg)) args) an"
    unfolding escape_pointer_args_def by (induction args arbitrary: an) auto
  then show ?thesis using fold_escape_sources [of "\<lambda>x. x"] by simp
qed

text \<open>The parameters a call lets escape, by the summary in force.\<close>

definition call_params :: "(def_id \<rightharpoonup> function_escape) \<Rightarrow> def_id \<Rightarrow> checked_function \<Rightarrow> nat set" where
  "call_params summaries d f = escaping_params
     (case summaries d of Some summary \<Rightarrow> summary | None \<Rightarrow> extern_escape_summary f)"

definition call_sources :: "texpr \<Rightarrow> texpr list \<Rightarrow> analyzer \<Rightarrow> storage_source set" where
  "call_sources callee args an =
     (let pointers = (\<Union>arg \<in> {arg \<in> set args. ty_can_carry_pointer (texpr_ty arg)}. set (storage_sources an arg))
      in case as_function callee of
        Some d \<Rightarrow>
          (case an_functions an d of
             None \<Rightarrow> pointers
           | Some f \<Rightarrow> (\<Union>i \<in> {i. i < length args \<and> i \<in> call_params (an_summaries an) d f}.
               set (storage_sources an (args ! i))))
      | None \<Rightarrow> pointers)"

lemma apply_call_escape_add:
  "apply_call_escape callee args an =
     an\<lparr>an_escape := add_sources (call_sources callee args an) (an_escape an)\<rparr>"
  by (simp add: apply_call_escape_def call_sources_def escape_pointer_args_add fold_escape_sources
      call_params_def Let_def split: option.split)

section \<open>Monotonicity\<close>

definition esc_le :: "function_escape \<Rightarrow> function_escape \<Rightarrow> bool" where
  "esc_le a b \<longleftrightarrow> heap_locals a \<subseteq> heap_locals b \<and> escaping_params a \<subseteq> escaping_params b"

lemma add_sources_mono: "S \<subseteq> T \<Longrightarrow> esc_le a b \<Longrightarrow> esc_le (add_sources S a) (add_sources T b)"
  by (auto simp: esc_le_def add_sources_def)

definition analyzer_le :: "analyzer \<Rightarrow> analyzer \<Rightarrow> bool" where
  "analyzer_le an an' \<longleftrightarrow>
     an_functions an = an_functions an' \<and> an_local_to_param an = an_local_to_param an' \<and>
     an_aliases an = an_aliases an' \<and> esc_le (an_escape an) (an_escape an') \<and>
     (\<forall>d f. an_functions an d = Some f \<longrightarrow>
       call_params (an_summaries an) d f \<subseteq> call_params (an_summaries an') d f)"

lemma analyzer_le_sources:
  "analyzer_le an an' \<Longrightarrow> storage_sources an e = storage_sources an' e"
  unfolding storage_sources_def by (subst collect_storage_sources_cong [where an' = an']) (auto simp: analyzer_le_def)

lemma call_sources_mono:
  assumes "analyzer_le an an'"
  shows "call_sources callee args an \<subseteq> call_sources callee args an'"
proof -
  have "an_functions an = an_functions an'"
    and "\<And>d f. an_functions an' d = Some f \<Longrightarrow>
      call_params (an_summaries an) d f \<subseteq> call_params (an_summaries an') d f"
    using assms by (auto simp: analyzer_le_def)
  then show ?thesis
    by (force simp: call_sources_def analyzer_le_sources [OF assms] Let_def
        split: option.split)
qed

interpretation mono: scan_relation analyzer_le "\<lambda>_. True"
proof
  fix an an' e assume le: "analyzer_le an an'"
  then show "collect_storage_sources an e [] = collect_storage_sources an' e []"
    by (intro collect_storage_sources_cong) (auto simp: analyzer_le_def)
  show "list_all (\<lambda>_. True) (collect_storage_sources an e [])" by (simp add: list_all_iff)
  show "analyzer_le (escape_sources e an) (escape_sources e an')"
    using le by (auto simp: escape_sources_add analyzer_le_sources [OF le] analyzer_le_def
        intro: add_sources_mono)
  show "analyzer_le (insert_alias i sources an) (insert_alias i sources an')" for i sources
    using le by (simp add: insert_alias_def analyzer_le_def)
  show "analyzer_le (remove_alias i an) (remove_alias i an')" for i
    using le by (simp add: remove_alias_def analyzer_le_def)
  show "analyzer_le (apply_call_escape callee args an) (apply_call_escape callee args an')" for callee args
    using le call_sources_mono [OF le, of callee args]
    by (simp add: apply_call_escape_add analyzer_le_def add_sources_mono)
qed

lemma analyze_function_mono:
  assumes "\<And>d f. functions d = Some f \<Longrightarrow> call_params s d f \<subseteq> call_params s' d f"
  shows "esc_le (analyze_function g functions s) (analyze_function g functions s')"
proof -
  let ?an = "\<lambda>s. \<lparr>an_functions = functions, an_summaries = s, an_escape = function_escape_default,
      an_local_to_param = local_to_param g, an_aliases = Map.empty\<rparr>"
  have "analyzer_le (?an s) (?an s')" using assms by (simp add: analyzer_le_def esc_le_def)
  then have "analyzer_le (case cf_body g of Some b \<Rightarrow> scan_block b (?an s) | None \<Rightarrow> ?an s)
      (case cf_body g of Some b \<Rightarrow> scan_block b (?an s') | None \<Rightarrow> ?an s')"
    by (auto intro: mono.scan_R(1) split: option.split)
  then show ?thesis by (simp add: analyze_function_def Let_def analyzer_le_def [of "case_option _ _ _"])
qed

section \<open>The whole program\<close>

definition finite_escape :: "function_escape \<Rightarrow> bool" where
  "finite_escape esc \<longleftrightarrow> finite (heap_locals esc) \<and> finite (escaping_params esc)"

lemma finite_add_sources: "finite S \<Longrightarrow> finite_escape esc \<Longrightarrow> finite_escape (add_sources S esc)"
proof -
  assume "finite S" and esc: "finite_escape esc"
  then have "finite (Src_Local -` S)" and "finite (Src_Param -` S)"
    by (auto intro!: finite_vimageI simp: inj_def)
  with esc show ?thesis by (simp add: finite_escape_def add_sources_def vimage_def)
qed

lemma finite_call_sources: "finite (call_sources callee args an)"
  by (simp add: call_sources_def Let_def split: option.split)

interpretation fin: scan_relation "\<lambda>an an'. an = an' \<and> finite_escape (an_escape an)" "\<lambda>_. True"
  by unfold_locales
    (auto simp: escape_sources_add insert_alias_def remove_alias_def apply_call_escape_add list_all_iff
      finite_call_sources intro!: finite_add_sources)

lemma analyze_function_finite: "finite_escape (analyze_function g functions s)"
proof -
  let ?an = "\<lparr>an_functions = functions, an_summaries = s, an_escape = function_escape_default,
      an_local_to_param = local_to_param g, an_aliases = Map.empty\<rparr>"
  have "finite_escape (an_escape ?an)" by (simp add: finite_escape_def function_escape_default_def)
  then have "finite_escape (an_escape (case cf_body g of Some b \<Rightarrow> scan_block b ?an | None \<Rightarrow> ?an))"
    using fin.scan_R(1) [of ?an ?an] by (simp split: option.split)
  then show ?thesis by (simp add: analyze_function_def Let_def)
qed

definition analyze_eq ::
    "(def_id \<rightharpoonup> checked_function) \<Rightarrow> checked_function \<Rightarrow> (def_id \<rightharpoonup> function_escape) \<Rightarrow> function_escape option" where
  "analyze_eq functions g s = Some (analyze_function g functions s)"

definition analyze_bound ::
    "(def_id \<rightharpoonup> checked_function) \<Rightarrow> checked_function \<Rightarrow> function_escape option" where
  "analyze_bound functions g =
     Some (analyze_function g functions (\<lambda>_. Some \<lparr>heap_locals = UNIV, escaping_params = UNIV\<rparr>))"

abbreviation summary_le :: "function_escape option \<Rightarrow> function_escape option \<Rightarrow> bool" where
  "summary_le \<equiv> rel_option esc_le"

lemma finite_esc_le: "finite_escape b \<Longrightarrow> finite {a. esc_le a b}"
proof (rule finite_subset)
  show "{a. esc_le a b} \<subseteq>
      (\<lambda>(h, p). \<lparr>heap_locals = h, escaping_params = p\<rparr>) ` (Pow (heap_locals b) \<times> Pow (escaping_params b))"
  proof
    fix a assume "a \<in> {a. esc_le a b}"
    then show "a \<in> (\<lambda>(h, p). \<lparr>heap_locals = h, escaping_params = p\<rparr>) ` (Pow (heap_locals b) \<times> Pow (escaping_params b))"
      by (intro image_eqI [of _ _ "(heap_locals a, escaping_params a)"]) (auto simp: esc_le_def)
  qed
qed (simp add: finite_escape_def)

interpretation escape: monotone_equations summary_le cf_def_id "analyze_eq prog"
    "analyze_bound prog" for prog
proof
  show "summary_le v v" for v
    by (simp add: esc_le_def option.rel_refl)
  show "summary_le u v \<Longrightarrow> summary_le v w \<Longrightarrow> summary_le u w" for u v w
    by (cases u; cases v; cases w) (auto simp: esc_le_def)
  show "summary_le u v \<Longrightarrow> summary_le v u \<Longrightarrow> u = v" for u v
    by (cases u; cases v) (auto simp: esc_le_def)
  show "summary_le (analyze_eq prog a s) (analyze_eq prog a s')"
    if "\<And>k. summary_le (s k) (s' k)" for s s' a
  proof -
    have "call_params s d f \<subseteq> call_params s' d f" for d f
      using that [of d] by (auto simp: call_params_def option_rel_Some1 option_rel_Some2 esc_le_def split: option.splits)
    then show ?thesis by (simp add: analyze_eq_def analyze_function_mono)
  qed
  show "summary_le (analyze_eq prog a s) (analyze_bound prog a)" for a s
    by (simp add: analyze_eq_def analyze_bound_def analyze_function_mono call_params_def)
  show "finite {v. summary_le v (analyze_bound prog a)}" for a
  proof (rule finite_subset)
    show "{v. summary_le v (analyze_bound prog a)} \<subseteq>
        Some ` {e. esc_le e (the (analyze_bound prog a))}"
      by (auto simp: analyze_bound_def option_rel_Some2)
  qed (simp add: analyze_bound_def finite_esc_le analyze_function_finite)
qed

text \<open>
  A solution gives every function of the program a summary: an extern one for functions without a
  body, for the others what analysing the body under these very summaries yields.
\<close>

definition program_functions :: "checked_function list \<Rightarrow> def_id \<rightharpoonup> checked_function" where
  "program_functions fs = collect_map (map (\<lambda>f. (cf_def_id f, f)) fs)"

definition escape_solution :: "checked_function list \<Rightarrow> (def_id \<rightharpoonup> function_escape) \<Rightarrow> bool" where
  "escape_solution fs s \<longleftrightarrow> dom s = cf_def_id ` set fs \<and>
     (\<forall>f \<in> set fs. s (cf_def_id f) = Some (if cf_body f = None then extern_escape_summary f
        else analyze_function f (program_functions fs) s))"

lemma collect_map_lookup:
  "distinct (map key xs) \<Longrightarrow> x \<in> set xs \<Longrightarrow> collect_map (map (\<lambda>x. (key x, g x)) xs) (key x) = Some (g x)"
  unfolding collect_map_def
  by (rule map_of_is_SomeI) (auto simp: rev_map [symmetric] comp_def distinct_rev)

lemma dom_collect_map: "dom (collect_map xs) = fst ` set xs"
  by (simp add: collect_map_def dom_map_of_conv_image_fst)

lemma analyze_step_update:
  assumes "cf_def_id ` set fs \<subseteq> dom s" and "f \<in> set fs" and "cf_body f \<noteq> None"
  shows "analyze_step prog f (s, c) = update_key cf_def_id (analyze_eq prog) f (s, c)"
proof -
  obtain e where "s (cf_def_id f) = Some e" using assms by blast
  then show ?thesis
    using assms(3) by (auto simp: analyze_step_def update_key_pair analyze_eq_def Let_def fun_upd_idem)
qed

lemma analyze_step_dom: "dom s \<subseteq> dom (fst (analyze_step prog f (s, c)))"
  by (auto simp: analyze_step_def Let_def)

lemma analyze_fold:
  assumes "cf_def_id ` set fs \<subseteq> dom s" and "set gs \<subseteq> set fs"
  shows "fold (analyze_step prog) gs (s, c) =
      fold (update_key cf_def_id (analyze_eq prog)) [g \<leftarrow> gs. cf_body g \<noteq> None] (s, c) \<and>
    cf_def_id ` set fs \<subseteq> dom (fst (fold (analyze_step prog) gs (s, c)))"
  using assms
proof (induction gs arbitrary: s c)
  case (Cons g gs)
  obtain s' c' where step: "analyze_step prog g (s, c) = (s', c')" by force
  have "cf_def_id ` set fs \<subseteq> dom s'"
    using analyze_step_dom [of s prog g c] Cons.prems(1) step by auto
  moreover have "fold (update_key cf_def_id (analyze_eq prog)) [g \<leftarrow> [g]. cf_body g \<noteq> None] (s, c) = (s', c')"
  proof (cases "cf_body g = None")
    case True
    with step show ?thesis by (simp add: analyze_step_def)
  next
    case False
    with step analyze_step_update [OF Cons.prems(1) _ False, of prog c] Cons.prems(2) show ?thesis by simp
  qed
  ultimately show ?case using Cons.IH [of s' c'] Cons.prems(2) step
    by (cases "cf_body g = None") auto
qed simp

lemma analyze_escapes_iterate:
  assumes "distinct (map cf_def_id fs)"
  shows "analyze_escapes fs = iterate_rounds cf_def_id (analyze_eq (program_functions fs))
    [f \<leftarrow> fs. cf_body f \<noteq> None] (collect_map (map (\<lambda>f. (cf_def_id f, initial_summary f)) fs))"
proof -
  let ?s = "collect_map (map (\<lambda>f. (cf_def_id f, initial_summary f)) fs)"
  have dom: "cf_def_id ` set fs \<subseteq> dom ?s" by (auto simp: dom_collect_map image_comp)
  have "while_option snd (\<lambda>(s, _). analyze_round fs (program_functions fs) s) (?s, True) =
    while_option snd (\<lambda>(s, _). iterate_round cf_def_id (analyze_eq (program_functions fs))
      [f \<leftarrow> fs. cf_body f \<noteq> None] s) (?s, True)"
  proof (rule while_option_cong_inv [where I = "\<lambda>p. cf_def_id ` set fs \<subseteq> dom (fst p)"])
    show "cf_def_id ` set fs \<subseteq> dom (fst (?s, True))" using dom by simp
  next
    fix p :: "(def_id \<rightharpoonup> function_escape) \<times> bool"
    assume p: "cf_def_id ` set fs \<subseteq> dom (fst p)"
    note fold = analyze_fold [OF p subset_refl, of "program_functions fs" False]
    show "(case p of (s, _) \<Rightarrow> analyze_round fs (program_functions fs) s) =
        (case p of (s, _) \<Rightarrow> iterate_round cf_def_id (analyze_eq (program_functions fs))
          [f \<leftarrow> fs. cf_body f \<noteq> None] s)"
      using fold [THEN conjunct1] by (simp only: analyze_round_def iterate_round_def case_prod_beta)
    show "cf_def_id ` set fs \<subseteq> dom (fst (case p of (s, _) \<Rightarrow> analyze_round fs (program_functions fs) s))"
      using fold [THEN conjunct2] by (simp only: analyze_round_def case_prod_beta)
  qed
  then show ?thesis
    by (simp add: analyze_escapes_def iterate_rounds_def program_functions_def Let_def)
qed

lemma iterate_keeps_other_keys:
  assumes "iterate_rounds key step eqs s = Some s'" and "k \<notin> key ` set eqs"
  shows "s' k = s k"
proof -
  obtain c where res: "while_option snd (\<lambda>(s, _). iterate_round key step eqs s) (s, True) = Some (s', c)"
    using assms(1) by (auto simp: iterate_rounds_def)
  have "fst (fold (update_key key step) as (u, c)) k = u k" if "set as \<subseteq> set eqs" for as u c
    using that assms(2) by (induction as arbitrary: u c) (auto simp: update_key_pair)
  then have "fst (iterate_round key step eqs u) k = u k" for u
    by (simp add: iterate_round_def)
  with while_option_rule [of "\<lambda>p. fst p k = s k", OF _ res] show ?thesis
    by (auto simp: case_prod_beta)
qed

text \<open>The initial summaries, and what the limit of the rounds has to do with them.\<close>

definition initial_summaries :: "checked_function list \<Rightarrow> (def_id \<rightharpoonup> function_escape)" where
  "initial_summaries fs = collect_map (map (\<lambda>f. (cf_def_id f, initial_summary f)) fs)"

abbreviation with_body :: "checked_function list \<Rightarrow> checked_function list" where
  "with_body fs \<equiv> [f \<leftarrow> fs. cf_body f \<noteq> None]"

lemma initial_summaries_lookup:
  "distinct (map cf_def_id fs) \<Longrightarrow> f \<in> set fs \<Longrightarrow> initial_summaries fs (cf_def_id f) = Some (initial_summary f)"
  unfolding initial_summaries_def by (rule collect_map_lookup)

lemma dom_initial_summaries: "dom (initial_summaries fs) = cf_def_id ` set fs"
  by (auto simp: initial_summaries_def dom_collect_map image_comp)

lemma initial_summaries_ascending:
  assumes "distinct (map cf_def_id fs)"
  shows "escape.ascending (program_functions fs) (with_body fs) (initial_summaries fs)"
  by (auto simp: escape.ascending_def initial_summaries_lookup [OF assms] analyze_eq_def initial_summary_def esc_le_def
      function_escape_default_def)

lemma extern_not_with_body:
  assumes "distinct (map cf_def_id fs)" and "f \<in> set fs" and "cf_body f = None"
  shows "cf_def_id f \<notin> cf_def_id ` set (with_body fs)"
proof
  assume "cf_def_id f \<in> cf_def_id ` set (with_body fs)"
  then obtain g where g: "g \<in> set fs" "cf_body g \<noteq> None" "cf_def_id f = cf_def_id g" by auto
  then have "f = g" using inj_onD [of cf_def_id "set fs" f g] assms(1,2) by (simp add: distinct_map)
  with g(2) assms(3) show False by simp
qed

lemma rounds_solution:
  assumes distinct: "distinct (map cf_def_id fs)"
    and sol: "\<forall>f \<in> set (with_body fs). s (cf_def_id f) = analyze_eq (program_functions fs) f s"
    and other: "\<And>k. k \<notin> cf_def_id ` set (with_body fs) \<Longrightarrow> s k = initial_summaries fs k"
  shows "escape_solution fs s"
proof -
  have extern: "s (cf_def_id f) = Some (extern_escape_summary f)" if "f \<in> set fs" "cf_body f = None" for f
    using other [OF extern_not_with_body [OF distinct that]] initial_summaries_lookup [OF distinct that(1)] that(2)
    by (simp add: initial_summary_def)
  have "k \<in> dom s \<longleftrightarrow> k \<in> cf_def_id ` set fs" for k
  proof (cases "k \<in> cf_def_id ` set (with_body fs)")
    case True
    then have "s k \<noteq> None" using sol by (auto simp: analyze_eq_def)
    then show ?thesis using True by (auto simp: domIff)
  next
    case False
    have "k \<in> dom s \<longleftrightarrow> k \<in> dom (initial_summaries fs)" using other [OF False] by (simp add: domIff)
    then show ?thesis by (simp only: dom_initial_summaries)
  qed
  then have "dom s = cf_def_id ` set fs" by blast
  then show ?thesis using sol extern by (simp add: escape_solution_def analyze_eq_def)
qed

lemma initial_summaries_below:
  assumes "distinct (map cf_def_id fs)" and t: "escape_solution fs t"
  shows "escape.below (initial_summaries fs) t"
  unfolding escape.below_def
proof
  fix k
  show "summary_le (initial_summaries fs k) (t k)"
  proof (cases "k \<in> cf_def_id ` set fs")
    case True
    then show ?thesis using t initial_summaries_lookup [OF assms(1)]
      by (auto simp: escape_solution_def initial_summary_def esc_le_def function_escape_default_def)
  next
    case False
    then have "k \<notin> dom (initial_summaries fs)" and "t k = None"
      using t by (auto simp: escape_solution_def dom_initial_summaries)
    then show ?thesis by (simp add: domIff)
  qed
qed

text \<open>
  C3: the whole-program escape analysis ends, whatever the call graph, and its summaries are the least
  solution of the equations between the summaries of functions: each summary is what analysing the
  body under all summaries gives, and no smaller summaries are consistent.
\<close>

theorem analyze_escapes_least:
  assumes "distinct (map cf_def_id fs)"
  shows "\<exists>s. analyze_escapes fs = Some s \<and> escape_solution fs s \<and>
    (\<forall>t. escape_solution fs t \<longrightarrow> (\<forall>d. summary_le (s d) (t d)))"
proof -
  let ?prog = "program_functions fs" and ?s0 = "initial_summaries fs"
  have "distinct (map cf_def_id (with_body fs))" using assms by (rule distinct_map_filter)
  from escape.iterate_rounds_least [OF this initial_summaries_ascending [OF assms]]
  obtain s where s: "iterate_rounds cf_def_id (analyze_eq ?prog) (with_body fs) ?s0 = Some s"
    and sol: "\<forall>f \<in> set (with_body fs). s (cf_def_id f) = analyze_eq ?prog f s"
    and least: "\<forall>t. escape.below ?s0 t \<longrightarrow>
      (\<forall>f \<in> set (with_body fs). summary_le (analyze_eq ?prog f t) (t (cf_def_id f))) \<longrightarrow> escape.below s t"
    by blast
  have "escape_solution fs s" by (rule rounds_solution [OF assms sol iterate_keeps_other_keys [OF s]])
  moreover have "summary_le (s k) (t k)" if t: "escape_solution fs t" for t k
  proof -
    have "\<forall>f \<in> set (with_body fs). summary_le (analyze_eq ?prog f t) (t (cf_def_id f))"
      using t by (auto simp: escape_solution_def analyze_eq_def esc_le_def)
    then have "escape.below s t" using least initial_summaries_below [OF assms t] by blast
    then show ?thesis by (simp add: escape.below_def)
  qed
  moreover have "analyze_escapes fs = Some s"
    unfolding analyze_escapes_iterate [OF assms] using s by (simp only: initial_summaries_def)
  ultimately show ?thesis by blast
qed

section \<open>Well-formed summaries\<close>

fun source_wf :: "(local_id \<rightharpoonup> nat) \<Rightarrow> storage_source \<Rightarrow> bool" where
  "source_wf l2p (Src_Local i) \<longleftrightarrow> l2p i = None"
| "source_wf l2p (Src_Param p) \<longleftrightarrow> p \<in> ran l2p"

definition analyzer_wf :: "(local_id \<rightharpoonup> nat) \<Rightarrow> analyzer \<Rightarrow> bool" where
  "analyzer_wf l2p an \<longleftrightarrow> an_local_to_param an = l2p \<and>
     (\<forall>sources \<in> ran (an_aliases an). list_all (source_wf l2p) sources) \<and>
     heap_locals (an_escape an) \<inter> dom l2p = {} \<and> escaping_params (an_escape an) \<subseteq> ran l2p"

lemma local_storage_wf: "an_local_to_param an = l2p \<Longrightarrow> source_wf l2p (local_storage an i)"
  by (auto simp: local_storage_def ran_def split: option.split)

lemma list_all_fold:
  "list_all P out \<Longrightarrow> (\<And>x out. x \<in> set xs \<Longrightarrow> list_all P out \<Longrightarrow> list_all P (f x out)) \<Longrightarrow>
     list_all P (fold f xs out)"
  by (induction xs arbitrary: out) auto

lemma collect_storage_sources_wf:
  assumes "analyzer_wf l2p an" and "list_all (source_wf l2p) out"
  shows "list_all (source_wf l2p) (collect_storage_sources an e out)"
  using assms
proof (induction an e out rule: collect_storage_sources.induct)
  case (7 an sp t i n out)
  then show ?case by (auto simp: analyzer_wf_def ran_def split: option.split)
qed (auto simp: analyzer_wf_def local_storage_wf ranI split: option.split intro!: list_all_fold)

lemma add_sources_wf:
  assumes "\<forall>x \<in> S. source_wf l2p x" and "heap_locals esc \<inter> dom l2p = {}" and "escaping_params esc \<subseteq> ran l2p"
  shows "heap_locals (add_sources S esc) \<inter> dom l2p = {} \<and> escaping_params (add_sources S esc) \<subseteq> ran l2p"
  using assms by (fastforce simp: add_sources_def)

lemma storage_sources_wf: "analyzer_wf l2p an \<Longrightarrow> x \<in> set (storage_sources an e) \<Longrightarrow> source_wf l2p x"
  using collect_storage_sources_wf [of l2p an "[]" e] by (simp add: storage_sources_def list_all_iff)

lemma call_sources_wf: "analyzer_wf l2p an \<Longrightarrow> x \<in> call_sources callee args an \<Longrightarrow> source_wf l2p x"
  by (auto simp: call_sources_def Let_def intro: storage_sources_wf split: option.splits)

lemma analyzer_wf_escape:
  "analyzer_wf l2p an \<Longrightarrow> (\<And>x. x \<in> S \<Longrightarrow> source_wf l2p x) \<Longrightarrow>
     analyzer_wf l2p (an\<lparr>an_escape := add_sources S (an_escape an)\<rparr>)"
  using add_sources_wf [of S l2p "an_escape an"] by (simp add: analyzer_wf_def)

interpretation wf: scan_relation "\<lambda>an an'. an = an' \<and> analyzer_wf l2p an" "source_wf l2p" for l2p
proof
  fix an an' e callee args i sources assume "an = an' \<and> analyzer_wf l2p an"
  then have eq: "an' = an" and wf: "analyzer_wf l2p an" by auto
  show "collect_storage_sources an e [] = collect_storage_sources an' e []" by (simp add: eq)
  show "list_all (source_wf l2p) (collect_storage_sources an e [])"
    by (simp add: collect_storage_sources_wf [OF wf])
  show "escape_sources e an = escape_sources e an' \<and> analyzer_wf l2p (escape_sources e an)"
    using analyzer_wf_escape [OF wf storage_sources_wf [OF wf]] by (simp add: eq escape_sources_add)
  show "apply_call_escape callee args an = apply_call_escape callee args an' \<and>
      analyzer_wf l2p (apply_call_escape callee args an)"
    using analyzer_wf_escape [OF wf call_sources_wf [OF wf]] by (simp add: eq apply_call_escape_add)
  show "remove_alias i an = remove_alias i an' \<and> analyzer_wf l2p (remove_alias i an)"
    using wf by (auto simp: eq remove_alias_def analyzer_wf_def ran_def split: if_splits)
  show "insert_alias i sources an = insert_alias i sources an' \<and> analyzer_wf l2p (insert_alias i sources an)"
    if "list_all (source_wf l2p) sources"
    using wf that by (auto simp: eq insert_alias_def analyzer_wf_def ran_def split: if_splits)
qed

lemma ran_local_to_param: "ran (local_to_param g) \<subseteq> {..<length (cf_params g)}"
proof -
  have "p < length (cf_params g)" if "(i, p) \<in> set (List.map_filter (\<lambda>(idx, (local_id, _, _, _)).
      map_option (\<lambda>i. (i, idx)) local_id) (enumerate 0 (cf_params g)))" for i p
    using that by (auto simp: map_filter_def in_set_enumerate_eq)
  then show ?thesis
    by (auto simp: local_to_param_def collect_map_def ran_def dest!: map_of_SomeD)
qed


section \<open>Addresses that reach a sink directly\<close>

text \<open>Expressions whose value contains the address of a local, whatever the aliases.\<close>

inductive takes_address :: "local_id \<Rightarrow> texpr \<Rightarrow> bool" where
  addr: "takes_address x (TExpr sp t (TEK_Unary Op_Addr (TExpr sp' t' (TEK_Local x n))))"
| slice: "takes_address x (TExpr sp t (TEK_ArrayToSlice (TExpr sp' t' (TEK_Local x n))))"
| range: "takes_address x (TExpr sp t (TEK_Slice (TExpr sp' (Ty_Array len elem) (TEK_Local x n)) a b))"
| field: "(f, e) \<in> set fs \<Longrightarrow> takes_address x e \<Longrightarrow> takes_address x (TExpr sp t (TEK_StructLiteral tn fs))"
| payload: "e \<in> set es \<Longrightarrow> takes_address x e \<Longrightarrow> takes_address x (TExpr sp t (TEK_EnumLiteral tn vn i es))"
| element: "e \<in> set es \<Longrightarrow> takes_address x e \<Longrightarrow> takes_address x (TExpr sp t (TEK_ArrayLiteral es))"
| cast: "takes_address x e \<Longrightarrow> takes_address x (TExpr sp t (TEK_Cast e t'))"
| moved: "takes_address x e \<Longrightarrow> takes_address x (TExpr sp t (TEK_Move e))"
| const: "takes_address x e \<Longrightarrow> takes_address x (TExpr sp t (TEK_SliceToConst e))"

lemma fold_subset:
  "(\<And>y out. y \<in> set ys \<Longrightarrow> set out \<subseteq> set (f y out)) \<Longrightarrow> set out \<subseteq> set (fold f ys out)"
proof (induction ys arbitrary: out)
  case (Cons y ys)
  then show ?case using Cons.prems [of y out] Cons.IH [of "f y out"] by fastforce
qed simp

lemma fold_member:
  assumes "\<And>y out. y \<in> set ys \<Longrightarrow> set out \<subseteq> set (f y out)" and "y \<in> set ys" and "\<And>out. z \<in> set (f y out)"
  shows "z \<in> set (fold f ys out)"
  using assms
proof (induction ys arbitrary: out)
  case (Cons u ys)
  show ?case
  proof (cases "u = y")
    case True
    then show ?thesis using fold_subset [of ys f "f u out"] Cons.prems by auto
  next
    case False
    then show ?thesis using Cons by simp
  qed
qed simp

lemma collect_storage_sources_subset: "set out \<subseteq> set (collect_storage_sources an e out)"
proof (induction an e out rule: collect_storage_sources.induct)
  case (8 an sp t n field_inits out)
  show ?case unfolding collect_storage_sources.simps by (rule fold_subset) (rule 8)
next
  case (19 an sp t b arms out)
  show ?case
    unfolding collect_storage_sources.simps by (rule fold_subset) (rule subset_trans [OF 19(1,2)])
qed (auto split: option.split intro: fold_subset [THEN subsetD])

lemma takes_address_collect:
  assumes "takes_address x e" and "an_local_to_param an x = None"
  shows "Src_Local x \<in> set (collect_storage_sources an e out)"
  using assms
  by (induction x e arbitrary: out rule: takes_address.induct)
     (auto simp: local_storage_def as_local_def intro!: fold_member collect_storage_sources_subset)

text \<open>The expressions that a node lets escape without consulting a summary.\<close>

fun sinks :: "thir_node \<Rightarrow> texpr list" where
  "sinks (N_Stmt (TStmt _ (TSK_Return (Some e)))) = [e]"
| "sinks (N_Stmt (TStmt _ (TSK_Assign target e))) = (if as_local target = None then [e] else [])"
| "sinks (N_ForInit (TFI_Assign target e)) = (if as_local target = None then [e] else [])"
| "sinks (N_Expr (TExpr _ _ (TEK_MakeDynamicInterface e _))) = [e]"
| "sinks (N_Expr (TExpr _ _ (TEK_ErrorBox e _))) = [e]"
| "sinks (N_Expr (TExpr _ _ (TEK_ReportBox e _))) = [e]"
| "sinks (N_Expr (TExpr _ _ (TEK_CloneMessage e _))) = [e]"
| "sinks (N_Expr (TExpr _ _ (TEK_MetaAsRefRepr e _))) = [e]"
| "sinks (N_Expr (TExpr _ _ (TEK_DynamicInterfaceCall _ _ receiver args))) = receiver # args"
| "sinks (N_Expr (TExpr _ _ (TEK_RetainedClosureInterfaceCall _ _ _ receiver args))) = receiver # args"
| "sinks (N_Expr (TExpr _ _ (TEK_Call callee args))) =
     (if as_function callee = None then [arg \<leftarrow> args. ty_can_carry_pointer (texpr_ty arg)] else [])"
| "sinks _ = []"

definition sunk :: "local_id \<Rightarrow> thir_node \<Rightarrow> bool" where
  "sunk x n \<longleftrightarrow> (\<exists>m \<in> set (preorder n). \<exists>e \<in> set (sinks m). takes_address x e)"

lemma sunk_walk: "sunk x n \<longleftrightarrow> (\<exists>e \<in> set (sinks n). takes_address x e) \<or> (\<exists>c \<in> set (walk n). sunk x c)"
  unfolding sunk_def by (subst preorder.simps) auto

lemma sunk_pattern [simp]: "\<not> sunk x (N_Pattern p)"
proof (induction p)
  case (TPat_Variant t en vn i ps)
  then show ?case by (subst sunk_walk) auto
qed (subst sunk_walk; simp)+

lemma sunk_simps:
  "sunk x (N_Block (TBlock sp stmts)) \<longleftrightarrow> (\<exists>s \<in> set stmts. sunk x (N_Stmt s))"
  "sunk x (N_Stmt (TStmt sp k)) \<longleftrightarrow> (\<exists>e \<in> set (sinks (N_Stmt (TStmt sp k))). takes_address x e) \<or>
     (\<exists>c \<in> set (walk_stmt_kind k). sunk x c)"
  "sunk x (N_ForInit (TFI_VarDecl t n j init)) \<longleftrightarrow> (\<exists>e. init = Some e \<and> sunk x (N_Expr e))"
  "sunk x (N_ForInit (TFI_Assign target e)) \<longleftrightarrow>
     as_local target = None \<and> takes_address x e \<or> sunk x (N_Expr target) \<or> sunk x (N_Expr e)"
  "sunk x (N_ForInit (TFI_Expr e)) \<longleftrightarrow> sunk x (N_Expr e)"
  "sunk x (N_Case c) \<longleftrightarrow> (\<exists>s \<in> set (tcase_statements c). sunk x (N_Stmt s))"
  "sunk x (N_ClosureBody (TCB_Expr e)) \<longleftrightarrow> sunk x (N_Expr e)"
  "sunk x (N_ClosureBody (TCB_Block b)) \<longleftrightarrow> sunk x (N_Block b)"
  "sunk x (N_Expr (TExpr sp t ek)) \<longleftrightarrow> (\<exists>e \<in> set (sinks (N_Expr (TExpr sp t ek))). takes_address x e) \<or>
     (\<exists>c \<in> set (walk_expr_kind ek). sunk x c)"
  by (subst sunk_walk, simp add: walk_stmt_def walk_expr_def; fail | subst sunk_walk, auto; fail |
      subst sunk_walk, cases c, simp)+

text \<open>Scanning keeps the parameters and never takes a promotion back.\<close>

abbreviation promoted :: "local_id \<Rightarrow> analyzer \<Rightarrow> bool" where
  "promoted x an \<equiv> x \<in> heap_locals (an_escape an)"

lemma promoted_add_sources [simp]:
  "x \<in> heap_locals (add_sources S esc) \<longleftrightarrow> x \<in> heap_locals esc \<or> Src_Local x \<in> S"
  by (simp add: add_sources_def)

interpretation keep: scan_relation "\<lambda>an an'. an = an' \<and> an_local_to_param an = l2p" "\<lambda>_. True" for l2p
  by unfold_locales
    (auto simp: escape_sources_add insert_alias_def remove_alias_def apply_call_escape_add list_all_iff)

interpretation grow: scan_relation "\<lambda>an an'. an = an' \<and> promoted x an" "\<lambda>_. True" for x
  by unfold_locales
    (auto simp: escape_sources_add insert_alias_def remove_alias_def apply_call_escape_add list_all_iff)

lemma scan_keeps_params [simp]:
  "an_local_to_param (scan_block b an) = an_local_to_param an"
  "an_local_to_param (scan_stmt s an) = an_local_to_param an"
  "an_local_to_param (scan_for_clause i an) = an_local_to_param an"
  "an_local_to_param (scan_closure_body c an) = an_local_to_param an"
  "an_local_to_param (scan_expr e an) = an_local_to_param an"
  "an_local_to_param (escape_sources e an) = an_local_to_param an"
  "an_local_to_param (update_pattern_aliases p sources an) = an_local_to_param an"
  using keep.scan_R [of an an "an_local_to_param an"] keep.update_pattern_aliases_R [of sources an an]
  by (auto simp: escape_sources_add list_all_iff)

lemma scan_promoted [simp]:
  "promoted x an \<Longrightarrow> promoted x (scan_block b an)"
  "promoted x an \<Longrightarrow> promoted x (scan_stmt s an)"
  "promoted x an \<Longrightarrow> promoted x (scan_for_clause i an)"
  "promoted x an \<Longrightarrow> promoted x (scan_closure_body c an)"
  "promoted x an \<Longrightarrow> promoted x (scan_expr e an)"
  "promoted x an \<Longrightarrow> promoted x (update_alias j e an)"
  "promoted x an \<Longrightarrow> promoted x (assign_effect e e' an)"
  "promoted x an \<Longrightarrow> promoted x (apply_call_escape e es an)"
  "promoted x an \<Longrightarrow> promoted x (update_pattern_aliases p sources an)"
  "promoted x an \<Longrightarrow> promoted x (escape_sources e an)"
  using grow.scan_R [of an an x] grow.update_alias_R [of an an x] grow.assign_effect_R [of an an x]
    grow.apply_call_R [of an an x] grow.escape_sources_R [of an an x] grow.update_pattern_aliases_R [of sources an an x]
  by (auto simp: list_all_iff)

lemma promoted_fold:
  assumes "promoted x an" and "\<And>y an. y \<in> set ys \<Longrightarrow> promoted x an \<Longrightarrow> promoted x (f y an)"
  shows "promoted x (fold f ys an)"
  using assms by (induction ys arbitrary: an) auto

lemma promoted_fold_member:
  assumes "y \<in> set ys"
    and "\<And>an. an_local_to_param an x = None \<Longrightarrow> promoted x (f y an)"
    and "\<And>y an. y \<in> set ys \<Longrightarrow> promoted x an \<Longrightarrow> promoted x (f y an)"
    and "\<And>y an. y \<in> set ys \<Longrightarrow> an_local_to_param (f y an) = an_local_to_param an"
    and "an_local_to_param an x = None"
  shows "promoted x (fold f ys an)"
  using assms
proof (induction ys arbitrary: an)
  case (Cons u ys)
  show ?case
  proof (cases "u = y")
    case True
    have "promoted x (f y an)" by (rule Cons.prems(2) [OF Cons.prems(5)])
    then have "promoted x (fold f ys (f y an))" by (rule promoted_fold) (simp add: Cons.prems(3))
    then show ?thesis using True by simp
  next
    case False
    then have "y \<in> set ys" using Cons.prems(1) by simp
    then have "promoted x (fold f ys (f u an))"
      by (rule Cons.IH) (simp_all add: Cons.prems)
    then show ?thesis by simp
  qed
qed simp

lemma fold_keeps_params:
  "(\<And>y an. y \<in> set ys \<Longrightarrow> an_local_to_param (f y an) = an_local_to_param an) \<Longrightarrow>
     an_local_to_param (fold f ys an) = an_local_to_param an"
  by (induction ys arbitrary: an) auto

lemma promoted_escape_sources:
  "takes_address x e \<Longrightarrow> an_local_to_param an x = None \<Longrightarrow> promoted x (escape_sources e an)"
  by (simp add: escape_sources_add storage_sources_def takes_address_collect)

lemma promoted_assign_effect:
  "as_local target = None \<Longrightarrow> takes_address x e \<Longrightarrow> an_local_to_param an x = None \<Longrightarrow>
     promoted x (assign_effect target e an)"
  by (simp add: assign_effect_def promoted_escape_sources)

lemma promoted_apply_call:
  "as_function callee = None \<Longrightarrow> arg \<in> set args \<Longrightarrow> ty_can_carry_pointer (texpr_ty arg) \<Longrightarrow>
     takes_address x arg \<Longrightarrow> an_local_to_param an x = None \<Longrightarrow> promoted x (apply_call_escape callee args an)"
  by (auto simp: apply_call_escape_add call_sources_def storage_sources_def takes_address_collect)

lemma scan_folds [simp]:
  "promoted x an \<Longrightarrow> promoted x (fold scan_stmt ss an)"
  "promoted x an \<Longrightarrow> promoted x (fold scan_expr es an)"
  "promoted x an \<Longrightarrow> promoted x (fold (\<lambda>arg an. escape_sources arg (scan_expr arg an)) es an)"
  by (simp_all add: promoted_fold)

lemma scan_promotes:
  shows "sunk x (N_Block b) \<Longrightarrow> an_local_to_param an x = None \<Longrightarrow> promoted x (scan_block b an)"
    and "sunk x (N_Stmt s) \<Longrightarrow> an_local_to_param an x = None \<Longrightarrow> promoted x (scan_stmt s an)"
    and "sunk x (N_ForInit i) \<Longrightarrow> an_local_to_param an x = None \<Longrightarrow> promoted x (scan_for_clause i an)"
    and "sunk x (N_ClosureBody c) \<Longrightarrow> an_local_to_param an x = None \<Longrightarrow> promoted x (scan_closure_body c an)"
    and "sunk x (N_Expr e) \<Longrightarrow> an_local_to_param an x = None \<Longrightarrow> promoted x (scan_expr e an)"
proof (induction b and s and i and c and e arbitrary: an and an and an and an and an
    rule: scan_block_scan_stmt_scan_for_clause_scan_closure_body_scan_expr.induct)
  case (8 sp expr n cases d default_stmts f)
  define an1 where "an1 = scan_expr expr an"
  define sources where "sources = collect_storage_sources an1 expr []"
  define clause where "clause = (\<lambda>c u. fold scan_stmt (tcase_statements c)
      (update_pattern_aliases (tcase_pattern c) sources u))"
  have scan: "scan_stmt (TStmt sp (TSK_Switch expr n cases d default_stmts f)) an =
      fold scan_stmt default_stmts (fold clause cases an1)"
    by (simp add: an1_def sources_def clause_def Let_def)
  have an1: "an_local_to_param an1 x = None" using 8(5) by (simp add: an1_def)
  have grow: "promoted x u \<Longrightarrow> promoted x (clause c u)" for c u by (simp add: clause_def)
  have keep: "an_local_to_param (clause c u) = an_local_to_param u" for c u
    by (simp add: clause_def fold_keeps_params)
  have "sunk x (N_Expr expr) \<or> (\<exists>c \<in> set cases. \<exists>s \<in> set (tcase_statements c). sunk x (N_Stmt s)) \<or>
      (\<exists>s \<in> set default_stmts. sunk x (N_Stmt s))"
    using 8(4) by (auto simp: sunk_simps)
  then consider "promoted x an1" | c s where "c \<in> set cases" "s \<in> set (tcase_statements c)" "sunk x (N_Stmt s)"
    | s where "s \<in> set default_stmts" "sunk x (N_Stmt s)"
    using 8(1,5) unfolding an1_def by blast
  then show ?case
  proof cases
    case 1
    then show ?thesis unfolding scan by (simp add: grow promoted_fold)
  next
    case (2 c s)
    have "promoted x (clause c u)" if "an_local_to_param u x = None" for u
      unfolding clause_def
      by (rule promoted_fold_member [OF 2(2)]) (simp_all add: 8(2) [OF refl refl 2(1) 2(2) 2(3)] that)
    then have "promoted x (fold clause cases an1)"
      by (rule promoted_fold_member [OF 2(1)]) (simp_all add: grow keep an1)
    then show ?thesis unfolding scan by simp
  next
    case (3 s)
    show ?thesis unfolding scan
      by (rule promoted_fold_member [OF 3(1)])
         (simp_all add: 8(3) [OF refl refl refl 3] an1 fold_keeps_params keep)
  qed
next
  case (31 sp t callee args)
  have "promoted x (fold scan_expr args (scan_expr callee an))" if "sunk x (N_Expr callee)"
    using that 31 by simp
  moreover have "promoted x (fold scan_expr args (scan_expr callee an))" if "arg \<in> set args" "sunk x (N_Expr arg)" for arg
    using that 31 by (auto intro: promoted_fold_member)
  ultimately show ?case using 31(3,4)
    by (auto simp: sunk_simps fold_keeps_params promoted_apply_call split: if_splits)
next
  case (32 sp t statements val)
  have "promoted x (fold scan_stmt statements an)" if "s \<in> set statements" "sunk x (N_Stmt s)" for s
    using that 32 by (auto intro: promoted_fold_member)
  with 32(2-4) show ?case by (auto simp: sunk_simps fold_keeps_params Let_def split: option.splits)
qed (auto simp: sunk_simps fold_keeps_params promoted_escape_sources promoted_assign_effect promoted_apply_call Let_def
    split: option.splits if_splits intro: scan_promoted promoted_fold promoted_fold_member)

text \<open>
  C4: a local whose address reaches a sink directly is promoted to the heap: when anywhere in a
  function body, nested closures included, an expression holding the address of a local is returned,
  stored through something other than a local, boxed, cloned into a message, or passed to a callee
  that is not a known function, the local is among the heap locals, whatever the summaries are.
\<close>

theorem direct_addresses_promoted:
  assumes "cf_body g = Some body" and "n \<in> set (preorder (N_Block body))" and "e \<in> set (sinks n)"
    and "takes_address x e" and "x \<notin> dom (local_to_param g)"
  shows "x \<in> heap_locals (analyze_function g prog s)"
proof -
  have "sunk x (N_Block body)" using assms(2-4) by (auto simp: sunk_def)
  with assms(1,5) show ?thesis by (simp add: analyze_function_def scan_promotes(1) domIff)
qed

section \<open>Examples\<close>

definition example_span :: span where
  "example_span = \<lparr>span_file = 0, span_start = 0, span_end = 0\<rparr>"

definition example_expr :: "ty \<Rightarrow> texpr_kind \<Rightarrow> texpr" where
  "example_expr = TExpr example_span"

definition example_local :: "ty \<Rightarrow> local_id \<Rightarrow> string \<Rightarrow> texpr" where
  "example_local t i n = example_expr t (TEK_Local i n)"

definition example_addr :: "local_id \<Rightarrow> string \<Rightarrow> texpr" where
  "example_addr i n = example_expr (Ty_Pointer False Writable Ty_I32) (TEK_Unary Op_Addr (example_local Ty_I32 i n))"

definition example_function :: "def_id \<Rightarrow> string \<Rightarrow> local_id list \<Rightarrow> tstmt_kind list \<Rightarrow> checked_function" where
  "example_function d name params body =
     \<lparr>cf_def_id = d, cf_name = name, cf_is_unsafe = False, cf_is_async = False, cf_async_facts = None,
      cf_abi = None, cf_noescape = False, cf_exported = False, cf_ret = Ty_Pointer False Writable Ty_I32,
      cf_params = map (\<lambda>i. (Some i, ''p'', Ty_Pointer False Writable Ty_I32, Immutable)) params,
      cf_body = Some (TBlock example_span (map (TStmt example_span) body))\<rparr>"

lemmas example_defs = example_span_def example_expr_def example_local_def example_addr_def example_function_def

text \<open>\<open>pass(p) { return p; }\<close> and \<open>leak() { i32 x; return pass(&x); }\<close>.\<close>

definition example_pass :: checked_function where
  "example_pass = example_function 1 ''pass'' [1] [TSK_Return (Some (example_local (Ty_Pointer False Writable Ty_I32) 1 ''p''))]"

definition example_leak :: checked_function where
  "example_leak = example_function 2 ''leak'' []
     [TSK_VarDecl Ty_I32 ''x'' 7 None,
      TSK_Return (Some (example_addr 7 ''x''))]"

theorem analyze_escapes_least_witness:
  "\<exists>s. analyze_escapes [example_pass, example_leak] = Some s \<and> escape_solution [example_pass, example_leak] s"
proof -
  have "distinct (map cf_def_id [example_pass, example_leak])"
    by (simp add: example_pass_def example_leak_def example_defs)
  from analyze_escapes_least [OF this] show ?thesis by blast
qed

theorem direct_addresses_promoted_witness:
  "7 \<in> heap_locals (analyze_function example_leak (program_functions [example_leak]) Map.empty)"
proof -
  let ?ret = "TStmt example_span (TSK_Return (Some (example_addr 7 ''x'')))"
  let ?body = "TBlock example_span [TStmt example_span (TSK_VarDecl Ty_I32 ''x'' 7 None), ?ret]"
  have body: "cf_body example_leak = Some ?body" by (simp add: example_leak_def example_function_def)
  have "N_Stmt ?ret \<in> set (preorder (N_Block ?body))"
    by (subst preorder.simps) (simp, subst (2) preorder.simps, simp)
  moreover have "example_addr 7 ''x'' \<in> set (sinks (N_Stmt ?ret))" by simp
  moreover have "takes_address 7 (example_addr 7 ''x'')"
    by (simp add: example_addr_def example_local_def example_expr_def takes_address.addr)
  moreover have "7 \<notin> dom (local_to_param example_leak)"
    by (simp add: local_to_param_def collect_map_def example_leak_def example_function_def map_filter_def)
  ultimately show ?thesis by (rule direct_addresses_promoted [OF body])
qed

text \<open>
  \<open>pick(c) { i32 x; i32 y; *i32 p = &x; if (c) { p = &y; } return p; }\<close>: an assignment inside a branch
  replaces the sources of \<open>p\<close> instead of adding to them.
\<close>

definition example_pick :: checked_function where
  "example_pick = example_function 3 ''pick'' [1]
     [TSK_VarDecl Ty_I32 ''x'' 7 None,
      TSK_VarDecl Ty_I32 ''y'' 8 None,
      TSK_VarDecl (Ty_Pointer False Writable Ty_I32) ''p'' 9 (Some (example_addr 7 ''x'')),
      TSK_If (example_local Ty_Bool 1 ''c'')
        (TBlock example_span [TStmt example_span
          (TSK_Assign (example_local (Ty_Pointer False Writable Ty_I32) 9 ''p'') (example_addr 8 ''y''))])
        None,
      TSK_Return (Some (example_local (Ty_Pointer False Writable Ty_I32) 9 ''p''))]"


end
