(* ===== verification/Spec2Isabelle.thy ===== *)
theory Spec2Isabelle
  imports
    Ciel_Source Ciel_Resolve_Facts Ciel_Ty Ciel_Occurs Ciel_Subst Ciel_Assign Ciel_Unify Ciel_Mangle Ciel_Meta
    Ciel_Suggest Ciel_Layout Ciel_Closure Ciel_Affine Ciel_Visit Ciel_Escape_Facts
begin

text \<open>
  Verification library for the Ciel compiler, a Rust program under \<open>src/src\<close> that translates Ciel to C.

  \<^bold>\<open>The program.\<close> The driver loads modules, lexes and parses them (\<open>lexer.rs\<close>, \<open>parser.rs\<close>, \<open>ast.rs\<close>),
  resolves names (\<open>resolve.rs\<close>), lowers to HIR (\<open>hir.rs\<close>), checks types (\<open>typeck\<close>) over the type language
  of \<open>types.rs\<close> and produces the typed representation (\<open>thir\<close>), instantiates generics (\<open>mono.rs\<close>), checks
  layouts (\<open>layout.rs\<close>), decides which locals live on the heap (\<open>escape.rs\<close>) and emits C (\<open>codegen\<close>).

  \<^bold>\<open>Conventions.\<close> A Rust struct is a record or a datatype with one constructor, an enum a datatype whose
  constructors carry a short prefix, a method a function with the receiver first. A \<open>String\<close> is a \<^typ>\<open>string\<close>
  (code points U+0000 to U+00FF; byte counts go through \<open>len_utf8\<close>), \<open>usize\<close> is \<^typ>\<open>nat\<close> with the bound
  written out where the code checks for overflow, \<open>HashMap\<close> is a map or an association list, \<open>HashSet\<close> a set
  or a list used as one, \<open>Option\<close> is \<open>option\<close>. Mutable state is passed explicitly.

  \<^bold>\<open>Libraries.\<close> \<open>Ciel_Prelude\<close>: machine integers, decimal printing, list helpers, theorem collections.
  \<open>Ciel_Search\<close>: search along paths with a set of nodes being visited, and when it equals reachability.
  \<open>Ciel_Fixpoint\<close>: round-robin iteration of monotone equations; the locale \<open>monotone_equations\<close> gives
  termination and leastness and is interpreted on the escape analysis. \<open>Ciel_Dfs\<close>: depth-first traversal.

  \<^bold>\<open>Source text and diagnostics\<close> (\<open>Ciel_Source\<close>; \<open>span.rs\<close>, \<open>source.rs\<close>, \<open>diagnostic.rs\<close>): file identifiers
  stay stable, byte offsets are turned into line and column, diagnostics are rendered.

  \<^bold>\<open>Types\<close> (\<open>types.rs\<close>). \<open>Ciel_Ty\<close>: the data model and classifiers. \<open>Ciel_Occurs\<close>: traversals (generics, holes,
  complexity, containment) against one notion of occurrence. \<open>Ciel_Subst\<close>: substitution, its composition and
  the normal form of hidden state. \<open>Ciel_Assign\<close>: \<open>can_assign_from\<close> refines declarative rules on types with
  hidden state erased. \<open>Ciel_Unify\<close>: soundness and completeness of \<open>unify_ty\<close>. \<open>Ciel_Mangle\<close>: names of
  instances and fragments. \<open>Ciel_Meta\<close>: structural representation types of arrays, products and sums and the
  expansion budget (\<open>typeck/meta_repr.rs\<close>). \<open>Ciel_Closure\<close>: closure owners (locale \<open>interner\<close>) and retained
  closures (\<open>retained.rs\<close>). \<open>Ciel_Affine\<close>: \<open>affine.rs\<close>, with fuel because the environment may describe
  infinitely many types; with finitely many reachable types enough fuel exists.

  \<^bold>\<open>Syntax trees.\<close> \<open>Ciel_Ast\<close> (\<open>ast.rs\<close>), \<open>Ciel_Thir\<close> (\<open>thir/mod.rs\<close>), \<open>Ciel_Visit\<close> (\<open>thir/visit.rs\<close>, \<open>capture.rs\<close>):
  the visitor as lists of nodes to visit, completeness of the traversal, captures as free locals.

  \<^bold>\<open>Name resolution\<close> (\<open>resolve.rs\<close>). \<open>Ciel_Resolve\<close>: the table of definitions, imports and re-exports and
  every lookup; a panic of an index is \<^const>\<open>None\<close>. The methods that walk re-exports with a set of visited
  modules are runs of \<open>run_events\<close> of \<open>Ciel_Dfs\<close>, a depth-first traversal that terminates on cyclic graphs
  because every module is entered once. \<open>Ciel_Resolve_Facts\<close>: the table is well formed, lookups always return,
  bare and qualified names find exactly what reaches the module through re-exports, and resolution accepts
  exactly the programs without duplicates and with loaded imports. Module numbers are positions, as the
  loader of \<open>driver.rs\<close> assigns them.

  \<^bold>\<open>Whole-program checks.\<close> \<open>Ciel_Layout\<close> (\<open>layout.rs\<close>): acceptance is acyclicity of by-value containment.
  \<open>Ciel_Escape\<close> and \<open>Ciel_Escape_Facts\<close> (\<open>escape.rs\<close>): the summary iteration terminates in the least solution,
  summaries are well formed, addresses that reach a sink directly are promoted, and a counterexample shows
  that assignments in branches are not joined. The locale \<open>scan_relation\<close> carries the proofs about scanning.

  \<^bold>\<open>Suggestions\<close> (\<open>Ciel_Suggest\<close>; \<open>suggest.rs\<close>): the two-row edit distance is the least number of edits.

  \<^bold>\<open>Not modelled.\<close> The lexer is generated by the \<open>logos\<close> crate; the parser, HIR lowering, the body of the type
  checker, monomorphisation, the formatter and the C emitter are outside this development because of their
  size, not of their nature; the language server, the driver, the build tool and the command line are mostly
  input and output. The records of \<open>thir/mod.rs\<close> that hold HIR declarations are left out with the HIR.
\<close>

end
